(* ===== verification/Prelude.thy ===== *)
theory Prelude
  imports "HOL-Library.Word" "HOL-Library.Monad_Syntax"
begin

unbundle bit_operations_syntax

text \<open>
  Shared vocabulary of the development: the C integer types, byte-addressed physical
  memory with little-endian 64-bit loads and stores, bit fields, and the lemmas on words
  and memory that the component theories use.

  The collections \<open>mem_simps\<close> (read over write) and \<open>bit_fields\<close> (bits and fields of
  words) are extended by the theories that follow.
\<close>

named_theorems mem_simps \<open>reads of memory after writes\<close>
named_theorems bit_fields \<open>single bits and fields of page-table entries\<close>

subsection \<open>C integer types\<close>

text \<open>\<open>size_t\<close>, \<open>unsigned long\<close> and pointers are 64-bit words, \<open>int\<close> is a 32-bit word read
  with \<^const>\<open>sint\<close>. \<open>NULL\<close> is \<open>0\<close> and \<open>MAP_FAILED\<close> is \<open>(void*)-1\<close>.\<close>

type_synonym u64 = "64 word"
type_synonym u32 = "32 word"
type_synonym u8 = "8 word"

text \<open>Conversion of \<open>size_t\<close> to \<open>int\<close> keeps the low 32 bits; conversion of \<open>int\<close> to
  \<open>size_t\<close> extends the sign.\<close>

definition size_to_int :: "u64 \<Rightarrow> u32" where
  "size_to_int x = ucast x"

definition int_to_size :: "u32 \<Rightarrow> u64" where
  "int_to_size x = scast x"

lemma bit_size_to_int: "bit (size_to_int x) n \<longleftrightarrow> n < 32 \<and> bit x n"
  by (simp add: size_to_int_def bit_simps)

lemma bit_ucast_u32: "bit (ucast (x::u32) :: u64) n \<longleftrightarrow> bit x n"
  by (auto simp: bit_simps dest: bit_imp_le_length)

lemma bit_int_to_size:
  "bit (int_to_size x) n \<longleftrightarrow> n < 64 \<and> bit x (min n 31)"
  by (auto simp: int_to_size_def bit_simps min_def)

lemma take_bit_small:
  fixes k :: u64
  assumes "unat k < 2 ^ n"
  shows "take_bit n k = k"
proof -
  have "unat (take_bit n k) = unat k"
    using assms by (simp add: unsigned_take_bit_eq take_bit_nat_eq_self)
  then show ?thesis by (simp add: word_unat_eq_iff)
qed

lemma int_to_size_to_int_small:
  assumes "unat x < 2 ^ 31"
  shows "int_to_size (size_to_int x) = x"
proof (rule bit_word_eqI)
  have *: "\<not> bit x k" if "31 \<le> k" for k
  proof -
    have "x = take_bit 31 x"
      using assms by (simp add: take_bit_small)
    then show ?thesis using that by (metis bit_take_bit_iff not_le)
  qed
  fix n assume "n < LENGTH(64)"
  then show "bit (int_to_size (size_to_int x)) n = bit x n"
    using * by (auto simp: int_to_size_def size_to_int_def bit_simps min_def)
qed

subsection \<open>Bit fields\<close>

text \<open>The \<open>len\<close> bits of \<open>w\<close> that start at bit \<open>off\<close>, and replacing them.\<close>

definition field :: "nat \<Rightarrow> nat \<Rightarrow> u64 \<Rightarrow> u64" where
  "field off len w = take_bit len (drop_bit off w)"

lemma bit_field [bit_fields]:
  "bit (field off len w) n \<longleftrightarrow> n < len \<and> bit w (off + n)"
  by (auto simp: field_def bit_simps)

lemma field_eqI:
  "(\<And>n. n < len \<Longrightarrow> bit v (off + n) = bit w (off + n)) \<Longrightarrow> field off len v = field off len w"
  by (rule bit_word_eqI) (auto simp: bit_field)

lemma field_le_narrow:
  assumes "unat (field off k w) < 2 ^ len" "len \<le> k"
  shows "field off len w = field off k w"
proof -
  have "field off len w = take_bit len (field off k w)"
    using assms(2) by (simp add: field_def min_def)
  also have "\<dots> = field off k w"
    using assms(1) by (rule take_bit_small)
  finally show ?thesis .
qed

lemma field_less: "len < 64 \<Longrightarrow> unat (field off len w) < 2 ^ len"
  by (simp add: field_def unsigned_take_bit_eq)

lemma bit_push_bit_one [bit_fields]:
  "bit (push_bit k (1::u64)) n \<longleftrightarrow> n = k \<and> k < 64"
  "bit (2 ^ k :: u64) n \<longleftrightarrow> n = k \<and> k < 64"
  by (auto simp: bit_simps)

lemma small_bits:
  fixes p :: u64
  shows "bit p n \<Longrightarrow> unat p < 2 ^ k \<Longrightarrow> n < k"
  using take_bit_small [of p k] by (metis bit_take_bit_iff)

lemma bit_mask_field [bit_fields]:
  "bit (push_bit off (mask len) :: u64) n \<longleftrightarrow> off \<le> n \<and> n < off + len \<and> n < 64"
  by (auto simp: bit_simps)

lemma bit_u64_bound: "bit (w::u64) n \<Longrightarrow> n < 64"
  using bit_imp_le_length by fastforce

lemma and_push_bit_one_iff:
  fixes w :: u64
  assumes k: "k < 64"
  shows "w AND push_bit k 1 = 0 \<longleftrightarrow> \<not> bit w k" and "w AND 2 ^ k = 0 \<longleftrightarrow> \<not> bit w k"
proof -
  have "bit (w AND push_bit k 1) n = bit (if bit w k then push_bit k 1 else (0::u64)) n" for n
    using k by (auto simp: bit_fields bit_simps)
  then have "w AND push_bit k 1 = (if bit w k then push_bit k 1 else 0)"
    by (rule bit_eqI)
  moreover have "push_bit k (1::u64) \<noteq> 0"
    using k by (metis bit_0_eq bit_push_bit_one(1) bot_apply bot_bool_def)
  ultimately show "w AND push_bit k 1 = 0 \<longleftrightarrow> \<not> bit w k" by simp
  then show "w AND 2 ^ k = 0 \<longleftrightarrow> \<not> bit w k" by (simp add: push_bit_eq_mult)
qed

subsection \<open>Low and high parts of an address\<close>

lemma take_bit_add_aligned:
  fixes a c :: u64
  assumes "take_bit n a = 0" "n \<le> 64"
  shows "take_bit n (a + c) = take_bit n c"
proof -
  have u: "uint (take_bit n x) = take_bit n (uint x)" for x :: u64 by (simp add: unsigned_take_bit_eq)
  have "uint (take_bit n (a + c)) = take_bit n (take_bit 64 (uint a + uint c))"
    unfolding u by (simp add: uint_word_ariths take_bit_eq_mod)
  also have "\<dots> = take_bit n (take_bit n (uint a) + take_bit n (uint c))"
    using assms(2) by (simp add: take_bit_take_bit min_def take_bit_add)
  also have "\<dots> = uint (take_bit n c)"
    using u [of a] u [of c] assms(1) by simp
  finally show ?thesis by (simp add: word_uint_eq_iff)
qed

lemma add_low_part:
  fixes a k :: u64
  assumes "take_bit n a = 0" "unat k < 2 ^ n"
  shows "a + k = a OR k"
    and "drop_bit n (a + k) = drop_bit n a"
    and "take_bit n (a + k) = k"
proof -
  have k: "take_bit n k = k"
    using assms(2) by (rule take_bit_small)
  have lo: "bit k i \<Longrightarrow> i < n" for i
    using k by (metis bit_take_bit_iff)
  have "\<not> bit (take_bit n a) i" for i
    using assms(1) by simp
  then have hi: "bit a i \<Longrightarrow> n \<le> i" for i
    by (auto simp: bit_take_bit_iff not_less)
  show or: "a + k = a OR k"
    by (rule disjunctive_add) (meson hi lo not_le)
  show "drop_bit n (a + k) = drop_bit n a"
    unfolding or by (rule bit_eqI) (auto simp: bit_simps dest: lo)
  show "take_bit n (a + k) = k"
    unfolding or by (rule bit_eqI) (auto simp: bit_simps dest: hi lo bit_imp_le_length)
qed

lemma same_block:
  fixes a b x :: u64
  assumes "take_bit n a = 0" "take_bit n b = 0" "unat (x - a) < 2 ^ n" "unat (x - b) < 2 ^ n"
  shows "a = b"
proof -
  have "drop_bit n a = drop_bit n x" "drop_bit n b = drop_bit n x"
    using add_low_part(2) [OF assms(1,3)] add_low_part(2) [OF assms(2,4)] by simp_all
  then have "drop_bit n a = drop_bit n b" by simp
  then show ?thesis
    using assms(1,2) by (metis bits_ident)
qed
subsection \<open>Byte-addressed memory\<close>

type_synonym mem = "u64 \<Rightarrow> u8"

definition read_bytes :: "mem \<Rightarrow> u64 \<Rightarrow> nat \<Rightarrow> u8 list" where
  "read_bytes m a n = map (\<lambda>i. m (a + of_nat i)) [0..<n]"

definition write_bytes :: "mem \<Rightarrow> u64 \<Rightarrow> u8 list \<Rightarrow> mem" where
  "write_bytes m a bs =
     (\<lambda>x. if unat (x - a) < length bs then bs ! unat (x - a) else m x)"

text \<open>A little-endian 64-bit access.\<close>

definition load64 :: "mem \<Rightarrow> u64 \<Rightarrow> u64" where
  "load64 m a = word_rcat (rev (read_bytes m a 8))"

definition store64 :: "mem \<Rightarrow> u64 \<Rightarrow> u64 \<Rightarrow> mem" where
  "store64 m a v = write_bytes m a (map (\<lambda>i. ucast (drop_bit (8 * i) v)) [0..<8])"

text \<open>\<open>apart a n b k\<close>: the \<open>n\<close> bytes at \<open>a\<close> and the \<open>k\<close> bytes at \<open>b\<close> do not overlap.\<close>

definition apart :: "u64 \<Rightarrow> nat \<Rightarrow> u64 \<Rightarrow> nat \<Rightarrow> bool" where
  "apart a n b k \<longleftrightarrow> n \<le> unat (b - a) \<and> k \<le> unat (a - b)"

lemma length_read_bytes [simp]: "length (read_bytes m a n) = n"
  by (simp add: read_bytes_def)

lemma nth_read_bytes [simp]: "i < n \<Longrightarrow> read_bytes m a n ! i = m (a + of_nat i)"
  by (simp add: read_bytes_def)

lemma unat_of_nat_u64: "i < 2 ^ 64 \<Longrightarrow> unat (of_nat i :: u64) = i"
  by (simp add: unat_of_nat take_bit_nat_eq_self)

lemma read_write_bytes_same [mem_simps]:
  "length bs < 2 ^ 64 \<Longrightarrow> read_bytes (write_bytes m a bs) a (length bs) = bs"
  by (rule nth_equalityI) (auto simp: write_bytes_def unat_of_nat_u64)

lemma apart_miss:
  assumes "apart a n b k" "i < k" "k < 2 ^ 64"
  shows "n \<le> unat (b + of_nat i - a)"
proof (rule ccontr)
  assume "\<not> ?thesis"
  then have lt: "unat (b + of_nat i - a) < n" by simp
  have n: "n \<le> unat (b - a)" and k: "k \<le> unat (a - b)"
    using assms(1) by (auto simp: apart_def)
  have i: "unat (of_nat i :: u64) = i"
    using assms by (simp add: unat_of_nat_u64)
  have ne: "b - a \<noteq> 0"
    using assms k by auto
  have "(unat (a - b) + unat (b - a)) mod 2 ^ 64 = 0"
    using unat_word_ariths(1) [of "a - b" "b - a"] by simp
  moreover have "unat (a - b) < 2 ^ 64" "unat (b - a) < 2 ^ 64" "0 < unat (b - a)"
    using ne unsigned_less [of "a - b"] unsigned_less [of "b - a"] by (simp_all add: unat_gt_0)
  ultimately have neg: "unat (a - b) + unat (b - a) = 2 ^ 64"
    by (auto simp: mod_eq_0_iff_dvd dvd_def)
  have "unat (b - a + of_nat i) = (unat (b - a) + i) mod 2 ^ 64"
    by (simp add: unat_word_ariths i)
  also have "unat (b - a) + i < 2 ^ 64"
    using neg k assms(2) by linarith
  then have "(unat (b - a) + i) mod 2 ^ 64 = unat (b - a) + i" by simp
  finally have "unat (b + of_nat i - a) = unat (b - a) + i"
    by (simp add: algebra_simps)
  with lt n show False by simp
qed

lemma read_write_bytes_apart [mem_simps]:
  assumes "apart a (length bs) b k" "k < 2 ^ 64"
  shows "read_bytes (write_bytes m a bs) b k = read_bytes m b k"
proof (rule nth_equalityI)
  fix i assume "i < length (read_bytes (write_bytes m a bs) b k)"
  then show "read_bytes (write_bytes m a bs) b k ! i = read_bytes m b k ! i"
    using apart_miss [OF assms(1) _ assms(2), of i] by (simp add: write_bytes_def)
qed simp

lemma bit_load64:
  "bit (load64 m a) n \<longleftrightarrow> n < 64 \<and> bit (m (a + of_nat (n div 8))) (n mod 8)"
proof -
  have "bit (load64 m a) n \<longleftrightarrow>
      n < 64 \<and> bit (horner_sum uint (2 ^ LENGTH(8)) (read_bytes m a 8)) n"
    unfolding load64_def word_rcat_def comp_def rev_rev_ident by (simp add: bit_simps)
  also have "\<dots> \<longleftrightarrow> n < 64 \<and> bit (m (a + of_nat (n div 8))) (n mod 8)"
    unfolding bit_horner_sum_uint_exp_iff by auto
  finally show ?thesis .
qed

lemma load64_read_bytes_cong:
  "read_bytes m a 8 = read_bytes m' a 8 \<Longrightarrow> load64 m a = load64 m' a"
  by (simp add: load64_def)

lemma load64_store64_same [mem_simps]: "load64 (store64 m a v) a = v"
proof (rule bit_word_eqI)
  fix n assume "n < LENGTH(64)"
  then have n: "n < 64" "n div 8 < 8" by simp_all
  then have "unat (of_nat (n div 8) :: u64) = n div 8"
    by (simp add: unat_of_nat_u64)
  with n show "bit (load64 (store64 m a v) a) n = bit v n"
    by (simp add: bit_load64 store64_def write_bytes_def bit_simps del: upt_Suc upt_rec_numeral)
qed

lemma load64_store64_apart [mem_simps]:
  "apart a 8 b 8 \<Longrightarrow> load64 (store64 m a v) b = load64 m b"
  by (rule load64_read_bytes_cong) (simp add: store64_def read_write_bytes_apart)

lemma read_bytes_store64_apart [mem_simps]:
  "apart a 8 b k \<Longrightarrow> k < 2 ^ 64 \<Longrightarrow> read_bytes (store64 m a v) b k = read_bytes m b k"
  by (simp add: store64_def read_write_bytes_apart)

lemma load64_write_bytes_apart [mem_simps]:
  "apart a (length bs) b 8 \<Longrightarrow> load64 (write_bytes m a bs) b = load64 m b"
  by (rule load64_read_bytes_cong) (simp add: read_write_bytes_apart)

lemma apart_sym: "apart a n b k \<longleftrightarrow> apart b k a n"
  by (auto simp: apart_def)

lemma apart_blocks:
  assumes "take_bit n a = 0" "take_bit n b = 0" "a \<noteq> b"
  shows "apart a (2 ^ n) b (2 ^ n)"
proof -
  have "\<not> unat (b - a) < 2 ^ n"
    using same_block [OF assms(1,2), of b] assms(3) by auto
  moreover have "\<not> unat (a - b) < 2 ^ n"
    using same_block [OF assms(1,2), of a] assms(3) by auto
  ultimately show ?thesis by (simp add: apart_def)
qed

lemma apart_aligned8:
  "take_bit 3 a = 0 \<Longrightarrow> take_bit 3 b = 0 \<Longrightarrow> a \<noteq> b \<Longrightarrow> apart a 8 b 8"
  using apart_blocks [of 3 a b] by simp

lemma store64_twice: "store64 (store64 m a v) a w = store64 m a w"
  by (rule ext) (simp add: store64_def write_bytes_def)

lemma store64_load64: "store64 m a (load64 m a) = m"
proof (rule ext)
  fix x
  show "store64 m a (load64 m a) x = m x"
  proof (cases "unat (x - a) < 8")
    case True
    let ?i = "unat (x - a)"
    have "ucast (drop_bit (8 * ?i) (load64 m a)) = m x"
    proof (rule bit_word_eqI)
      fix n assume n: "n < LENGTH(8)"
      then have "(8 * ?i + n) div 8 = ?i" "(8 * ?i + n) mod 8 = n" "8 * ?i + n < 64"
        using True by auto
      then show "bit (ucast (drop_bit (8 * ?i) (load64 m a)) :: u8) n = bit (m x) n"
        using n by (simp add: bit_simps bit_load64)
    qed
    with True show ?thesis by (simp add: store64_def write_bytes_def del: upt_rec_numeral)
  qed (simp add: store64_def write_bytes_def)
qed

end
