(* ===== verification/Pte_Bits.thy ===== *)
theory Pte_Bits
  imports Prelude
begin

text \<open>
  Page-table entries as the library sees them: the bit positions and bit-field structs of
  \<open>PTEditor/ptedit.h\<close>, the page-frame-number accessors and the memory-type accessors of
  \<open>PTEditor/ptedit.c\<close> that work on an entry or on the PAT/MAIR value alone.

  The preprocessor's choice between x86-64 and AArch64 is the parameter \<open>arch\<close>.
\<close>

datatype arch = X86_64 | AARCH64

subsection \<open>Bit positions (\<open>ptedit.h\<close>)\<close>

datatype page_bit =
    PTEDIT_PAGE_BIT_PRESENT | PTEDIT_PAGE_BIT_RW | PTEDIT_PAGE_BIT_USER
  | PTEDIT_PAGE_BIT_PWT | PTEDIT_PAGE_BIT_PCD | PTEDIT_PAGE_BIT_ACCESSED
  | PTEDIT_PAGE_BIT_DIRTY | PTEDIT_PAGE_BIT_PSE | PTEDIT_PAGE_BIT_PAT
  | PTEDIT_PAGE_BIT_GLOBAL | PTEDIT_PAGE_BIT_SOFTW1 | PTEDIT_PAGE_BIT_SOFTW2
  | PTEDIT_PAGE_BIT_SOFTW3 | PTEDIT_PAGE_BIT_PAT_LARGE | PTEDIT_PAGE_BIT_SOFTW4
  | PTEDIT_PAGE_BIT_PKEY_BIT0 | PTEDIT_PAGE_BIT_PKEY_BIT1 | PTEDIT_PAGE_BIT_PKEY_BIT2
  | PTEDIT_PAGE_BIT_PKEY_BIT3 | PTEDIT_PAGE_BIT_NX

primrec bit_pos :: "page_bit \<Rightarrow> nat" where
  "bit_pos PTEDIT_PAGE_BIT_PRESENT = 0"
| "bit_pos PTEDIT_PAGE_BIT_RW = 1"
| "bit_pos PTEDIT_PAGE_BIT_USER = 2"
| "bit_pos PTEDIT_PAGE_BIT_PWT = 3"
| "bit_pos PTEDIT_PAGE_BIT_PCD = 4"
| "bit_pos PTEDIT_PAGE_BIT_ACCESSED = 5"
| "bit_pos PTEDIT_PAGE_BIT_DIRTY = 6"
| "bit_pos PTEDIT_PAGE_BIT_PSE = 7"
| "bit_pos PTEDIT_PAGE_BIT_PAT = 7"
| "bit_pos PTEDIT_PAGE_BIT_GLOBAL = 8"
| "bit_pos PTEDIT_PAGE_BIT_SOFTW1 = 9"
| "bit_pos PTEDIT_PAGE_BIT_SOFTW2 = 10"
| "bit_pos PTEDIT_PAGE_BIT_SOFTW3 = 11"
| "bit_pos PTEDIT_PAGE_BIT_PAT_LARGE = 12"
| "bit_pos PTEDIT_PAGE_BIT_SOFTW4 = 58"
| "bit_pos PTEDIT_PAGE_BIT_PKEY_BIT0 = 59"
| "bit_pos PTEDIT_PAGE_BIT_PKEY_BIT1 = 60"
| "bit_pos PTEDIT_PAGE_BIT_PKEY_BIT2 = 61"
| "bit_pos PTEDIT_PAGE_BIT_PKEY_BIT3 = 62"
| "bit_pos PTEDIT_PAGE_BIT_NX = 63"

datatype arm_page_bit =
    ARM_PAGE_BIT_TYPE_BIT0 | ARM_PAGE_BIT_TYPE_BIT1
  | ARM_PAGE_BIT_MAIR_BIT0 | ARM_PAGE_BIT_MAIR_BIT1 | ARM_PAGE_BIT_MAIR_BIT2
  | ARM_PAGE_BIT_NON_SECURE | ARM_PAGE_BIT_PERMISSION_BIT0 | ARM_PAGE_BIT_PERMISSION_BIT1
  | ARM_PAGE_BIT_SHARE_BIT0 | ARM_PAGE_BIT_SHARE_BIT1 | ARM_PAGE_BIT_ACCESSED
  | ARM_PAGE_BIT_NOT_GLOBAL | ARM_PAGE_BIT_CONTIGUOUS | ARM_PAGE_BIT_PXN | ARM_PAGE_BIT_XN
  | ARM_PAGE_BIT_SOFTW1 | ARM_PAGE_BIT_SOFTW2 | ARM_PAGE_BIT_SOFTW3 | ARM_PAGE_BIT_SOFTW4
  | ARM_PAGE_BIT_SOFTW5 | ARM_PAGE_BIT_SOFTW6 | ARM_PAGE_BIT_SOFTW7 | ARM_PAGE_BIT_SOFTW8
  | ARM_PAGE_BIT_SOFTW9

primrec arm_bit_pos :: "arm_page_bit \<Rightarrow> nat" where
  "arm_bit_pos ARM_PAGE_BIT_TYPE_BIT0 = 0"
| "arm_bit_pos ARM_PAGE_BIT_TYPE_BIT1 = 1"
| "arm_bit_pos ARM_PAGE_BIT_MAIR_BIT0 = 2"
| "arm_bit_pos ARM_PAGE_BIT_MAIR_BIT1 = 3"
| "arm_bit_pos ARM_PAGE_BIT_MAIR_BIT2 = 4"
| "arm_bit_pos ARM_PAGE_BIT_NON_SECURE = 5"
| "arm_bit_pos ARM_PAGE_BIT_PERMISSION_BIT0 = 6"
| "arm_bit_pos ARM_PAGE_BIT_PERMISSION_BIT1 = 7"
| "arm_bit_pos ARM_PAGE_BIT_SHARE_BIT0 = 8"
| "arm_bit_pos ARM_PAGE_BIT_SHARE_BIT1 = 9"
| "arm_bit_pos ARM_PAGE_BIT_ACCESSED = 10"
| "arm_bit_pos ARM_PAGE_BIT_NOT_GLOBAL = 11"
| "arm_bit_pos ARM_PAGE_BIT_CONTIGUOUS = 52"
| "arm_bit_pos ARM_PAGE_BIT_PXN = 53"
| "arm_bit_pos ARM_PAGE_BIT_XN = 54"
| "arm_bit_pos ARM_PAGE_BIT_SOFTW1 = 55"
| "arm_bit_pos ARM_PAGE_BIT_SOFTW2 = 56"
| "arm_bit_pos ARM_PAGE_BIT_SOFTW3 = 57"
| "arm_bit_pos ARM_PAGE_BIT_SOFTW4 = 58"
| "arm_bit_pos ARM_PAGE_BIT_SOFTW5 = 59"
| "arm_bit_pos ARM_PAGE_BIT_SOFTW6 = 60"
| "arm_bit_pos ARM_PAGE_BIT_SOFTW7 = 61"
| "arm_bit_pos ARM_PAGE_BIT_SOFTW8 = 62"
| "arm_bit_pos ARM_PAGE_BIT_SOFTW9 = 63"

datatype memtype = PTEDIT_MT_UC | PTEDIT_MT_WC | PTEDIT_MT_WT | PTEDIT_MT_WP | PTEDIT_MT_WB
  | PTEDIT_MT_UCMINUS

text \<open>The memory-type constants; a constant the architecture's branch does not define is \<open>None\<close>.\<close>

fun memtype_val :: "arch \<Rightarrow> memtype \<Rightarrow> u8 option" where
  "memtype_val X86_64 PTEDIT_MT_UC = Some 0"
| "memtype_val X86_64 PTEDIT_MT_WC = Some 1"
| "memtype_val X86_64 PTEDIT_MT_WT = Some 4"
| "memtype_val X86_64 PTEDIT_MT_WP = Some 5"
| "memtype_val X86_64 PTEDIT_MT_WB = Some 6"
| "memtype_val X86_64 PTEDIT_MT_UCMINUS = Some 7"
| "memtype_val AARCH64 PTEDIT_MT_UC = Some 0x44"
| "memtype_val AARCH64 PTEDIT_MT_WT = Some 0xbb"
| "memtype_val AARCH64 PTEDIT_MT_WB = Some 0xff"
| "memtype_val AARCH64 _ = None"

subsection \<open>Bit-field structs and \<open>ptedit_cast\<close>\<close>

text \<open>
  A packed struct of bit fields over a \<open>size_t\<close> is a record with one field per bit field;
  the cast cuts the fields out of the 64-bit value in declaration order, low bits first.
\<close>

record ptedit_pgd_t =
  pgd_present :: u64
  pgd_writeable :: u64
  pgd_user_access :: u64
  pgd_write_through :: u64
  pgd_cache_disabled :: u64
  pgd_accessed :: u64
  pgd_ignored_3 :: u64
  pgd_size :: u64
  pgd_ignored_2 :: u64
  pgd_pfn :: u64
  pgd_reserved_1 :: u64
  pgd_ignored_1 :: u64
  pgd_execution_disabled :: u64

definition cast_pgd :: "u64 \<Rightarrow> ptedit_pgd_t" where
  "cast_pgd v = \<lparr>
     pgd_present = field 0 1 v, pgd_writeable = field 1 1 v, pgd_user_access = field 2 1 v,
     pgd_write_through = field 3 1 v, pgd_cache_disabled = field 4 1 v,
     pgd_accessed = field 5 1 v, pgd_ignored_3 = field 6 1 v, pgd_size = field 7 1 v,
     pgd_ignored_2 = field 8 4 v, pgd_pfn = field 12 28 v, pgd_reserved_1 = field 40 12 v,
     pgd_ignored_1 = field 52 11 v, pgd_execution_disabled = field 63 1 v\<rparr>"

record ptedit_pmd_large_t =
  pml_present :: u64
  pml_writeable :: u64
  pml_user_access :: u64
  pml_write_through :: u64
  pml_cache_disabled :: u64
  pml_accessed :: u64
  pml_dirty :: u64
  pml_size :: u64
  pml_global :: u64
  pml_ignored_2 :: u64
  pml_pat :: u64
  pml_reserved_2 :: u64
  pml_pfn :: u64
  pml_reserved_1 :: u64
  pml_ignored_1 :: u64
  pml_execution_disabled :: u64

definition cast_pmd_large :: "u64 \<Rightarrow> ptedit_pmd_large_t" where
  "cast_pmd_large v = \<lparr>
     pml_present = field 0 1 v, pml_writeable = field 1 1 v, pml_user_access = field 2 1 v,
     pml_write_through = field 3 1 v, pml_cache_disabled = field 4 1 v,
     pml_accessed = field 5 1 v, pml_dirty = field 6 1 v, pml_size = field 7 1 v,
     pml_global = field 8 1 v, pml_ignored_2 = field 9 3 v, pml_pat = field 12 1 v,
     pml_reserved_2 = field 13 8 v, pml_pfn = field 21 19 v, pml_reserved_1 = field 40 12 v,
     pml_ignored_1 = field 52 11 v, pml_execution_disabled = field 63 1 v\<rparr>"

record ptedit_pte_t =
  pte_present :: u64
  pte_writeable :: u64
  pte_user_access :: u64
  pte_write_through :: u64
  pte_cache_disabled :: u64
  pte_accessed :: u64
  pte_dirty :: u64
  pte_size :: u64
  pte_global :: u64
  pte_ignored_2 :: u64
  pte_pfn :: u64
  pte_reserved_1 :: u64
  pte_ignored_1 :: u64
  pte_execution_disabled :: u64

definition cast_pte :: "u64 \<Rightarrow> ptedit_pte_t" where
  "cast_pte v = \<lparr>
     pte_present = field 0 1 v, pte_writeable = field 1 1 v, pte_user_access = field 2 1 v,
     pte_write_through = field 3 1 v, pte_cache_disabled = field 4 1 v,
     pte_accessed = field 5 1 v, pte_dirty = field 6 1 v, pte_size = field 7 1 v,
     pte_global = field 8 1 v, pte_ignored_2 = field 9 3 v, pte_pfn = field 12 28 v,
     pte_reserved_1 = field 40 12 v, pte_ignored_1 = field 52 11 v,
     pte_execution_disabled = field 63 1 v\<rparr>"

record arm_pgd_t =
  apgd_present :: u64
  apgd_ignored_1 :: u64
  apgd_pfn :: u64
  apgd_reserved :: u64
  apgd_ignored_2 :: u64
  apgd_pxn_table :: u64
  apgd_xn_table :: u64
  apgd_ap_table :: u64
  apgd_ns_table :: u64

definition cast_arm_pgd :: "u64 \<Rightarrow> arm_pgd_t" where
  "cast_arm_pgd v = \<lparr>
     apgd_present = field 0 2 v, apgd_ignored_1 = field 2 10 v, apgd_pfn = field 12 36 v,
     apgd_reserved = field 48 4 v, apgd_ignored_2 = field 52 7 v,
     apgd_pxn_table = field 59 1 v, apgd_xn_table = field 60 1 v,
     apgd_ap_table = field 61 2 v, apgd_ns_table = field 63 1 v\<rparr>"

record arm_pte_t =
  apte_present :: u64
  apte_memory_attributes_index :: u64
  apte_non_secure :: u64
  apte_access_permissions :: u64
  apte_shareability_field :: u64
  apte_access_flag :: u64
  apte_not_global :: u64
  apte_pfn :: u64
  apte_reserved_1 :: u64
  apte_contiguous :: u64
  apte_privileged_execute_never :: u64
  apte_execute_never :: u64
  apte_ingored_1 :: u64
  apte_ignored_2 :: u64

definition cast_arm_pte :: "u64 \<Rightarrow> arm_pte_t" where
  "cast_arm_pte v = \<lparr>
     apte_present = field 0 2 v, apte_memory_attributes_index = field 2 3 v,
     apte_non_secure = field 5 1 v, apte_access_permissions = field 6 2 v,
     apte_shareability_field = field 8 2 v, apte_access_flag = field 10 1 v,
     apte_not_global = field 11 1 v, apte_pfn = field 12 36 v, apte_reserved_1 = field 48 4 v,
     apte_contiguous = field 52 1 v, apte_privileged_execute_never = field 53 1 v,
     apte_execute_never = field 54 1 v, apte_ingored_1 = field 55 4 v,
     apte_ignored_2 = field 59 5 v\<rparr>"

text \<open>What the page walk uses of the casts: \<open>ptedit_pgd_t\<close>, \<open>ptedit_p4d_t\<close>, \<open>ptedit_pud_t\<close> and
  \<open>ptedit_pmd_t\<close> are one type, and \<open>ptedit_pte_t\<close> has its \<open>present\<close> field at the same place.\<close>

definition PTEDIT_PAGE_PRESENT :: "arch \<Rightarrow> u64" where
  "PTEDIT_PAGE_PRESENT A = (case A of X86_64 \<Rightarrow> 1 | AARCH64 \<Rightarrow> 3)"

definition table_present :: "arch \<Rightarrow> u64 \<Rightarrow> u64" where
  "table_present A e =
     (case A of X86_64 \<Rightarrow> pgd_present (cast_pgd e) | AARCH64 \<Rightarrow> apgd_present (cast_arm_pgd e))"

definition table_pfn :: "arch \<Rightarrow> u64 \<Rightarrow> u64" where
  "table_pfn A e =
     (case A of X86_64 \<Rightarrow> pgd_pfn (cast_pgd e) | AARCH64 \<Rightarrow> apgd_pfn (cast_arm_pgd e))"

definition table_size_bit :: "u64 \<Rightarrow> u64" where
  "table_size_bit e = pgd_size (cast_pgd e)"

definition page_present :: "arch \<Rightarrow> u64 \<Rightarrow> u64" where
  "page_present A e =
     (case A of X86_64 \<Rightarrow> pte_present (cast_pte e) | AARCH64 \<Rightarrow> apte_present (cast_arm_pte e))"

text \<open>
  Writing the fields of such a struct back to a \<open>size_t\<close>: each field takes the declared number
  of bits above the fields before it.
\<close>

fun pack_fields :: "(nat \<times> u64) list \<Rightarrow> u64" where
  "pack_fields [] = 0"
| "pack_fields ((len, x) # fs) = take_bit len x OR push_bit len (pack_fields fs)"

definition pack_pgd :: "ptedit_pgd_t \<Rightarrow> u64" where
  "pack_pgd p = pack_fields
     [(1, pgd_present p), (1, pgd_writeable p), (1, pgd_user_access p), (1, pgd_write_through p),
      (1, pgd_cache_disabled p), (1, pgd_accessed p), (1, pgd_ignored_3 p), (1, pgd_size p),
      (4, pgd_ignored_2 p), (28, pgd_pfn p), (12, pgd_reserved_1 p), (11, pgd_ignored_1 p),
      (1, pgd_execution_disabled p)]"

definition pack_pmd_large :: "ptedit_pmd_large_t \<Rightarrow> u64" where
  "pack_pmd_large p = pack_fields
     [(1, pml_present p), (1, pml_writeable p), (1, pml_user_access p), (1, pml_write_through p),
      (1, pml_cache_disabled p), (1, pml_accessed p), (1, pml_dirty p), (1, pml_size p),
      (1, pml_global p), (3, pml_ignored_2 p), (1, pml_pat p), (8, pml_reserved_2 p),
      (19, pml_pfn p), (12, pml_reserved_1 p), (11, pml_ignored_1 p),
      (1, pml_execution_disabled p)]"

definition pack_pte :: "ptedit_pte_t \<Rightarrow> u64" where
  "pack_pte p = pack_fields
     [(1, pte_present p), (1, pte_writeable p), (1, pte_user_access p), (1, pte_write_through p),
      (1, pte_cache_disabled p), (1, pte_accessed p), (1, pte_dirty p), (1, pte_size p),
      (1, pte_global p), (3, pte_ignored_2 p), (28, pte_pfn p), (12, pte_reserved_1 p),
      (11, pte_ignored_1 p), (1, pte_execution_disabled p)]"

definition pack_arm_pgd :: "arm_pgd_t \<Rightarrow> u64" where
  "pack_arm_pgd p = pack_fields
     [(2, apgd_present p), (10, apgd_ignored_1 p), (36, apgd_pfn p), (4, apgd_reserved p),
      (7, apgd_ignored_2 p), (1, apgd_pxn_table p), (1, apgd_xn_table p), (2, apgd_ap_table p),
      (1, apgd_ns_table p)]"

definition pack_arm_pte :: "arm_pte_t \<Rightarrow> u64" where
  "pack_arm_pte p = pack_fields
     [(2, apte_present p), (3, apte_memory_attributes_index p), (1, apte_non_secure p),
      (2, apte_access_permissions p), (2, apte_shareability_field p), (1, apte_access_flag p),
      (1, apte_not_global p), (36, apte_pfn p), (4, apte_reserved_1 p), (1, apte_contiguous p),
      (1, apte_privileged_execute_never p), (1, apte_execute_never p), (4, apte_ingored_1 p),
      (5, apte_ignored_2 p)]"

lemmas cast_defs = cast_pgd_def cast_pmd_large_def cast_pte_def cast_arm_pgd_def cast_arm_pte_def
lemmas table_defs = table_present_def table_pfn_def table_size_bit_def page_present_def
  PTEDIT_PAGE_PRESENT_def

subsection \<open>Page-frame numbers (\<open>ptedit.c\<close>)\<close>

text \<open>The width of the PFN mask: 40 bits on x86-64, 36 on AArch64, from bit 12.\<close>

definition pfn_bits :: "arch \<Rightarrow> nat" where
  "pfn_bits A = (case A of X86_64 \<Rightarrow> 40 | AARCH64 \<Rightarrow> 36)"

definition pfn_mask :: "arch \<Rightarrow> u64" where
  "pfn_mask A = push_bit 12 (push_bit (pfn_bits A) 1 - 1)"

definition ptedit_set_pfn :: "arch \<Rightarrow> u64 \<Rightarrow> u64 \<Rightarrow> u64" where
  "ptedit_set_pfn A pte pfn = (pte AND NOT (pfn_mask A)) OR push_bit 12 pfn"

definition ptedit_get_pfn :: "arch \<Rightarrow> u64 \<Rightarrow> u64" where
  "ptedit_get_pfn A pte = drop_bit 12 (pte AND pfn_mask A)"

text \<open>\<open>ptedit_pte_entry_set_bit\<close> is the one function of the single-header build that
  \<open>ptedit.c\<close> does not have; the page-fault handler uses it.\<close>

definition ptedit_pte_entry_set_bit :: "u64 \<Rightarrow> nat \<Rightarrow> u64" where
  "ptedit_pte_entry_set_bit pte b = pte OR push_bit b 1"

subsection \<open>Memory types (\<open>ptedit.c\<close>)\<close>

definition ptedit_apply_mt :: "arch \<Rightarrow> u64 \<Rightarrow> u8 \<Rightarrow> u64" where
  "ptedit_apply_mt A entry mt =
     (case A of
        X86_64 \<Rightarrow>
          (let e0 = entry AND NOT (push_bit (bit_pos PTEDIT_PAGE_BIT_PWT) 1
                                   OR push_bit (bit_pos PTEDIT_PAGE_BIT_PCD) 1
                                   OR push_bit (bit_pos PTEDIT_PAGE_BIT_PAT) 1);
               e1 = if mt AND 1 \<noteq> 0 then e0 OR push_bit (bit_pos PTEDIT_PAGE_BIT_PWT) 1 else e0;
               e2 = if mt AND 2 \<noteq> 0 then e1 OR push_bit (bit_pos PTEDIT_PAGE_BIT_PCD) 1 else e1
           in if mt AND 4 \<noteq> 0 then e2 OR push_bit (bit_pos PTEDIT_PAGE_BIT_PAT) 1 else e2)
      | AARCH64 \<Rightarrow> (entry AND NOT 0x1c) OR push_bit 2 (ucast (mt AND 7)))"

definition ptedit_apply_mt_huge :: "arch \<Rightarrow> u64 \<Rightarrow> u8 \<Rightarrow> u64" where
  "ptedit_apply_mt_huge A entry mt =
     (case A of
        X86_64 \<Rightarrow>
          (let e0 = entry AND NOT (push_bit (bit_pos PTEDIT_PAGE_BIT_PWT) 1
                                   OR push_bit (bit_pos PTEDIT_PAGE_BIT_PCD) 1
                                   OR push_bit (bit_pos PTEDIT_PAGE_BIT_PAT_LARGE) 1);
               e1 = if mt AND 1 \<noteq> 0 then e0 OR push_bit (bit_pos PTEDIT_PAGE_BIT_PWT) 1 else e0;
               e2 = if mt AND 2 \<noteq> 0 then e1 OR push_bit (bit_pos PTEDIT_PAGE_BIT_PCD) 1 else e1
           in if mt AND 4 \<noteq> 0 then e2 OR push_bit (bit_pos PTEDIT_PAGE_BIT_PAT_LARGE) 1 else e2)
      | AARCH64 \<Rightarrow> (entry AND NOT 0x1c) OR push_bit 2 (ucast (mt AND 7)))"

text \<open>\<open>!!(entry & (1ull << bit))\<close>\<close>

definition bit_flag :: "u64 \<Rightarrow> nat \<Rightarrow> u8" where
  "bit_flag entry b = (if entry AND push_bit b 1 \<noteq> 0 then 1 else 0)"

definition ptedit_extract_mt :: "arch \<Rightarrow> u64 \<Rightarrow> u8" where
  "ptedit_extract_mt A entry =
     (case A of
        X86_64 \<Rightarrow> bit_flag entry (bit_pos PTEDIT_PAGE_BIT_PWT)
                   OR push_bit 1 (bit_flag entry (bit_pos PTEDIT_PAGE_BIT_PCD))
                   OR push_bit 2 (bit_flag entry (bit_pos PTEDIT_PAGE_BIT_PAT))
      | AARCH64 \<Rightarrow> ucast (drop_bit 2 entry AND 7))"

definition ptedit_extract_mt_huge :: "arch \<Rightarrow> u64 \<Rightarrow> u8" where
  "ptedit_extract_mt_huge A entry =
     (case A of
        X86_64 \<Rightarrow> bit_flag entry (bit_pos PTEDIT_PAGE_BIT_PWT)
                   OR push_bit 1 (bit_flag entry (bit_pos PTEDIT_PAGE_BIT_PCD))
                   OR push_bit 2 (bit_flag entry (bit_pos PTEDIT_PAGE_BIT_PAT_LARGE))
      | AARCH64 \<Rightarrow> ucast (drop_bit 2 entry AND 7))"

text \<open>
  Selecting and replacing one memory type in the PAT/MAIR value. The mask of
  \<open>ptedit_set_mt\<close> is \<open>7 << (mt * 8)\<close> (\<open>0xff << (mt * 8)\<close> on AArch64), a shift of an \<open>int\<close>:
  C leaves it undefined when the count reaches 32 or the result does not fit, which is
  \<open>None\<close> here. The complement is converted to \<open>size_t\<close> with its sign.
\<close>

definition int_shl :: "int \<Rightarrow> nat \<Rightarrow> u32 option" where
  "int_shl c n = (if n < 32 \<and> push_bit n c < 2 ^ 31 then Some (word_of_int (push_bit n c)) else None)"

definition mt_of_mts :: "arch \<Rightarrow> u64 \<Rightarrow> u8 \<Rightarrow> u8" where
  "mt_of_mts A mts mt =
     (case A of X86_64 \<Rightarrow> ucast (drop_bit (unat mt * 8) mts AND 7)
              | AARCH64 \<Rightarrow> ucast (drop_bit (unat mt * 8) mts AND 0xff))"

definition mts_with_mt :: "arch \<Rightarrow> u64 \<Rightarrow> u8 \<Rightarrow> u8 \<Rightarrow> u64 option" where
  "mts_with_mt A mts mt val =
     (case int_shl (case A of X86_64 \<Rightarrow> 7 | AARCH64 \<Rightarrow> 0xff) (unat mt * 8) of
        None \<Rightarrow> None
      | Some clr \<Rightarrow>
          Some ((mts AND int_to_size (NOT clr)) OR push_bit (unat mt * 8) (ucast val)))"

text \<open>The test of one iteration of the loop of \<open>ptedit_find_mt\<close> (index \<open>i\<close>), and the loop.\<close>

definition mt_matches :: "arch \<Rightarrow> u64 \<Rightarrow> u8 \<Rightarrow> nat \<Rightarrow> bool" where
  "mt_matches A mts type i =
     (case A of
        X86_64 \<Rightarrow> (drop_bit (i * 8) mts AND 7) = ucast type
      | AARCH64 \<Rightarrow>
          (drop_bit (i * 8) mts AND 0xff) = ucast type \<or>
          (let plow = (ucast (drop_bit (i * 8) mts AND 0xf) :: u8);
               phigh = (ucast (drop_bit 4 (drop_bit (i * 8) mts) AND 0xf) :: u8)
           in plow = phigh \<and> plow = type))"

definition find_mt_in :: "arch \<Rightarrow> u64 \<Rightarrow> u8 \<Rightarrow> u8" where
  "find_mt_in A mts type =
     fold (\<lambda>i found. if mt_matches A mts type i then found OR push_bit i 1 else found)
       [0..<8] 0"

text \<open>\<open>__builtin_ffs\<close>: one plus the index of the least significant set bit, \<open>0\<close> for \<open>0\<close>.\<close>

definition builtin_ffs :: "u8 \<Rightarrow> int" where
  "builtin_ffs x = (case find (\<lambda>i. bit x i) [0..<8] of None \<Rightarrow> 0 | Some i \<Rightarrow> int i + 1)"

definition find_first_mt_in :: "arch \<Rightarrow> u64 \<Rightarrow> u8 \<Rightarrow> int" where
  "find_first_mt_in A mts type = builtin_ffs (find_mt_in A mts type) - 1"

text \<open>\<open>ptedit_mt_to_string\<close>; \<open>NULL\<close> is \<open>None\<close>. On AArch64 the static buffer is built by
  \<open>strcat\<close> in two rounds and cleared in each round when both nibbles agree.\<close>

definition arm_attr_name :: "u8 \<Rightarrow> string" where
  "arm_attr_name n =
     (if n = 0 then ''DM''
      else if n = 1 \<or> n = 2 \<or> n = 3 then ''WT''
      else if n = 4 then ''UC''
      else if n = 5 \<or> n = 6 \<or> n = 7 then ''WB''
      else if n = 8 \<or> n = 9 \<or> n = 10 \<or> n = 11 then ''WT''
      else ''WB'')"

definition arm_mt_round :: "u8 \<Rightarrow> nat \<Rightarrow> string \<Rightarrow> string" where
  "arm_mt_round mt i mts =
     (let s = mts @ (if i = 0 then ''I'' else ''O'');
          s' = (if mt AND 0xf = drop_bit 4 mt AND 0xf then [] else s)
      in s' @ arm_attr_name (drop_bit (i * 4) mt AND 0xf))"

definition ptedit_mt_to_string :: "arch \<Rightarrow> u8 \<Rightarrow> string option" where
  "ptedit_mt_to_string A mt =
     (case A of
        X86_64 \<Rightarrow>
          (if mt \<le> 7
           then Some ([''UC'', ''WC'', ''Rsvd'', ''Rsvd'', ''WT'', ''WP'', ''WB'', ''UC-'', ''Rsvd'']
                      ! unat mt)
           else None)
      | AARCH64 \<Rightarrow> Some (fold (arm_mt_round mt) [0, 1] []))"

subsection \<open>Bits of the results\<close>

lemma bit_pfn_mask [bit_fields]:
  "bit (pfn_mask A) n \<longleftrightarrow> 12 \<le> n \<and> n < 12 + pfn_bits A"
proof -
  have "pfn_mask A = push_bit 12 (mask (pfn_bits A))"
    by (simp add: pfn_mask_def mask_eq_exp_minus_1 push_bit_eq_mult)
  moreover have "12 + pfn_bits A \<le> 52"
    by (cases A) (simp_all add: pfn_bits_def)
  ultimately show ?thesis
    by (auto simp: bit_mask_field)
qed

lemma pfn_bits_le: "pfn_bits A \<le> 40"
  by (cases A) (simp_all add: pfn_bits_def)

lemma bit_set_pfn [bit_fields]:
  "bit (ptedit_set_pfn A e p) n \<longleftrightarrow>
     (bit e n \<and> \<not> (12 \<le> n \<and> n < 12 + pfn_bits A)) \<or> (12 \<le> n \<and> n < 64 \<and> bit p (n - 12))"
  by (auto simp: ptedit_set_pfn_def bit_simps bit_pfn_mask dest: bit_u64_bound)

lemma bit_get_pfn [bit_fields]:
  "bit (ptedit_get_pfn A e) n \<longleftrightarrow> n < pfn_bits A \<and> bit e (n + 12)"
  by (auto simp: ptedit_get_pfn_def bit_simps bit_pfn_mask add.commute)

lemma bit_entry_set_bit [bit_fields]:
  "bit (ptedit_pte_entry_set_bit e b) n \<longleftrightarrow> bit e n \<or> (n = b \<and> b < 64)"
  by (auto simp: ptedit_pte_entry_set_bit_def bit_or_iff bit_push_bit_one)

lemma ptedit_get_pfn_field: "ptedit_get_pfn A e = field 12 (pfn_bits A) e"
  by (rule bit_word_eqI) (auto simp: bit_fields add.commute)


lemma get_pfn_set_pfn: "unat p < 2 ^ pfn_bits A \<Longrightarrow> ptedit_get_pfn A (ptedit_set_pfn A e p) = p"
proof (rule bit_word_eqI)
  fix n assume "unat p < 2 ^ pfn_bits A"
  then show "bit (ptedit_get_pfn A (ptedit_set_pfn A e p)) n = bit p n"
    using pfn_bits_le [of A] by (auto simp: bit_fields dest: small_bits)
qed

lemma set_pfn_keeps: 
  "unat p < 2 ^ pfn_bits A \<Longrightarrow> n < 12 \<or> 12 + pfn_bits A \<le> n \<Longrightarrow>
   bit (ptedit_set_pfn A e p) n = bit e n"
  by (auto simp: bit_fields dest: small_bits)

lemma set_pfn_set_pfn: 
  "unat p < 2 ^ pfn_bits A \<Longrightarrow> ptedit_set_pfn A (ptedit_set_pfn A e p) q = ptedit_set_pfn A e q"
  by (rule bit_word_eqI) (auto simp: bit_fields dest: small_bits)

lemma set_pfn_get_pfn: "ptedit_set_pfn A e (ptedit_get_pfn A e) = e"
  by (rule bit_word_eqI) (auto simp: bit_fields)

lemma set_pfn_entry_set_bit:
  "b < 12 \<Longrightarrow> ptedit_get_pfn A (ptedit_pte_entry_set_bit e b) = ptedit_get_pfn A e"
  by (rule bit_word_eqI) (auto simp: bit_fields)

lemma pte_pfn_get_pfn: "pte_pfn (cast_pte e) = take_bit 28 (ptedit_get_pfn X86_64 e)"
  by (rule bit_word_eqI) (auto simp: cast_pte_def bit_fields bit_simps pfn_bits_def add.commute)

lemma bit_flag_iff: "b < 64 \<Longrightarrow> bit_flag e b = (if bit e b then 1 else 0)"
  by (simp add: bit_flag_def and_push_bit_one_iff)


lemma bit_u8_shift:
  fixes m :: u8
  shows "m AND 1 = 0 \<longleftrightarrow> \<not> bit m 0" "m AND 2 = 0 \<longleftrightarrow> \<not> bit m 1" "m AND 4 = 0 \<longleftrightarrow> \<not> bit m 2"
  using and_exp_eq_0_iff_not_bit [of m 0] and_exp_eq_0_iff_not_bit [of m 1]
    and_exp_eq_0_iff_not_bit [of m 2] by simp_all

lemma bit_pos_less: "bit_pos b < 64"
  by (cases b) simp_all

lemma bit_apply_mt [bit_fields]:
  "bit (ptedit_apply_mt X86_64 e mt) n \<longleftrightarrow>
     (if n = bit_pos PTEDIT_PAGE_BIT_PWT then bit mt 0
      else if n = bit_pos PTEDIT_PAGE_BIT_PCD then bit mt 1
      else if n = bit_pos PTEDIT_PAGE_BIT_PAT then bit mt 2 else bit e n)"
proof -
  have "bit_pos PTEDIT_PAGE_BIT_PWT \<noteq> bit_pos PTEDIT_PAGE_BIT_PCD"
    "bit_pos PTEDIT_PAGE_BIT_PWT \<noteq> bit_pos PTEDIT_PAGE_BIT_PAT"
    "bit_pos PTEDIT_PAGE_BIT_PCD \<noteq> bit_pos PTEDIT_PAGE_BIT_PAT" by simp_all
  then show ?thesis
    by (auto simp: ptedit_apply_mt_def Let_def bit_fields bit_u8_shift bit_and_iff bit_or_iff bit_not_iff
       bit_pos_less simp del: bit_pos.simps dest: bit_u64_bound)
qed
lemma bit_apply_mt_huge [bit_fields]:
  "bit (ptedit_apply_mt_huge X86_64 e mt) n \<longleftrightarrow>
     (if n = bit_pos PTEDIT_PAGE_BIT_PWT then bit mt 0
      else if n = bit_pos PTEDIT_PAGE_BIT_PCD then bit mt 1
      else if n = bit_pos PTEDIT_PAGE_BIT_PAT_LARGE then bit mt 2 else bit e n)"
proof -
  have "bit_pos PTEDIT_PAGE_BIT_PWT \<noteq> bit_pos PTEDIT_PAGE_BIT_PCD"
    "bit_pos PTEDIT_PAGE_BIT_PWT \<noteq> bit_pos PTEDIT_PAGE_BIT_PAT_LARGE"
    "bit_pos PTEDIT_PAGE_BIT_PCD \<noteq> bit_pos PTEDIT_PAGE_BIT_PAT_LARGE" by simp_all
  then show ?thesis
    by (auto simp: ptedit_apply_mt_huge_def Let_def bit_fields bit_u8_shift bit_and_iff bit_or_iff bit_not_iff
       bit_pos_less simp del: bit_pos.simps dest: bit_u64_bound)
qed

lemma three_bits_u8:
  fixes m :: u8
  shows "(if bit m 0 then 1 else 0) OR push_bit 1 (if bit m 1 then 1 else 0)
    OR push_bit 2 (if bit m 2 then 1 else 0) = take_bit 3 m"
  by (rule bit_word_eqI) (auto simp: bit_simps less_Suc_eq numeral_eq_Suc)

lemma mask3_numerals: "(7::u8) = mask 3" "(7::u64) = mask 3" "(0x1c::u64) = push_bit 2 (mask 3)"
  by (simp_all add: mask_eq_exp_minus_1)

lemma bit_apply_mt_arm [bit_fields]:
  "bit (ptedit_apply_mt AARCH64 e mt) n \<longleftrightarrow> (if 2 \<le> n \<and> n < 5 then bit mt (n - 2) else bit e n)"
  unfolding ptedit_apply_mt_def mask3_numerals
  by (auto simp: bit_and_iff bit_or_iff bit_not_iff bit_push_bit_iff bit_mask_iff
      bit_unsigned_iff dest: bit_u64_bound)

lemma extract_mt_arm: "ptedit_extract_mt AARCH64 e = ucast (field 2 3 e)"
  unfolding ptedit_extract_mt_def mask3_numerals
  by (simp add: field_def take_bit_eq_mask)

lemma extract_apply_mt: "ptedit_extract_mt A (ptedit_apply_mt A e mt) = take_bit 3 mt"
proof (cases A)
  case X86_64
  then show ?thesis
    using three_bits_u8 [of mt] by (simp add: ptedit_extract_mt_def bit_flag_iff bit_fields)
next
  case AARCH64
  then show ?thesis
    by (auto intro!: bit_word_eqI simp: extract_mt_arm bit_fields bit_simps)
qed

lemma extract_apply_mt_huge:
  "ptedit_extract_mt_huge A (ptedit_apply_mt_huge A e mt) = take_bit 3 mt"
proof (cases A)
  case X86_64
  then show ?thesis
    using three_bits_u8 [of mt] by (simp add: ptedit_extract_mt_huge_def bit_flag_iff bit_fields)
next
  case AARCH64
  then have "ptedit_extract_mt_huge A (ptedit_apply_mt_huge A e mt) =
      ptedit_extract_mt A (ptedit_apply_mt A e mt)"
    by (simp add: ptedit_extract_mt_huge_def ptedit_apply_mt_huge_def ptedit_extract_mt_def
        ptedit_apply_mt_def)
  then show ?thesis by (simp add: extract_apply_mt)
qed

lemma apply_extract_mt: "ptedit_apply_mt A (ptedit_apply_mt A e mt) (ptedit_extract_mt A e) = e"
proof (cases A)
  case X86_64
  have "bit (ptedit_extract_mt X86_64 e) 0 = bit e 3"
    "bit (ptedit_extract_mt X86_64 e) 1 = bit e 4" "bit (ptedit_extract_mt X86_64 e) 2 = bit e 7"
    by (simp_all add: ptedit_extract_mt_def bit_flag_iff bit_simps)
  then show ?thesis
    using X86_64 by (auto intro!: bit_word_eqI simp: bit_fields split: if_splits)
next
  case AARCH64
  have "bit (ucast (field 2 3 e) :: u8) (n - 2) = bit e n" if "2 \<le> n" "n < 5" for n
  proof -
    from that have "2 + (n - 2) = n" "n - 2 < 3" "n - 2 < 8" by arith+
    then show ?thesis by (simp add: bit_unsigned_iff bit_field del: add_2_eq_Suc)
  qed
  then show ?thesis
    using AARCH64
    by (auto intro!: bit_word_eqI simp: bit_apply_mt_arm extract_mt_arm split: if_splits)
qed

lemma apply_extract_mt_huge:
  "ptedit_apply_mt_huge A (ptedit_apply_mt_huge A e mt) (ptedit_extract_mt_huge A e) = e"
proof (cases A)
  case X86_64
  have "bit (ptedit_extract_mt_huge X86_64 e) 0 = bit e 3"
    "bit (ptedit_extract_mt_huge X86_64 e) 1 = bit e 4"
    "bit (ptedit_extract_mt_huge X86_64 e) 2 = bit e 12"
    by (simp_all add: ptedit_extract_mt_huge_def bit_flag_iff bit_simps)
  then show ?thesis
    using X86_64 by (auto intro!: bit_word_eqI simp: bit_fields split: if_splits)
next
  case AARCH64
  then have "ptedit_apply_mt_huge A = ptedit_apply_mt A" "ptedit_extract_mt_huge A = ptedit_extract_mt A"
    by (simp_all add: fun_eq_iff ptedit_extract_mt_huge_def ptedit_apply_mt_huge_def
        ptedit_extract_mt_def ptedit_apply_mt_def)
  then show ?thesis by (simp add: apply_extract_mt)
qed

lemma bit_find_mt_in:
  "bit (find_mt_in A mts type) i \<longleftrightarrow> i < 8 \<and> mt_matches A mts type i"
proof -
  have *: "bit (fold (\<lambda>i found. if mt_matches A mts type i then found OR push_bit i 1 else found)
      xs acc) i \<longleftrightarrow> bit acc i \<or> (i \<in> set xs \<and> mt_matches A mts type i)"
    if "\<And>x. x \<in> set xs \<Longrightarrow> x < 8" "i < 8" for xs and acc :: u8
    using that by (induction xs arbitrary: acc) (auto simp: bit_simps)
  show ?thesis
  proof (cases "i < 8")
    case True
    then show ?thesis
      unfolding find_mt_in_def by (subst *) auto
  next
    case False
    then show ?thesis
      using bit_imp_le_length [of "find_mt_in A mts type" i] by auto
  qed
qed

lemma builtin_ffs_eq:
  "builtin_ffs x - 1 = (if x = 0 then -1 else int (LEAST i. bit x i))"
proof (cases "find (\<lambda>i. bit x i) [0..<8]")
  case None
  then have "\<not> bit x i" if "i < 8" for i
    using that by (auto simp: find_None_iff)
  then have "x = 0" by (auto intro!: bit_word_eqI)
  then show ?thesis using None by (simp add: builtin_ffs_def)
next
  case (Some k)
  then have k: "k < 8" "bit x k" "\<And>j. j < k \<Longrightarrow> \<not> bit x j"
    by (auto simp: find_Some_iff)
  then have "(LEAST i. bit x i) = k"
    by (intro Least_equality) (auto simp: not_less [symmetric])
  moreover have "x \<noteq> 0" using k(2) by auto
  ultimately show ?thesis using Some by (simp add: builtin_ffs_def)
qed

lemma int_shl_mt_mask: "k < 4 \<Longrightarrow> int_shl 7 (k * 8) = Some (push_bit (k * 8) (mask 3))"
  by (cases k rule: nat.exhaust) (auto simp: int_shl_def mask_eq_exp_minus_1 less_Suc_eq numeral_eq_Suc)

lemma bit_not_mt_mask:
  assumes "k \<le> 24"
  shows "bit (int_to_size (NOT (push_bit k (mask 3 :: u32)))) n \<longleftrightarrow>
    n < 64 \<and> \<not> (k \<le> n \<and> n < k + 3)"
proof (cases "n < 31")
  case True
  then show ?thesis by (auto simp: int_to_size_def bit_simps)
next
  case False
  then show ?thesis using assms by (auto simp: int_to_size_def bit_simps)
qed

lemma bit_mts_with_mt:
  assumes "unat mt < 4" "mts_with_mt X86_64 mts mt val = Some r"
  shows "bit r n \<longleftrightarrow> (bit mts n \<and> \<not> (unat mt * 8 \<le> n \<and> n < unat mt * 8 + 3)) \<or>
       (unat mt * 8 \<le> n \<and> bit val (n - unat mt * 8))"
proof -
  define k where "k = unat mt * 8"
  have k: "k \<le> 24" using assms(1) by (simp add: k_def)
  have r: "r = (mts AND int_to_size (NOT (push_bit k (mask 3)))) OR push_bit k (ucast val)"
    using assms int_shl_mt_mask [OF assms(1)] by (simp add: mts_with_mt_def k_def)
  have "n - k < 8 \<Longrightarrow> k \<le> n \<Longrightarrow> n < 64" using k by simp
  moreover have "bit val (n - k) \<Longrightarrow> n - k < 8"
    using bit_imp_le_length [of val "n - k"] by simp
  ultimately show ?thesis
    unfolding k_def [symmetric] r bit_or_iff bit_and_iff bit_not_mt_mask [OF k]
    by (auto simp: bit_push_bit_iff bit_unsigned_iff dest: bit_u64_bound)
qed

lemma mts_with_mt_defined: "mts_with_mt X86_64 mts mt val \<noteq> None \<longleftrightarrow> unat mt < 4"
proof (cases "unat mt < 4")
  case True
  then show ?thesis by (simp add: mts_with_mt_def int_shl_mt_mask)
next
  case False
  then show ?thesis by (simp add: mts_with_mt_def int_shl_def)
qed


lemma mt_of_mts_field: "mt_of_mts X86_64 mts i = ucast (field (unat i * 8) 3 mts)"
  unfolding mt_of_mts_def mask3_numerals by (simp add: field_def take_bit_eq_mask)

lemma mts_with_mt_get:
  assumes "unat mt < 4" "mts_with_mt X86_64 mts mt val = Some r" "val \<le> 7" "unat i < 8"
  shows "mt_of_mts X86_64 r i = (if i = mt then val else mt_of_mts X86_64 mts i)"
proof -
  have "unat val < 2 ^ 3" using assms(3) by (simp add: word_le_nat_alt)
  then have v: "take_bit 3 val = val"
    by (simp add: word_unat_eq_iff unsigned_take_bit_eq take_bit_nat_eq_self)
  then have v3: "bit val k \<Longrightarrow> k < 3" for k by (metis bit_take_bit_iff)
  note r = bit_mts_with_mt [OF assms(1,2)]
  show ?thesis
  proof (cases "i = mt")
    case True
    have "field (unat mt * 8) 3 r = ucast val"
      using v3 by (intro bit_word_eqI) (auto simp: bit_field r bit_unsigned_iff)
    moreover have "ucast (ucast val :: u64) = val"
      by (auto intro!: bit_word_eqI simp: bit_simps)
    ultimately show ?thesis using True
      by (simp add: mt_of_mts_field)
  next
    case False
    then have ne: "unat i \<noteq> unat mt" by (simp add: word_unat_eq_iff)
    have "field (unat i * 8) 3 r = field (unat i * 8) 3 mts"
    proof (rule field_eqI)
      fix n assume n: "n < (3::nat)"
      define k where "k = unat i * 8 + n"
      have miss: "\<not> (unat mt * 8 \<le> k \<and> k < unat mt * 8 + 3)"
        using ne n by (auto simp: k_def)
      have "\<not> bit val (k - unat mt * 8)" if "unat mt * 8 \<le> k"
        using v3 [of "k - unat mt * 8"] miss that by force
      then show "bit r (unat i * 8 + n) = bit mts (unat i * 8 + n)"
        using miss unfolding r k_def [symmetric] by blast
    qed
    then show ?thesis using False by (simp add: mt_of_mts_field)
  qed
qed

subsection \<open>Layout of the bit-field structs\<close>

text \<open>Consecutive fields of \<open>v\<close>, each with its length.\<close>

fun cut_fields :: "nat \<Rightarrow> nat list \<Rightarrow> u64 \<Rightarrow> (nat \<times> u64) list" where
  "cut_fields off [] v = []"
| "cut_fields off (len # ls) v = (len, field off len v) # cut_fields (off + len) ls v"

lemma pack_cut_fields: "pack_fields (cut_fields off ls v) = field off (sum_list ls) v"
proof (induction ls arbitrary: off)
  case Nil
  then show ?case by (simp add: field_def)
next
  case (Cons len ls)
  have "bit (pack_fields (cut_fields off (len # ls) v)) n = bit (field off (sum_list (len # ls)) v) n"
    for n
    by (cases "n < len")
      (auto simp: Cons.IH bit_simps bit_field add.assoc dest: bit_u64_bound)
  then show ?case by (rule bit_eqI)
qed

lemma field_all: "field 0 64 v = v"
  by (rule bit_word_eqI) (simp add: bit_field)

lemma pack_cast_pgd: "pack_pgd (cast_pgd v) = v"
  using pack_cut_fields [of 0 "[1,1,1,1,1,1,1,1,4,28,12,11,1]" v]
  by (simp add: cast_pgd_def pack_pgd_def field_all del: pack_fields.simps One_nat_def)

lemma pack_cast_pmd_large: "pack_pmd_large (cast_pmd_large v) = v"
  using pack_cut_fields [of 0 "[1,1,1,1,1,1,1,1,1,3,1,8,19,12,11,1]" v]
  by (simp add: cast_pmd_large_def pack_pmd_large_def field_all del: pack_fields.simps One_nat_def)

lemma pack_cast_pte: "pack_pte (cast_pte v) = v"
  using pack_cut_fields [of 0 "[1,1,1,1,1,1,1,1,1,3,28,12,11,1]" v]
  by (simp add: cast_pte_def pack_pte_def field_all del: pack_fields.simps One_nat_def)

lemma pack_cast_arm_pgd: "pack_arm_pgd (cast_arm_pgd v) = v"
  using pack_cut_fields [of 0 "[2,10,36,4,7,1,1,2,1]" v]
  by (simp add: cast_arm_pgd_def pack_arm_pgd_def field_all
      del: pack_fields.simps One_nat_def add_2_eq_Suc add_2_eq_Suc')

lemma pack_cast_arm_pte: "pack_arm_pte (cast_arm_pte v) = v"
  using pack_cut_fields [of 0 "[2,3,1,2,2,1,1,36,4,1,1,1,4,5]" v]
  by (simp add: cast_arm_pte_def pack_arm_pte_def field_all
      del: pack_fields.simps One_nat_def add_2_eq_Suc add_2_eq_Suc')

lemmas pack_cast = pack_cast_pgd pack_cast_pmd_large pack_cast_pte pack_cast_arm_pgd
  pack_cast_arm_pte

subsection \<open>Properties\<close>

text \<open>
  Casting a page-table entry to any of the bit-field structs of \<open>ptedit.h\<close> loses nothing:
  the declared fields cover the 64 bits, so writing them back in order gives the entry again.
\<close>

lemma cast_roundtrip:
  "pack_pgd (cast_pgd v) = v \<and> pack_pmd_large (cast_pmd_large v) = v \<and> pack_pte (cast_pte v) = v \<and>
   pack_arm_pgd (cast_arm_pgd v) = v \<and> pack_arm_pte (cast_arm_pte v) = v"
  by (simp add: pack_cast)

text \<open>
  C36. \<open>ptedit_set_pfn\<close> followed by \<open>ptedit_get_pfn\<close> gives the new page-frame number, every bit
  outside the PFN field keeps its value, and putting the old number back restores the entry,
  for every page-frame number that fits the architecture's PFN field.
\<close>

theorem pfn_roundtrip:
  assumes "unat pfn < 2 ^ pfn_bits A"
  shows "ptedit_get_pfn A (ptedit_set_pfn A pte pfn) = pfn \<and>
    (\<forall>n. n < 12 \<or> 12 + pfn_bits A \<le> n \<longrightarrow> bit (ptedit_set_pfn A pte pfn) n = bit pte n) \<and>
    ptedit_set_pfn A (ptedit_set_pfn A pte pfn) (ptedit_get_pfn A pte) = pte"
  using assms by (simp add: get_pfn_set_pfn set_pfn_keeps set_pfn_set_pfn set_pfn_get_pfn)

theorem pfn_roundtrip_witness:
  "ptedit_get_pfn X86_64 (ptedit_set_pfn X86_64 0x8000000000000067 0x1234) = 0x1234 \<and>
   ptedit_set_pfn X86_64 0x8000000000000067 0x1234 = 0x8000000001234067"
proof
  show "ptedit_get_pfn X86_64 (ptedit_set_pfn X86_64 0x8000000000000067 0x1234) = 0x1234"
    using pfn_roundtrip [of "0x1234" X86_64 "0x8000000000000067"] by (simp add: pfn_bits_def)
  show "ptedit_set_pfn X86_64 0x8000000000000067 0x1234 = 0x8000000001234067"
    by code_simp
qed

text \<open>
  The \<open>pfn\<close> bit field of \<open>ptedit_pte_t\<close> has 28 bits while \<open>ptedit_get_pfn\<close> reads 40: the two
  agree exactly for the frames below \<open>2 ^ 28\<close>, that is for physical addresses below 1 TiB.
\<close>

lemma pte_pfn_agrees_iff:
  "pte_pfn (cast_pte pte) = ptedit_get_pfn X86_64 pte \<longleftrightarrow> unat (ptedit_get_pfn X86_64 pte) < 2 ^ 28"
proof
  assume "pte_pfn (cast_pte pte) = ptedit_get_pfn X86_64 pte"
  then show "unat (ptedit_get_pfn X86_64 pte) < 2 ^ 28"
    using field_less [of 28 12 pte] by (simp add: cast_pte_def)
next
  assume "unat (ptedit_get_pfn X86_64 pte) < 2 ^ 28"
  then show "pte_pfn (cast_pte pte) = ptedit_get_pfn X86_64 pte"
    by (simp add: pte_pfn_get_pfn take_bit_small)
qed

text \<open>
  Memory types of an entry: \<open>ptedit_extract_mt\<close> after \<open>ptedit_apply_mt\<close> gives the type (its
  three low bits) on both architectures, for normal and huge pages, and applying the old type
  again restores the entry.
\<close>

lemma memory_type_roundtrip:
  "ptedit_extract_mt A (ptedit_apply_mt A entry mt) = take_bit 3 mt \<and>
   ptedit_extract_mt_huge A (ptedit_apply_mt_huge A entry mt) = take_bit 3 mt \<and>
   ptedit_apply_mt A (ptedit_apply_mt A entry mt) (ptedit_extract_mt A entry) = entry \<and>
   ptedit_apply_mt_huge A (ptedit_apply_mt_huge A entry mt) (ptedit_extract_mt_huge A entry) = entry"
  by (simp add: extract_apply_mt extract_apply_mt_huge apply_extract_mt apply_extract_mt_huge)

text \<open>
  \<open>ptedit_find_first_mt\<close> returns the least PAT/MAIR index whose memory type is the requested
  one, and -1 exactly when no index has it.
\<close>

lemma find_first_mt_least:
  "find_first_mt_in A mts type =
     (if \<exists>i<8. mt_matches A mts type i then int (LEAST i. i < 8 \<and> mt_matches A mts type i) else -1)"
proof -
  have "find_mt_in A mts type = 0 \<longleftrightarrow> \<not> (\<exists>i<8. mt_matches A mts type i)"
    using bit_find_mt_in [of A mts type] by (metis bit_0_eq bit_eqI bot_apply bot_bool_def)
  moreover have "bit (find_mt_in A mts type) = (\<lambda>i. i < 8 \<and> mt_matches A mts type i)"
    by (simp add: fun_eq_iff bit_find_mt_in)
  ultimately show ?thesis
    by (simp add: find_first_mt_in_def builtin_ffs_eq)
qed

text \<open>
  \<open>ptedit_set_mt\<close> on x86-64: for the PAT entries 0 to 3 the new PAT value has the requested
  type at that entry and the old types at the other seven. For the entries 4 to 7, which the
  documentation allows as well, the mask \<open>7 << (mt * 8)\<close> shifts an \<open>int\<close> by at least its width.
\<close>

lemma set_mt_effect:
  assumes "val \<le> 7"
  shows "(unat mt < 4 \<longrightarrow> (\<exists>r. mts_with_mt X86_64 mts mt val = Some r \<and>
             (\<forall>i. unat i < 8 \<longrightarrow> mt_of_mts X86_64 r i = (if i = mt then val else mt_of_mts X86_64 mts i)))) \<and>
         (4 \<le> unat mt \<longrightarrow> mts_with_mt X86_64 mts mt val = None)"
proof -
  have "mt_of_mts X86_64 r i = (if i = mt then val else mt_of_mts X86_64 mts i)"
    if r: "mts_with_mt X86_64 mts mt val = Some r" and mt: "unat mt < 4" and i: "unat i < 8" for r i
    using mts_with_mt_get [OF mt r assms i] .
  then show ?thesis
    using mts_with_mt_defined [of mts mt val] by (auto simp: not_less)
qed

end
