(* ===== verification/Paging_Spec.thy ===== *)
theory Paging_Spec
  imports Prelude
begin

text \<open>
  The abstract specification both resolvers are measured against: four-level x86-64 paging as
  the processor defines it. A table entry is found in a \<^emph>\<open>slot\<close>, the physical address of the
  entry; \<open>translate\<close> is the address translation with 1 GiB, 2 MiB and 4 KiB pages. The kernel
  module (\<open>Kernel_Module\<close>) and the user-space walk (\<open>Page_Walk\<close>) are both proved to read and
  write exactly these slots.
\<close>

subsection \<open>Slots\<close>

text \<open>The physical address of the table (or page) an entry points to: bits 12 to 51.\<close>

definition table_base :: "u64 \<Rightarrow> u64" where
  "table_base e = push_bit 12 (field 12 40 e)"

text \<open>The slot of address \<open>a\<close> in the table at \<open>base\<close>; level 3 is the root, level 0 the page
  table.\<close>

definition slot :: "u64 \<Rightarrow> nat \<Rightarrow> u64 \<Rightarrow> u64" where
  "slot base level a = base + 8 * field (12 + 9 * level) 9 a"

definition pgd_slot :: "u64 \<Rightarrow> u64 \<Rightarrow> u64" where
  "pgd_slot root a = slot root 3 a"

definition pud_slot :: "mem \<Rightarrow> u64 \<Rightarrow> u64 \<Rightarrow> u64" where
  "pud_slot m root a = slot (table_base (load64 m (pgd_slot root a))) 2 a"

definition pmd_slot :: "mem \<Rightarrow> u64 \<Rightarrow> u64 \<Rightarrow> u64" where
  "pmd_slot m root a = slot (table_base (load64 m (pud_slot m root a))) 1 a"

definition pte_slot :: "mem \<Rightarrow> u64 \<Rightarrow> u64 \<Rightarrow> u64" where
  "pte_slot m root a = slot (table_base (load64 m (pmd_slot m root a))) 0 a"

definition upper_slots :: "mem \<Rightarrow> u64 \<Rightarrow> u64 \<Rightarrow> u64 list" where
  "upper_slots m root a = [pgd_slot root a, pud_slot m root a, pmd_slot m root a]"

subsection \<open>Translation\<close>

text \<open>The walk reaches the page table: three present table entries, none of them a large page.\<close>

definition reaches_pte :: "mem \<Rightarrow> u64 \<Rightarrow> u64 \<Rightarrow> bool" where
  "reaches_pte m root a \<longleftrightarrow>
     bit (load64 m (pgd_slot root a)) 0
   \<and> bit (load64 m (pud_slot m root a)) 0 \<and> \<not> bit (load64 m (pud_slot m root a)) 7
   \<and> bit (load64 m (pmd_slot m root a)) 0 \<and> \<not> bit (load64 m (pmd_slot m root a)) 7"

definition translate :: "mem \<Rightarrow> u64 \<Rightarrow> u64 \<Rightarrow> u64 option" where
  "translate m root a =
     (let e3 = load64 m (pgd_slot root a); e2 = load64 m (pud_slot m root a);
          e1 = load64 m (pmd_slot m root a); e0 = load64 m (pte_slot m root a) in
      if \<not> bit e3 0 then None
      else if \<not> bit e2 0 then None
      else if bit e2 7 then Some (push_bit 30 (field 30 22 e2) OR take_bit 30 a)
      else if \<not> bit e1 0 then None
      else if bit e1 7 then Some (push_bit 21 (field 21 31 e1) OR take_bit 21 a)
      else if \<not> bit e0 0 then None
      else Some (table_base e0 OR take_bit 12 a))"

lemma translate_reaches:
  "reaches_pte m root a \<Longrightarrow>
   translate m root a =
     (if bit (load64 m (pte_slot m root a)) 0
      then Some (table_base (load64 m (pte_slot m root a)) OR take_bit 12 a) else None)"
  by (simp add: translate_def reaches_pte_def Let_def)

subsection \<open>Alignment\<close>

lemma take_bit_3_add_aligned:
  fixes a w :: u64
  assumes "take_bit 3 a = 0"
  shows "take_bit 3 (a + 8 * w) = 0"
proof -
  have mod8: "unat (take_bit 3 x) = unat x mod 8" for x :: u64
    by (simp only: unsigned_take_bit_eq) (simp add: take_bit_eq_mod)
  have a: "8 dvd unat a"
    using assms mod8 [of a] by (simp add: mod_eq_0_iff_dvd)
  have "unat (take_bit 3 (a + 8 * w)) = unat (a + 8 * w) mod 8"
    by (rule mod8)
  also have "\<dots> = (unat a + 8 * unat w) mod 8"
    by (simp add: unat_word_ariths mod_mod_cancel mod_simps)
  also have "\<dots> = 0" using a by simp
  finally show ?thesis by (simp add: word_unat_eq_iff)
qed

lemma table_base_aligned [simp]: "n \<le> 12 \<Longrightarrow> take_bit n (table_base e) = 0"
  unfolding table_base_def by (rule bit_word_eqI) (auto simp: bit_simps)

lemma slot_aligned: "take_bit 3 base = 0 \<Longrightarrow> take_bit 3 (slot base l a) = 0"
  unfolding slot_def by (rule take_bit_3_add_aligned)

lemma slots_aligned:
  "take_bit 3 root = 0 \<Longrightarrow> take_bit 3 (pgd_slot root a) = 0"
  "take_bit 3 (pud_slot m root a) = 0"
  "take_bit 3 (pmd_slot m root a) = 0"
  "take_bit 3 (pte_slot m root a) = 0"
  by (simp_all add: pgd_slot_def pud_slot_def pmd_slot_def pte_slot_def slot_aligned)

text \<open>The index in a table is below 512, so that the slot lies in the table's page.\<close>

lemma index_bound: "unat (8 * field off 9 a) < 4096"
proof -
  have "unat (field off 9 a) < 512"
    using field_less [of 9 off a] by simp
  then show ?thesis
    by (simp add: unat_word_ariths)
qed

lemma slot_in_table:
  "take_bit 12 base = 0 \<Longrightarrow> drop_bit 12 (slot base l a) = drop_bit 12 base"
  unfolding slot_def using add_low_part(2) [of 12 base] index_bound by simp

lemma slot_eq_iff:
  assumes "take_bit 12 base = 0"
  shows "slot base l a = slot base l b \<longleftrightarrow> field (12 + 9 * l) 9 a = field (12 + 9 * l) 9 b"
proof
  assume "slot base l a = slot base l b"
  then have "8 * field (12 + 9 * l) 9 a = 8 * field (12 + 9 * l) 9 b"
    by (simp add: slot_def)
  then have "unat (8 * field (12 + 9 * l) 9 a) = unat (8 * field (12 + 9 * l) 9 b)"
    by simp
  moreover have "unat (8 * field (12 + 9 * l) 9 c) = 8 * unat (field (12 + 9 * l) 9 c)" for c
    using field_less [of 9 "12 + 9 * l" c] by (simp add: unat_word_ariths)
  ultimately show "field (12 + 9 * l) 9 a = field (12 + 9 * l) 9 b"
    by (simp add: word_unat_eq_iff)
qed (simp add: slot_def)

subsection \<open>Writing an entry\<close>

lemma upper_slots_frame:
  assumes "\<forall>p\<in>set (upper_slots m root b). apart q 8 p 8"
  shows "upper_slots (store64 m q v) root b = upper_slots m root b"
    and "pte_slot (store64 m q v) root b = pte_slot m root b"
    and "load64 (store64 m q v) (pgd_slot root b) = load64 m (pgd_slot root b)"
    and "load64 (store64 m q v) (pud_slot m root b) = load64 m (pud_slot m root b)"
    and "load64 (store64 m q v) (pmd_slot m root b) = load64 m (pmd_slot m root b)"
  using assms by (simp_all add: upper_slots_def pud_slot_def pmd_slot_def pte_slot_def mem_simps)

lemma upper_slots_frame':
  assumes "\<forall>p\<in>set (upper_slots m root b). apart q 8 p 8"
  shows "pud_slot (store64 m q v) root b = pud_slot m root b"
    and "pmd_slot (store64 m q v) root b = pmd_slot m root b"
  using upper_slots_frame(1) [OF assms, of v] by (simp_all add: upper_slots_def)

lemmas walk_frame = upper_slots_frame upper_slots_frame'

lemma translate_frame:
  assumes "\<forall>p\<in>set (upper_slots m root b). apart q 8 p 8" "apart q 8 (pte_slot m root b) 8"
  shows "translate (store64 m q v) root b = translate m root b"
  unfolding translate_def using assms(2) by (simp add: walk_frame [OF assms(1)] mem_simps)

lemma reaches_pte_frame:
  assumes "\<forall>p\<in>set (upper_slots m root b). apart q 8 p 8"
  shows "reaches_pte (store64 m q v) root b = reaches_pte m root b"
  unfolding reaches_pte_def by (simp add: walk_frame [OF assms])

text \<open>The page-table slot of \<open>a\<close> is not one of the three slots above it.\<close>

definition pte_separate :: "mem \<Rightarrow> u64 \<Rightarrow> u64 \<Rightarrow> bool" where
  "pte_separate m root a \<longleftrightarrow> (\<forall>p\<in>set (upper_slots m root a). apart (pte_slot m root a) 8 p 8)"

lemma pte_separateI:
  "take_bit 3 root = 0 \<Longrightarrow> pte_slot m root a \<notin> set (upper_slots m root a) \<Longrightarrow>
   pte_separate m root a"
  unfolding pte_separate_def upper_slots_def
  by (auto intro!: apart_aligned8 simp: slots_aligned)

lemma write_pte:
  fixes v :: u64
  assumes "pte_separate m root a"
  defines "m' \<equiv> store64 m (pte_slot m root a) v"
  shows "pte_slot m' root a = pte_slot m root a"
    and "load64 m' (pte_slot m' root a) = v"
    and "reaches_pte m' root a = reaches_pte m root a"
    and "upper_slots m' root a = upper_slots m root a"
  using assms(1) unfolding m'_def
  by (simp_all add: pte_separate_def walk_frame reaches_pte_frame mem_simps)

text \<open>After the write the address translates through the new entry.\<close>

lemma translate_write_pte:
  assumes "pte_separate m root a" "reaches_pte m root a" "bit v 0"
  shows "translate (store64 m (pte_slot m root a) v) root a =
           Some (table_base v OR take_bit 12 a)"
  using assms write_pte [OF assms(1), of v] by (subst translate_reaches) auto

text \<open>Addresses of one page have the same slots.\<close>

lemma field_same_page:
  "drop_bit 12 a = drop_bit 12 b \<Longrightarrow> field (12 + 9 * l) 9 a = field (12 + 9 * l) 9 b"
  by (metis drop_bit_drop_bit field_def add.commute)

lemma slots_same_page:
  assumes "drop_bit 12 a = drop_bit 12 b"
  shows "upper_slots m root a = upper_slots m root b" "pte_slot m root a = pte_slot m root b"
    and "pgd_slot root a = pgd_slot root b" "pud_slot m root a = pud_slot m root b"
    and "pmd_slot m root a = pmd_slot m root b"
proof -
  have "slot base l a = slot base l b" for base l
    using field_same_page [OF assms] by (simp add: slot_def)
  then show "upper_slots m root a = upper_slots m root b"
      "pte_slot m root a = pte_slot m root b"
      "pgd_slot root a = pgd_slot root b" "pud_slot m root a = pud_slot m root b"
      "pmd_slot m root a = pmd_slot m root b"
    by (simp_all add: upper_slots_def pgd_slot_def pud_slot_def pmd_slot_def pte_slot_def)
qed

lemma slot_direct:
  assumes "take_bit 12 base = 0" "unat base < 2 ^ 46"
  shows "unat (slot base l a) < 2 ^ 46"
proof -
  have or: "slot base l a = base OR 8 * field (12 + 9 * l) 9 a"
    unfolding slot_def by (rule add_low_part(1) [OF assms(1)]) (simp add: index_bound)
  have idx: "unat (8 * field (12 + 9 * l) 9 a) < 2 ^ 46"
    using index_bound [of "12 + 9 * l" a] by simp
  have "take_bit 46 (slot base l a) = slot base l a"
    unfolding or take_bit_or using take_bit_small [OF assms(2)] take_bit_small [OF idx] by simp
  then show ?thesis
    by (metis take_bit_nat_less_exp unsigned_take_bit_eq)
qed

subsection \<open>A concrete address space\<close>

text \<open>Four tables at the physical pages 1 to 4 that map one virtual page, used by the witnesses
  of several theories.\<close>

definition demo_root :: u64 where "demo_root = 0x1000"

definition demo_addr :: u64 where "demo_addr = 0x8080604123"

definition demo_mem :: mem where
  "demo_mem = store64 (store64 (store64 (store64 (\<lambda>_. 0) 0x4020 0x5067) 0x3018 0x4067)
                0x2010 0x3067) 0x1008 0x2067"

lemma demo_loads:
  "load64 demo_mem 0x1008 = 0x2067" "load64 demo_mem 0x2010 = 0x3067"
  "load64 demo_mem 0x3018 = 0x4067" "load64 demo_mem 0x4020 = 0x5067"
  by (simp_all add: demo_mem_def mem_simps apart_def)

lemma demo_slots:
  "pgd_slot demo_root demo_addr = 0x1008" "pud_slot demo_mem demo_root demo_addr = 0x2010"
  "pmd_slot demo_mem demo_root demo_addr = 0x3018" "pte_slot demo_mem demo_root demo_addr = 0x4020"
  by (simp_all add: pgd_slot_def pud_slot_def pmd_slot_def pte_slot_def slot_def demo_root_def
      demo_addr_def field_def table_base_def demo_loads)

lemma demo_reaches: "reaches_pte demo_mem demo_root demo_addr"
  by (simp add: reaches_pte_def demo_slots demo_loads)

lemma demo_separate: "pte_separate demo_mem demo_root demo_addr"
  by (simp add: pte_separate_def upper_slots_def demo_slots apart_def)

end
