(* ===== verification/Module_Interface.thy ===== *)
theory Module_Interface
  imports Prelude
begin

text \<open>
  The interface between the PTEditor library and its kernel module
  (\<open>PTEditor/module/pteditor.h\<close>): the structs that cross the \<open>ioctl\<close> boundary, the validity
  masks and the commands.
\<close>

subsection \<open>Structs\<close>

text \<open>\<open>ptedit_entry_t\<close>. The anonymous unions give two names to one field (\<open>pgd\<close>/\<open>pml5\<close>,
  \<open>p4d\<close>/\<open>pml4\<close>, \<open>pud\<close>/\<open>pdpt\<close>, \<open>pmd\<close>/\<open>pd\<close>); the record has the field once.\<close>

record ptedit_entry_t =
  e_pid :: u64
  e_vaddr :: u64
  e_pgd :: u64
  e_p4d :: u64
  e_pud :: u64
  e_pmd :: u64
  e_pte :: u64
  e_valid :: u64

text \<open>\<open>ptedit_page_t\<close> (Linux). The pointer \<open>buffer\<close> is represented by the bytes it points to.\<close>

record ptedit_page_t =
  pg_pfn :: u64
  pg_vaddr :: u64
  pg_size :: u64
  pg_buffer :: "u8 list"

record ptedit_paging_t =
  paging_pid :: u64
  paging_root :: u64

subsection \<open>Validity masks\<close>

definition PTEDIT_VALID_MASK_PGD :: u64 where "PTEDIT_VALID_MASK_PGD = push_bit 0 1"
definition PTEDIT_VALID_MASK_P4D :: u64 where "PTEDIT_VALID_MASK_P4D = push_bit 1 1"
definition PTEDIT_VALID_MASK_PUD :: u64 where "PTEDIT_VALID_MASK_PUD = push_bit 2 1"
definition PTEDIT_VALID_MASK_PMD :: u64 where "PTEDIT_VALID_MASK_PMD = push_bit 3 1"
definition PTEDIT_VALID_MASK_PTE :: u64 where "PTEDIT_VALID_MASK_PTE = push_bit 4 1"

lemmas valid_masks = PTEDIT_VALID_MASK_PGD_def PTEDIT_VALID_MASK_P4D_def
  PTEDIT_VALID_MASK_PUD_def PTEDIT_VALID_MASK_PMD_def PTEDIT_VALID_MASK_PTE_def

text \<open>The test \<open>x & mask\<close> of a C condition.\<close>

definition test_mask :: "u64 \<Rightarrow> u64 \<Rightarrow> bool" where
  "test_mask x m \<longleftrightarrow> x AND m \<noteq> 0"

lemma test_mask_bits [simp]:
  "test_mask x PTEDIT_VALID_MASK_PGD \<longleftrightarrow> bit x 0"
  "test_mask x PTEDIT_VALID_MASK_P4D \<longleftrightarrow> bit x 1"
  "test_mask x PTEDIT_VALID_MASK_PUD \<longleftrightarrow> bit x 2"
  "test_mask x PTEDIT_VALID_MASK_PMD \<longleftrightarrow> bit x 3"
  "test_mask x PTEDIT_VALID_MASK_PTE \<longleftrightarrow> bit x 4"
  unfolding test_mask_def valid_masks by (simp_all only: and_push_bit_one_iff) simp_all

lemma bit_valid_masks [bit_fields]:
  "bit PTEDIT_VALID_MASK_PGD k \<longleftrightarrow> k = 0"
  "bit PTEDIT_VALID_MASK_P4D k \<longleftrightarrow> k = 1"
  "bit PTEDIT_VALID_MASK_PUD k \<longleftrightarrow> k = 2"
  "bit PTEDIT_VALID_MASK_PMD k \<longleftrightarrow> k = 3"
  "bit PTEDIT_VALID_MASK_PTE k \<longleftrightarrow> k = 4"
  unfolding valid_masks by (simp_all only: bit_push_bit_one) auto

subsection \<open>Commands\<close>

definition PTEDITOR_TLB_INVALIDATION_KERNEL :: u32 where
  "PTEDITOR_TLB_INVALIDATION_KERNEL = 0"

definition PTEDITOR_TLB_INVALIDATION_CUSTOM :: u32 where
  "PTEDITOR_TLB_INVALIDATION_CUSTOM = 1"

text \<open>
  One constructor per \<open>PTEDITOR_IOCTL_CMD_\<dots>\<close>, with the argument the command passes: the struct
  behind the pointer, or the value itself. \<open>IOCTL_OTHER\<close> stands for every other number.
\<close>

datatype ioctl_cmd =
    IOCTL_VM_RESOLVE ptedit_entry_t
  | IOCTL_VM_UPDATE ptedit_entry_t
  | IOCTL_VM_LOCK
  | IOCTL_VM_UNLOCK
  | IOCTL_READ_PAGE ptedit_page_t
  | IOCTL_WRITE_PAGE ptedit_page_t
  | IOCTL_GET_ROOT ptedit_paging_t
  | IOCTL_SET_ROOT ptedit_paging_t
  | IOCTL_GET_PAGESIZE
  | IOCTL_INVALIDATE_TLB u64
  | IOCTL_GET_PAT
  | IOCTL_SET_PAT u64
  | IOCTL_SWITCH_TLB_INVALIDATION u64
  | IOCTL_OTHER

text \<open>What a command copies back to user space.\<close>

datatype ioctl_out = Out_none | Out_entry ptedit_entry_t | Out_page ptedit_page_t
  | Out_paging ptedit_paging_t | Out_pat u64

end
