(* ===== verification/Kernel_Module.thy ===== *)
theory Kernel_Module
  imports Pte_Bits Paging_Spec Module_Interface
begin

text \<open>
  The Linux kernel module \<open>PTEditor/module/pteditor.c\<close>, as it is built for x86-64 on a kernel
  from 5.8 on: \<open>get_mm\<close>, the page-table walk \<open>resolve_vm\<close>, \<open>update_vm\<close>, the TLB and PAT code,
  the \<open>ioctl\<close> dispatcher, the device file and the module's entry and exit functions.

  The kernel functions the module calls are not part of the repository. They are the fields
  of the record \<open>kernel\<close>, an argument of every definition; what a property relies on of them
  is an assumption of the locale \<open>linux_paging\<close>.
\<close>

subsection \<open>The kernel, a parameter\<close>

type_synonym mm = nat
type_synonym task = nat
type_synonym vpid = nat

record kernel =
  k_current :: task
  k_find_vpid :: "u64 \<Rightarrow> vpid option"
  k_pid_task :: "vpid \<Rightarrow> task option"
  k_task_pid_nr :: "task \<Rightarrow> u64"
  k_task_mm :: "task \<Rightarrow> mm option"
  k_task_active_mm :: "task \<Rightarrow> mm option"
  k_virt_to_phys :: "u64 \<Rightarrow> u64"
  k_phys_to_virt :: "u64 \<Rightarrow> u64"
  k_pgd_offset :: "u64 \<Rightarrow> u64 \<Rightarrow> u64"
  k_p4d_offset :: "mem \<Rightarrow> u64 \<Rightarrow> u64 \<Rightarrow> u64"
  k_pud_offset :: "mem \<Rightarrow> u64 \<Rightarrow> u64 \<Rightarrow> u64"
  k_pmd_offset :: "mem \<Rightarrow> u64 \<Rightarrow> u64 \<Rightarrow> u64"
  k_pte_offset_map :: "mem \<Rightarrow> u64 \<Rightarrow> u64 \<Rightarrow> u64"
  k_pgd_none :: "u64 \<Rightarrow> bool"
  k_pgd_bad :: "u64 \<Rightarrow> bool"
  k_p4d_none :: "u64 \<Rightarrow> bool"
  k_p4d_bad :: "u64 \<Rightarrow> bool"
  k_pud_none :: "u64 \<Rightarrow> bool"
  k_pud_large :: "u64 \<Rightarrow> bool"
  k_pmd_none :: "u64 \<Rightarrow> bool"
  k_pmd_large :: "u64 \<Rightarrow> bool"
  k_set_pgd :: "u64 \<Rightarrow> u64 \<Rightarrow> mem \<Rightarrow> mem"
  k_set_p4d :: "u64 \<Rightarrow> u64 \<Rightarrow> mem \<Rightarrow> mem"
  k_set_pud :: "u64 \<Rightarrow> u64 \<Rightarrow> mem \<Rightarrow> mem"
  k_set_pmd :: "u64 \<Rightarrow> u64 \<Rightarrow> mem \<Rightarrow> mem"
  k_set_pte :: "u64 \<Rightarrow> u64 \<Rightarrow> mem \<Rightarrow> mem"
  k_ncpus :: nat
  k_this_cpu :: nat
  k_read_cr4 :: "nat \<Rightarrow> u64"
  k_invpcid_single :: bool
  k_kprobe_addr :: u64
  k_kallsyms :: "string \<Rightarrow> u64"
  k_misc_register :: int
  k_register_kretprobe :: int

subsection \<open>State\<close>

text \<open>The function the pointer \<open>invalidate_tlb\<close> points to; \<open>None\<close> is the null pointer.\<close>

datatype tlb_fn = Invalidate_tlb_kernel | Invalidate_tlb_custom

text \<open>Calls into the kernel that change nothing the model keeps, in the order they are made.
  \<open>Oops\<close> marks the use of a null pointer, after which the kernel kills the caller.\<close>

datatype kevent =
    Mmap_read_lock mm | Mmap_read_unlock mm | Mmap_write_lock mm | Mmap_write_unlock mm
  | Flush_tlb_mm_range "mm option" u64 u64 nat
  | Invpcid_flush_one nat nat u64
  | Write_cr4 nat u64
  | Pr_warn string
  | Pr_alert string
  | Pr_info string
  | Oops

text \<open>
  Physical memory, \<open>mm->pgd\<close> of every process, the PAT register of every CPU, and the module's
  static variables. \<open>misc_registered\<close>, \<open>kretprobe_registered\<close> and \<open>umem_entry\<close> record what the
  module has registered with the kernel.
\<close>

record kstate =
  phys :: mem
  mm_pgd :: "mm \<Rightarrow> u64"
  pat_msr :: "nat \<Rightarrow> u64"
  device_busy :: bool
  mm_is_locked :: bool
  invalidate_tlb_p :: "tlb_fn option"
  flush_tlb_mm_range_func :: u64
  native_write_cr4_func :: u64
  has_umem :: bool
  misc_registered :: bool
  kretprobe_registered :: bool
  umem_entry :: bool
  events :: "kevent list"

definition real_page_size :: u32 where "real_page_size = 4096"
definition real_page_shift :: nat where "real_page_shift = 12"

definition log_event :: "kevent \<Rightarrow> kstate \<Rightarrow> kstate" where
  "log_event e s = s\<lparr>events := events s @ [e]\<rparr>"

text \<open>Reading through a kernel pointer.\<close>

definition kread :: "kernel \<Rightarrow> mem \<Rightarrow> u64 \<Rightarrow> u64" where
  "kread K m p = load64 m (k_virt_to_phys K p)"

text \<open>\<open>on_each_cpu(f, arg, 1)\<close>\<close>

definition on_each_cpu :: "kernel \<Rightarrow> (nat \<Rightarrow> kstate \<Rightarrow> kstate) \<Rightarrow> kstate \<Rightarrow> kstate" where
  "on_each_cpu K f s = fold f [0..<k_ncpus K] s"

subsection \<open>Device file\<close>

definition EBUSY :: int where "EBUSY = 16"
definition ENXIO :: int where "ENXIO = 6"

definition device_open :: "kstate \<Rightarrow> int \<times> kstate" where
  "device_open s = (if device_busy s then (- EBUSY, s) else (0, s\<lparr>device_busy := True\<rparr>))"

definition device_release :: "kstate \<Rightarrow> int \<times> kstate" where
  "device_release s = (0, s\<lparr>device_busy := False\<rparr>)"

subsection \<open>Processes\<close>

definition get_mm :: "kernel \<Rightarrow> u64 \<Rightarrow> mm option" where
  "get_mm K pid =
     do {
       task \<leftarrow> (if pid \<noteq> 0
                then do { vpid \<leftarrow> k_find_vpid K pid; k_pid_task K vpid }
                else Some (k_current K));
       (case k_task_mm K task of Some mm \<Rightarrow> Some mm | None \<Rightarrow> k_task_active_mm K task)
     }"

subsection \<open>TLB invalidation\<close>

definition X86_CR4_PGE :: u64 where "X86_CR4_PGE = push_bit 7 1"

text \<open>The body run on one CPU: with INVPCID every PCID is flushed, without it CR4.PGE is
  toggled.\<close>

definition invalidate_tlb_cpu :: "kernel \<Rightarrow> u64 \<Rightarrow> nat \<Rightarrow> kstate \<Rightarrow> kstate" where
  "invalidate_tlb_cpu K addr cpu s =
     (if k_invpcid_single K
      then fold (\<lambda>pcid. log_event (Invpcid_flush_one cpu pcid addr)) [0..<4096] s
      else let cr4 = k_read_cr4 K cpu in
        log_event (Write_cr4 cpu cr4) (log_event (Write_cr4 cpu (cr4 AND NOT X86_CR4_PGE)) s))"

definition invalidate_tlb_custom :: "kernel \<Rightarrow> u64 \<Rightarrow> kstate \<Rightarrow> kstate" where
  "invalidate_tlb_custom K addr s = on_each_cpu K (invalidate_tlb_cpu K addr) s"

definition invalidate_tlb_kernel :: "kernel \<Rightarrow> u64 \<Rightarrow> kstate \<Rightarrow> kstate" where
  "invalidate_tlb_kernel K addr s =
     log_event (Flush_tlb_mm_range (get_mm K (k_task_pid_nr K (k_current K))) addr
       (addr + int_to_size real_page_size) real_page_shift) s"

text \<open>The call through the function pointer \<open>invalidate_tlb\<close>, null until \<open>pteditor_init\<close> sets it.\<close>

definition invalidate_tlb :: "kernel \<Rightarrow> u64 \<Rightarrow> kstate \<Rightarrow> kstate" where
  "invalidate_tlb K addr s =
     (case invalidate_tlb_p s of
        Some Invalidate_tlb_kernel \<Rightarrow> invalidate_tlb_kernel K addr s
      | Some Invalidate_tlb_custom \<Rightarrow> invalidate_tlb_custom K addr s
      | None \<Rightarrow> log_event Oops s)"

subsection \<open>Memory types\<close>

text \<open>\<open>wrmsr\<close> on one CPU with the two halves of the value.\<close>

definition set_pat_cpu :: "u64 \<Rightarrow> nat \<Rightarrow> kstate \<Rightarrow> kstate" where
  "set_pat_cpu pat cpu s =
     (let low = size_to_int (pat AND 0xffffffff);
          high = size_to_int (drop_bit 32 pat AND 0xffffffff)
      in s\<lparr>pat_msr := (pat_msr s)(cpu := push_bit 32 (ucast high) OR ucast low)\<rparr>)"

definition set_pat :: "kernel \<Rightarrow> u64 \<Rightarrow> kstate \<Rightarrow> kstate" where
  "set_pat K pat s = on_each_cpu K (set_pat_cpu pat) s"

text \<open>\<open>rdmsr\<close> into two \<open>int\<close>s; the low half is converted to \<open>size_t\<close> with its sign.\<close>

definition get_pat :: "kernel \<Rightarrow> kstate \<Rightarrow> u64" where
  "get_pat K s =
     (let v = pat_msr s (k_this_cpu K);
          low = size_to_int v;
          high = size_to_int (drop_bit 32 v)
      in int_to_size low OR push_bit 32 (int_to_size high))"

subsection \<open>Page-table walk\<close>

record vm_t =
  vm_pid :: u64
  vm_pgd :: u64
  vm_p4d :: u64
  vm_pud :: u64
  vm_pmd :: u64
  vm_pte :: u64
  vm_valid :: u64

text \<open>The part of \<open>resolve_vm\<close> between locking and unlocking: the return value and the entry.
  \<open>goto error_out\<close> is the result \<open>1\<close>.\<close>

definition resolve_walk :: "kernel \<Rightarrow> mem \<Rightarrow> u64 \<Rightarrow> u64 \<Rightarrow> vm_t \<Rightarrow> int \<times> vm_t" where
  "resolve_walk K m pgd addr entry =
     (let pgdp = k_pgd_offset K pgd addr in
      if k_pgd_none K (kread K m pgdp) \<or> k_pgd_bad K (kread K m pgdp)
      then (1, entry\<lparr>vm_pgd := 0\<rparr>)
      else let e1 = entry\<lparr>vm_pgd := pgdp, vm_valid := vm_valid entry OR PTEDIT_VALID_MASK_PGD\<rparr>;
               p4dp = k_p4d_offset K m pgdp addr in
      if k_p4d_none K (kread K m p4dp) \<or> k_p4d_bad K (kread K m p4dp)
      then (1, e1\<lparr>vm_p4d := 0\<rparr>)
      else let e2 = e1\<lparr>vm_p4d := p4dp, vm_valid := vm_valid e1 OR PTEDIT_VALID_MASK_P4D\<rparr>;
               pudp = k_pud_offset K m p4dp addr in
      if k_pud_none K (kread K m pudp)
      then (1, e2\<lparr>vm_pud := 0\<rparr>)
      else let e3 = e2\<lparr>vm_pud := pudp, vm_valid := vm_valid e2 OR PTEDIT_VALID_MASK_PUD\<rparr>;
               pmdp = k_pmd_offset K m pudp addr in
      if k_pmd_none K (kread K m pmdp) \<or> k_pud_large K (kread K m pudp)
      then (1, e3\<lparr>vm_pmd := 0\<rparr>)
      else let e4 = e3\<lparr>vm_pmd := pmdp, vm_valid := vm_valid e3 OR PTEDIT_VALID_MASK_PMD\<rparr>;
               ptep = k_pte_offset_map K m pmdp addr in
      if ptep = 0 \<or> k_pmd_large K (kread K m pmdp)
      then (1, e4\<lparr>vm_pte := 0\<rparr>)
      else (0, e4\<lparr>vm_pte := ptep, vm_valid := vm_valid e4 OR PTEDIT_VALID_MASK_PTE\<rparr>))"

definition resolve_vm :: "kernel \<Rightarrow> u64 \<Rightarrow> vm_t \<Rightarrow> bool \<Rightarrow> kstate \<Rightarrow> int \<times> vm_t \<times> kstate" where
  "resolve_vm K addr entry lock s =
     (let entry0 = entry\<lparr>vm_pud := 0, vm_pmd := 0, vm_pgd := 0, vm_pte := 0, vm_p4d := 0,
                         vm_valid := 0\<rparr> in
      case get_mm K (vm_pid entry) of
        None \<Rightarrow> (1, entry0, s)
      | Some mm \<Rightarrow>
          let s1 = (if lock then log_event (Mmap_read_lock mm) s else s);
              (r, e) = resolve_walk K (phys s1) (mm_pgd s1 mm) addr entry0;
              s2 = (if lock then log_event (Mmap_read_unlock mm) s1 else s1)
          in (r, e, s2))"

text \<open>One guarded update of \<open>update_vm\<close>: both entries are valid at the level.\<close>

definition update_level ::
  "u64 \<Rightarrow> vm_t \<Rightarrow> ptedit_entry_t \<Rightarrow> string \<Rightarrow> (mem \<Rightarrow> mem) \<Rightarrow> kstate \<Rightarrow> kstate" where
  "update_level msk old new msg wr s =
     (if test_mask (vm_valid old) msk \<and> test_mask (e_valid new) msk
      then let s1 = log_event (Pr_warn msg) s in s1\<lparr>phys := wr (phys s1)\<rparr>
      else s)"

definition update_vm :: "kernel \<Rightarrow> ptedit_entry_t \<Rightarrow> bool \<Rightarrow> kstate \<Rightarrow> int \<times> kstate" where
  "update_vm K new lock s =
     (let addr = e_vaddr new in
      case get_mm K (e_pid new) of
        None \<Rightarrow> (1, s)
      | Some mm \<Rightarrow>
          let s1 = (if lock then log_event (Mmap_write_lock mm) s else s);
              (_, old, s2) = resolve_vm K addr
                \<lparr>vm_pid = e_pid new, vm_pgd = 0, vm_p4d = 0, vm_pud = 0, vm_pmd = 0, vm_pte = 0,
                 vm_valid = 0\<rparr> False s1;
              s3 = update_level PTEDIT_VALID_MASK_PGD old new ''Updating PGD''
                     (k_set_pgd K (vm_pgd old) (e_pgd new)) s2;
              s4 = update_level PTEDIT_VALID_MASK_P4D old new ''Updating P4D''
                     (k_set_p4d K (vm_p4d old) (e_p4d new)) s3;
              s5 = update_level PTEDIT_VALID_MASK_PUD old new ''Updating PUD''
                     (k_set_pud K (vm_pud old) (e_pud new)) s4;
              s6 = update_level PTEDIT_VALID_MASK_PMD old new ''Updating PMD''
                     (k_set_pmd K (vm_pmd old) (e_pmd new)) s5;
              s7 = update_level PTEDIT_VALID_MASK_PTE old new ''Updating PTE''
                     (k_set_pte K (vm_pte old) (e_pte new)) s6;
              s8 = invalidate_tlb K addr s7;
              s9 = (if lock then log_event (Mmap_write_unlock mm) s8 else s8)
          in (0, s9))"

definition vm_to_user :: "kernel \<Rightarrow> mem \<Rightarrow> ptedit_entry_t \<Rightarrow> vm_t \<Rightarrow> ptedit_entry_t" where
  "vm_to_user K m user vm =
     (let u1 = (if vm_p4d vm \<noteq> 0 then user\<lparr>e_p4d := kread K m (vm_p4d vm)\<rparr> else user);
          u2 = (if vm_pgd vm \<noteq> 0 then u1\<lparr>e_pgd := kread K m (vm_pgd vm)\<rparr> else u1);
          u3 = (if vm_pmd vm \<noteq> 0 then u2\<lparr>e_pmd := kread K m (vm_pmd vm)\<rparr> else u2);
          u4 = (if vm_pud vm \<noteq> 0 then u3\<lparr>e_pud := kread K m (vm_pud vm)\<rparr> else u3);
          u5 = (if vm_pte vm \<noteq> 0 then u4\<lparr>e_pte := kread K m (vm_pte vm)\<rparr> else u4)
      in u5\<lparr>e_valid := vm_valid vm\<rparr>)"

subsection \<open>The \<open>ioctl\<close> dispatcher\<close>

text \<open>The kernel address of a physical page, as the two page commands compute it, read back as
  the physical address the copy goes to.\<close>

definition page_address :: "kernel \<Rightarrow> u64 \<Rightarrow> u64" where
  "page_address K pfn = k_virt_to_phys K (k_phys_to_virt K (pfn * int_to_size real_page_size))"

definition with_lock :: "bool \<Rightarrow> kevent \<Rightarrow> kstate \<Rightarrow> kstate" where
  "with_lock lock e s = (if lock then log_event e s else s)"

text \<open>\<open>PTEDITOR_IOCTL_CMD_VM_LOCK\<close> and \<open>\<dots>_UNLOCK\<close>, on \<open>current->active_mm\<close>.\<close>

definition vm_lock :: "kernel \<Rightarrow> kstate \<Rightarrow> int \<times> kstate" where
  "vm_lock K s =
     (if mm_is_locked s then (-1, log_event (Pr_warn ''VM is already locked'') s)
      else case k_task_active_mm K (k_current K) of
        None \<Rightarrow> (0, log_event Oops s)
      | Some mm \<Rightarrow>
          (0, (log_event (Mmap_read_lock mm) (log_event (Mmap_write_lock mm) s))
                \<lparr>mm_is_locked := True\<rparr>))"

definition vm_unlock :: "kernel \<Rightarrow> kstate \<Rightarrow> int \<times> kstate" where
  "vm_unlock K s =
     (if \<not> mm_is_locked s then (-1, log_event (Pr_warn ''VM is not locked'') s)
      else case k_task_active_mm K (k_current K) of
        None \<Rightarrow> (0, log_event Oops s)
      | Some mm \<Rightarrow>
          (0, (log_event (Mmap_read_unlock mm) (log_event (Mmap_write_unlock mm) s))
                \<lparr>mm_is_locked := False\<rparr>))"

definition get_root :: "kernel \<Rightarrow> ptedit_paging_t \<Rightarrow> kstate \<Rightarrow> int \<times> ioctl_out \<times> kstate" where
  "get_root K paging s =
     (case get_mm K (paging_pid paging) of
        None \<Rightarrow> (1, Out_none, s)
      | Some mm \<Rightarrow>
          let s1 = with_lock (\<not> mm_is_locked s) (Mmap_read_lock mm) s;
              paging' = paging\<lparr>paging_root := k_virt_to_phys K (mm_pgd s1 mm)\<rparr>;
              s2 = with_lock (\<not> mm_is_locked s1) (Mmap_read_unlock mm) s1
          in (0, Out_paging paging', s2))"

definition set_root :: "kernel \<Rightarrow> ptedit_paging_t \<Rightarrow> kstate \<Rightarrow> int \<times> kstate" where
  "set_root K paging s =
     (case get_mm K (paging_pid paging) of
        None \<Rightarrow> (1, s)
      | Some mm \<Rightarrow>
          let s1 = with_lock (\<not> mm_is_locked s) (Mmap_write_lock mm) s;
              s2 = s1\<lparr>mm_pgd := (mm_pgd s1)(mm := k_phys_to_virt K (paging_root paging))\<rparr>;
              s3 = with_lock (\<not> mm_is_locked s2) (Mmap_write_unlock mm) s2
          in (0, s3))"

definition switch_tlb_invalidation :: "u64 \<Rightarrow> kstate \<Rightarrow> int \<times> kstate" where
  "switch_tlb_invalidation param s =
     (if size_to_int param \<noteq> PTEDITOR_TLB_INVALIDATION_KERNEL
         \<and> size_to_int param \<noteq> PTEDITOR_TLB_INVALIDATION_CUSTOM
      then (-1, s)
      else (0, s\<lparr>invalidate_tlb_p :=
        Some (if size_to_int param = PTEDITOR_TLB_INVALIDATION_KERNEL
              then Invalidate_tlb_kernel else Invalidate_tlb_custom)\<rparr>))"

fun device_ioctl :: "kernel \<Rightarrow> ioctl_cmd \<Rightarrow> kstate \<Rightarrow> int \<times> ioctl_out \<times> kstate" where
  "device_ioctl K (IOCTL_VM_RESOLVE vm_user) s =
     (let (_, vm, s1) = resolve_vm K (e_vaddr vm_user)
            \<lparr>vm_pid = e_pid vm_user, vm_pgd = 0, vm_p4d = 0, vm_pud = 0, vm_pmd = 0, vm_pte = 0,
             vm_valid = 0\<rparr> (\<not> mm_is_locked s) s
      in (0, Out_entry (vm_to_user K (phys s1) vm_user vm), s1))"
| "device_ioctl K (IOCTL_VM_UPDATE vm_user) s =
     (let (_, s1) = update_vm K vm_user (\<not> mm_is_locked s) s in (0, Out_none, s1))"
| "device_ioctl K IOCTL_VM_LOCK s = (let (r, s1) = vm_lock K s in (r, Out_none, s1))"
| "device_ioctl K IOCTL_VM_UNLOCK s = (let (r, s1) = vm_unlock K s in (r, Out_none, s1))"
| "device_ioctl K (IOCTL_READ_PAGE page) s =
     (0, Out_page (page\<lparr>pg_buffer :=
           read_bytes (phys s) (page_address K (pg_pfn page)) (unat real_page_size)\<rparr>), s)"
| "device_ioctl K (IOCTL_WRITE_PAGE page) s =
     (0, Out_none, s\<lparr>phys := write_bytes (phys s) (page_address K (pg_pfn page))
                              (take (unat real_page_size) (pg_buffer page))\<rparr>)"
| "device_ioctl K (IOCTL_GET_ROOT paging) s = get_root K paging s"
| "device_ioctl K (IOCTL_SET_ROOT paging) s =
     (let (r, s1) = set_root K paging s in (r, Out_none, s1))"
| "device_ioctl K IOCTL_GET_PAGESIZE s = (sint real_page_size, Out_none, s)"
| "device_ioctl K (IOCTL_INVALIDATE_TLB param) s = (0, Out_none, invalidate_tlb K param s)"
| "device_ioctl K IOCTL_GET_PAT s = (0, Out_pat (get_pat K s), s)"
| "device_ioctl K (IOCTL_SET_PAT param) s = (0, Out_none, set_pat K param s)"
| "device_ioctl K (IOCTL_SWITCH_TLB_INVALIDATION param) s =
     (let (r, s1) = switch_tlb_invalidation param s in (r, Out_none, s1))"
| "device_ioctl K IOCTL_OTHER s = (-1, Out_none, s)"

subsection \<open>Loading and unloading\<close>

text \<open>The return probe on \<open>devmem_is_allowed\<close>: the register holding its result, before and
  after.\<close>

definition devmem_bypass :: "u64 \<Rightarrow> u64" where
  "devmem_bypass ax = (if ax = 0 then 1 else ax)"

definition init_probe :: "kernel \<Rightarrow> kstate \<Rightarrow> kstate" where
  "init_probe K s =
     (if k_register_kretprobe K < 0
      then log_event (Pr_alert ''Could not bypass /dev/mem restriction'') s
      else (log_event (Pr_info ''/dev/mem is now superuser read-/writable'') s)
             \<lparr>kretprobe_registered := True\<rparr>)"

definition init_umem :: "kernel \<Rightarrow> kstate \<Rightarrow> kstate" where
  "init_umem K s =
     (if k_kallsyms K ''memory_lseek'' = 0 \<or> k_kallsyms K ''read_mem'' = 0
         \<or> k_kallsyms K ''write_mem'' = 0 \<or> k_kallsyms K ''mmap_mem'' = 0
      then log_event (Pr_alert ''Could not create unprivileged memory access'') s
      else (log_event (Pr_info ''Unprivileged memory access via /proc/umem set up'')
              (s\<lparr>umem_entry := True\<rparr>))\<lparr>has_umem := True\<rparr>)"

definition pteditor_init :: "kernel \<Rightarrow> kstate \<Rightarrow> int \<times> kstate" where
  "pteditor_init K s =
     (if k_kprobe_addr K = 0
      then (- ENXIO, log_event (Pr_alert ''Could not retrieve kallsyms_lookup_name address'') s)
      else if k_misc_register K \<noteq> 0
      then (- ENXIO, log_event (Pr_alert ''Failed registering device'') s)
      else let s1 = s\<lparr>misc_registered := True,
                      flush_tlb_mm_range_func := k_kallsyms K ''flush_tlb_mm_range''\<rparr> in
      if flush_tlb_mm_range_func s1 = 0
      then (- ENXIO, log_event (Pr_alert ''Could not retrieve flush_tlb_mm_range function'') s1)
      else let s2 = s1\<lparr>invalidate_tlb_p := Some Invalidate_tlb_kernel\<rparr>;
               s3 = (if k_invpcid_single K then s2
                     else s2\<lparr>native_write_cr4_func := k_kallsyms K ''native_write_cr4''\<rparr>) in
      if \<not> k_invpcid_single K \<and> native_write_cr4_func s3 = 0
      then (- ENXIO, log_event (Pr_alert ''Could not retrieve native_write_cr4 function'') s3)
      else (0, log_event (Pr_info ''Loaded.'') (init_umem K (init_probe K s3))))"

definition pteditor_exit :: "kstate \<Rightarrow> kstate" where
  "pteditor_exit s =
     (let s1 = s\<lparr>misc_registered := False, kretprobe_registered := False\<rparr>;
          s2 = (if has_umem s1
                then (log_event (Pr_info ''Remove unprivileged memory access'') s1)
                       \<lparr>umem_entry := False\<rparr>
                else s1)
      in log_event (Pr_info ''Removed.'') s2)"

subsection \<open>The log of kernel calls\<close>

text \<open>TLB invalidation only logs; these are the calls it makes.\<close>

definition flush_events :: "kernel \<Rightarrow> u64 \<Rightarrow> tlb_fn option \<Rightarrow> kevent list" where
  "flush_events K addr p =
     (case p of
        Some Invalidate_tlb_kernel \<Rightarrow>
          [Flush_tlb_mm_range (get_mm K (k_task_pid_nr K (k_current K))) addr
             (addr + int_to_size real_page_size) real_page_shift]
      | Some Invalidate_tlb_custom \<Rightarrow>
          concat (map (\<lambda>cpu.
            if k_invpcid_single K then map (\<lambda>pcid. Invpcid_flush_one cpu pcid addr) [0..<4096]
            else [Write_cr4 cpu (k_read_cr4 K cpu AND NOT X86_CR4_PGE),
                  Write_cr4 cpu (k_read_cr4 K cpu)]) [0..<k_ncpus K])
      | None \<Rightarrow> [Oops])"

definition log_events :: "kevent list \<Rightarrow> kstate \<Rightarrow> kstate" where
  "log_events es s = s\<lparr>events := events s @ es\<rparr>"

lemma log_event_log_events: "log_event e = log_events [e]"
  by (simp add: log_event_def log_events_def fun_eq_iff)

lemma log_events_append [simp]: "log_events fs (log_events es s) = log_events (es @ fs) s"
  by (simp add: log_events_def)

lemma log_events_Nil [simp]: "log_events [] s = s"
  by (simp add: log_events_def)

lemma log_events_simps [simp]:
  "phys (log_events es s) = phys s"
  "mm_pgd (log_events es s) = mm_pgd s"
  "mm_is_locked (log_events es s) = mm_is_locked s"
  "invalidate_tlb_p (log_events es s) = invalidate_tlb_p s"
  "misc_registered (log_events es s) = misc_registered s"
  "device_busy (log_events es s) = device_busy s"
  "flush_tlb_mm_range_func (log_events es s) = flush_tlb_mm_range_func s"
  "has_umem (log_events es s) = has_umem s"
  "umem_entry (log_events es s) = umem_entry s"
  "kretprobe_registered (log_events es s) = kretprobe_registered s"
  "pat_msr (log_events es s) = pat_msr s"
  "events (log_events es s) = events s @ es"
  by (simp_all add: log_events_def)

lemma fold_log_events: "fold (\<lambda>x. log_events (f x)) xs s = log_events (concat (map f xs)) s"
  by (induction xs arbitrary: s) simp_all

lemma invalidate_tlb_cpu_log:
  "invalidate_tlb_cpu K addr cpu s = log_events
     (if k_invpcid_single K then map (\<lambda>pcid. Invpcid_flush_one cpu pcid addr) [0..<4096]
      else [Write_cr4 cpu (k_read_cr4 K cpu AND NOT X86_CR4_PGE),
            Write_cr4 cpu (k_read_cr4 K cpu)]) s"
  by (simp add: invalidate_tlb_cpu_def fold_log_events log_event_log_events Let_def
      concat_map_singleton del: upt_rec_numeral)

lemma invalidate_tlb_custom_log:
  "invalidate_tlb_custom K addr s =
     log_events (flush_events K addr (Some Invalidate_tlb_custom)) s"
  unfolding invalidate_tlb_custom_def on_each_cpu_def flush_events_def option.case tlb_fn.case
    fold_log_events [symmetric] by (simp only: invalidate_tlb_cpu_log [abs_def])

lemma invalidate_tlb_log:
  "invalidate_tlb K addr s = log_events (flush_events K addr (invalidate_tlb_p s)) s"
  by (simp add: invalidate_tlb_def invalidate_tlb_custom_log invalidate_tlb_kernel_def
      log_event_log_events flush_events_def split: option.split tlb_fn.split)

subsection \<open>Lock discipline\<close>

text \<open>
  What one thread may do with the \<open>mmap\<close> locks: the readers and the writer it holds per \<open>mm\<close>.
  A lock that waits for the thread itself, or an unlock of a lock not held, has no result.
\<close>

type_synonym holding = "mm \<Rightarrow> nat \<times> bool"

definition no_locks :: holding where "no_locks = (\<lambda>_. (0, False))"

fun lock_step :: "kevent \<Rightarrow> holding \<Rightarrow> holding option" where
  "lock_step (Mmap_read_lock mm) h =
     (if snd (h mm) then None else Some (h(mm := (fst (h mm) + 1, False))))"
| "lock_step (Mmap_write_lock mm) h =
     (if snd (h mm) \<or> fst (h mm) \<noteq> 0 then None else Some (h(mm := (0, True))))"
| "lock_step (Mmap_read_unlock mm) h =
     (if fst (h mm) = 0 then None else Some (h(mm := (fst (h mm) - 1, snd (h mm)))))"
| "lock_step (Mmap_write_unlock mm) h =
     (if \<not> snd (h mm) then None else Some (h(mm := (fst (h mm), False))))"
| "lock_step _ h = Some h"

fun lock_run :: "kevent list \<Rightarrow> holding \<Rightarrow> holding option" where
  "lock_run [] h = Some h"
| "lock_run (e # es) h = lock_step e h \<bind> lock_run es"

fun is_lock_call :: "kevent \<Rightarrow> bool" where
  "is_lock_call (Mmap_read_lock _) = True"
| "is_lock_call (Mmap_write_lock _) = True"
| "is_lock_call (Mmap_read_unlock _) = True"
| "is_lock_call (Mmap_write_unlock _) = True"
| "is_lock_call _ = False"

lemma lock_run_append: "lock_run (es @ fs) h = lock_run es h \<bind> lock_run fs"
proof (induction es arbitrary: h)
  case (Cons e es)
  then show ?case by (cases "lock_step e h") simp_all
qed simp

lemma lock_step_other: "\<not> is_lock_call e \<Longrightarrow> lock_step e h = Some h"
  by (cases e) simp_all

lemma lock_run_other: "\<forall>e\<in>set es. \<not> is_lock_call e \<Longrightarrow> lock_run es h = Some h"
  by (induction es) (simp_all add: lock_step_other)

lemma flush_events_no_lock: "\<forall>e\<in>set (flush_events K addr p). \<not> is_lock_call e"
  by (auto simp: flush_events_def split: option.splits tlb_fn.splits if_splits)

lemmas lock_run_flush [simp] = lock_run_other [OF flush_events_no_lock]

subsection \<open>Closed forms of the handlers\<close>

text \<open>The entry of \<open>resolve_vm\<close> before the walk.\<close>

definition empty_vm :: "u64 \<Rightarrow> vm_t" where
  "empty_vm pid = \<lparr>vm_pid = pid, vm_pgd = 0, vm_p4d = 0, vm_pud = 0, vm_pmd = 0, vm_pte = 0,
                   vm_valid = 0\<rparr>"

definition walk_vm :: "kernel \<Rightarrow> kstate \<Rightarrow> mm \<Rightarrow> u64 \<Rightarrow> u64 \<Rightarrow> vm_t" where
  "walk_vm K s mm pid addr = snd (resolve_walk K (phys s) (mm_pgd s mm) addr (empty_vm pid))"

definition both_valid :: "nat \<Rightarrow> vm_t \<Rightarrow> ptedit_entry_t \<Rightarrow> bool" where
  "both_valid k old new \<longleftrightarrow> bit (vm_valid old) k \<and> bit (e_valid new) k"

definition update_phys :: "kernel \<Rightarrow> vm_t \<Rightarrow> ptedit_entry_t \<Rightarrow> mem \<Rightarrow> mem" where
  "update_phys K old new =
     (if both_valid 4 old new then k_set_pte K (vm_pte old) (e_pte new) else id)
   \<circ> (if both_valid 3 old new then k_set_pmd K (vm_pmd old) (e_pmd new) else id)
   \<circ> (if both_valid 2 old new then k_set_pud K (vm_pud old) (e_pud new) else id)
   \<circ> (if both_valid 1 old new then k_set_p4d K (vm_p4d old) (e_p4d new) else id)
   \<circ> (if both_valid 0 old new then k_set_pgd K (vm_pgd old) (e_pgd new) else id)"

definition update_warnings :: "vm_t \<Rightarrow> ptedit_entry_t \<Rightarrow> kevent list" where
  "update_warnings old new =
     (if both_valid 0 old new then [Pr_warn ''Updating PGD''] else [])
   @ (if both_valid 1 old new then [Pr_warn ''Updating P4D''] else [])
   @ (if both_valid 2 old new then [Pr_warn ''Updating PUD''] else [])
   @ (if both_valid 3 old new then [Pr_warn ''Updating PMD''] else [])
   @ (if both_valid 4 old new then [Pr_warn ''Updating PTE''] else [])"

lemma update_warnings_no_lock: "\<forall>e\<in>set (update_warnings old new). \<not> is_lock_call e"
  by (auto simp: update_warnings_def)

lemmas lock_run_warnings [simp] = lock_run_other [OF update_warnings_no_lock]

lemma log_events_phys [simp]:
  "(log_events es s)\<lparr>phys := m\<rparr> = log_events es (s\<lparr>phys := m\<rparr>)"
  "(log_events es s)\<lparr>mm_pgd := p\<rparr> = log_events es (s\<lparr>mm_pgd := p\<rparr>)"
  by (simp_all add: log_events_def)

lemma resolve_vm_eq:
  "resolve_vm K addr (empty_vm pid) lock s =
     (case get_mm K pid of
        None \<Rightarrow> (1, empty_vm pid, s)
      | Some mm \<Rightarrow>
          (fst (resolve_walk K (phys s) (mm_pgd s mm) addr (empty_vm pid)),
           walk_vm K s mm pid addr,
           log_events (if lock then [Mmap_read_lock mm, Mmap_read_unlock mm] else []) s))"
  by (simp add: resolve_vm_def walk_vm_def empty_vm_def log_event_log_events Let_def
      split: option.split prod.split)

lemma update_level_eq:
  "update_level PTEDIT_VALID_MASK_PGD old new msg wr s =
     (if both_valid 0 old new then log_events [Pr_warn msg] (s\<lparr>phys := wr (phys s)\<rparr>) else s)"
  "update_level PTEDIT_VALID_MASK_P4D old new msg wr s =
     (if both_valid 1 old new then log_events [Pr_warn msg] (s\<lparr>phys := wr (phys s)\<rparr>) else s)"
  "update_level PTEDIT_VALID_MASK_PUD old new msg wr s =
     (if both_valid 2 old new then log_events [Pr_warn msg] (s\<lparr>phys := wr (phys s)\<rparr>) else s)"
  "update_level PTEDIT_VALID_MASK_PMD old new msg wr s =
     (if both_valid 3 old new then log_events [Pr_warn msg] (s\<lparr>phys := wr (phys s)\<rparr>) else s)"
  "update_level PTEDIT_VALID_MASK_PTE old new msg wr s =
     (if both_valid 4 old new then log_events [Pr_warn msg] (s\<lparr>phys := wr (phys s)\<rparr>) else s)"
  by (simp_all add: update_level_def both_valid_def log_event_log_events Let_def)

lemma log_if: "(if b then log_events es s else s) = log_events (if b then es else []) s"
  by simp

lemma phys_if: "(if b then log_events es (s\<lparr>phys := wr (phys s)\<rparr>) else s) =
    log_events (if b then es else []) (s\<lparr>phys := (if b then wr else id) (phys s)\<rparr>)"
  by simp

lemma update_vm_eq:
  "update_vm K new lock s =
     (case get_mm K (e_pid new) of
        None \<Rightarrow> (1, s)
      | Some mm \<Rightarrow>
          let old = walk_vm K s mm (e_pid new) (e_vaddr new) in
          (0, log_events
            ((if lock then [Mmap_write_lock mm] else []) @ update_warnings old new
             @ flush_events K (e_vaddr new) (invalidate_tlb_p s)
             @ (if lock then [Mmap_write_unlock mm] else []))
            (s\<lparr>phys := update_phys K old new (phys s)\<rparr>)))"
proof (cases "get_mm K (e_pid new)")
  case (Some mm)
  have walk: "walk_vm K (log_events es s) mm p a = walk_vm K s mm p a" for es p a
    by (simp add: walk_vm_def)
  show ?thesis
    unfolding update_vm_def Some option.case Let_def empty_vm_def [symmetric] resolve_vm_eq
      update_level_eq invalidate_tlb_log log_event_log_events phys_if
    by (simp add: log_if walk update_phys_def update_warnings_def if_distrib [of invalidate_tlb_p])
next
  case None
  then show ?thesis by (simp add: update_vm_def Let_def)
qed

subsection \<open>The kernel's page-table interface\<close>

text \<open>Physical memory inside the kernel's direct mapping (64 TiB with four-level paging), and the
  entries whose table lies there.\<close>

definition direct :: "u64 \<Rightarrow> bool" where
  "direct a \<longleftrightarrow> unat a < 2 ^ 46"

text \<open>
  What the module relies on of Linux on x86-64 with four-level paging: the offset functions
  return non-null pointers to the slots, the fifth level is folded, an entry the kernel calls
  \<open>none\<close> is not present, \<open>set_pte\<close> and \<open>set_pmd\<close> store the entry, and the direct mapping can be undone.
\<close>

locale linux_paging =
  fixes K :: kernel
  assumes pgd_at: "direct (k_virt_to_phys K pgd) \<Longrightarrow>
      k_virt_to_phys K (k_pgd_offset K pgd a) = slot (k_virt_to_phys K pgd) 3 a
      \<and> (take_bit 12 (k_virt_to_phys K pgd) = 0 \<longrightarrow> k_pgd_offset K pgd a \<noteq> 0)"
    and p4d_at: "k_p4d_offset K m p a = p"
    and pud_at: "bit (kread K m p) 0 \<Longrightarrow> direct (table_base (kread K m p)) \<Longrightarrow>
      k_virt_to_phys K (k_pud_offset K m p a) = slot (table_base (kread K m p)) 2 a
      \<and> k_pud_offset K m p a \<noteq> 0"
    and pmd_at: "bit (kread K m p) 0 \<Longrightarrow> \<not> bit (kread K m p) 7 \<Longrightarrow>
      direct (table_base (kread K m p)) \<Longrightarrow>
      k_virt_to_phys K (k_pmd_offset K m p a) = slot (table_base (kread K m p)) 1 a
      \<and> k_pmd_offset K m p a \<noteq> 0"
    and pte_at: "bit (kread K m p) 0 \<Longrightarrow> \<not> bit (kread K m p) 7 \<Longrightarrow>
      direct (table_base (kread K m p)) \<Longrightarrow>
      k_virt_to_phys K (k_pte_offset_map K m p a) = slot (table_base (kread K m p)) 0 a
      \<and> k_pte_offset_map K m p a \<noteq> 0"
    and pgd_folded: "\<not> k_pgd_none K e" "\<not> k_pgd_bad K e"
    and none_absent: "k_p4d_none K e \<Longrightarrow> \<not> bit e 0" "k_pud_none K e \<Longrightarrow> \<not> bit e 0"
      "k_pmd_none K e \<Longrightarrow> \<not> bit e 0"
    and large_iff: "bit e 0 \<Longrightarrow> k_pud_large K e \<longleftrightarrow> bit e 7"
      "bit e 0 \<Longrightarrow> k_pmd_large K e \<longleftrightarrow> bit e 7"
    and set_pte_at: "k_set_pte K p v m = store64 m (k_virt_to_phys K p) v"
    and set_pmd_at: "k_set_pmd K p v m = store64 m (k_virt_to_phys K p) v"
    and direct_map: "direct a \<Longrightarrow> k_virt_to_phys K (k_phys_to_virt K a) = a"

text \<open>The tables a process has for an address: on the way down every entry is either empty or
  present, and a present one points into the direct mapping.\<close>

definition regular_walk :: "kernel \<Rightarrow> mem \<Rightarrow> u64 \<Rightarrow> u64 \<Rightarrow> bool" where
  "regular_walk K m root a \<longleftrightarrow>
     (let e3 = load64 m (pgd_slot root a); e2 = load64 m (pud_slot m root a);
          e1 = load64 m (pmd_slot m root a)
      in direct root \<and> take_bit 12 root = 0 \<and>
         (k_p4d_none K e3 \<or> bit e3 0 \<and> \<not> k_p4d_bad K e3 \<and> direct (table_base e3) \<and>
           (k_pud_none K e2 \<or> bit e2 0 \<and> (bit e2 7 \<or> direct (table_base e2) \<and>
             (k_pmd_none K e1 \<or> bit e1 0 \<and> (bit e1 7 \<or> direct (table_base e1)))))))"

text \<open>The mask \<open>resolve_vm\<close> reports: the level that stops the walk is not valid, except the
  folded first one.\<close>

definition walk_valid :: "mem \<Rightarrow> u64 \<Rightarrow> u64 \<Rightarrow> u64" where
  "walk_valid m root a =
     (if \<not> bit (load64 m (pgd_slot root a)) 0 then 1
      else if \<not> bit (load64 m (pud_slot m root a)) 0 then 3
      else if bit (load64 m (pud_slot m root a)) 7 \<or> \<not> bit (load64 m (pmd_slot m root a)) 0 then 7
      else if bit (load64 m (pmd_slot m root a)) 7 then 15 else 31)"

context linux_paging
begin

abbreviation phys_of :: "u64 \<Rightarrow> u64" where "phys_of \<equiv> k_virt_to_phys K"

text \<open>The pointers of the walk, from the top.\<close>

lemma ptr_pgd:
  assumes "regular_walk K m (phys_of pgd) a"
  shows "phys_of (k_pgd_offset K pgd a) = pgd_slot (phys_of pgd) a" "k_pgd_offset K pgd a \<noteq> 0"
  using assms pgd_at by (auto simp: regular_walk_def Let_def pgd_slot_def)

lemma ptr_pud:
  assumes "regular_walk K m (phys_of pgd) a" "bit (load64 m (pgd_slot (phys_of pgd) a)) 0"
  defines "p \<equiv> k_pud_offset K m (k_pgd_offset K pgd a) a"
  shows "phys_of p = pud_slot m (phys_of pgd) a" "p \<noteq> 0"
  using assms none_absent pud_at [of m "k_pgd_offset K pgd a" a] ptr_pgd [OF assms(1)]
  by (auto simp: regular_walk_def Let_def kread_def pud_slot_def p_def)

lemma ptr_pmd:
  assumes "regular_walk K m (phys_of pgd) a" "bit (load64 m (pgd_slot (phys_of pgd) a)) 0"
    "bit (load64 m (pud_slot m (phys_of pgd) a)) 0"
    "\<not> bit (load64 m (pud_slot m (phys_of pgd) a)) 7"
  defines "p \<equiv> k_pmd_offset K m (k_pud_offset K m (k_pgd_offset K pgd a) a) a"
  shows "phys_of p = pmd_slot m (phys_of pgd) a" "p \<noteq> 0"
  using assms none_absent pmd_at [of m "k_pud_offset K m (k_pgd_offset K pgd a) a" a]
    ptr_pud [OF assms(1,2)]
  by (auto simp: regular_walk_def Let_def kread_def pmd_slot_def p_def)

lemma ptr_pte:
  assumes "regular_walk K m (phys_of pgd) a" "reaches_pte m (phys_of pgd) a"
  defines "p \<equiv> k_pte_offset_map K m
    (k_pmd_offset K m (k_pud_offset K m (k_pgd_offset K pgd a) a) a) a"
  shows "phys_of p = pte_slot m (phys_of pgd) a" "p \<noteq> 0"
  using assms none_absent ptr_pmd [OF assms(1)]
    pte_at [of m "k_pmd_offset K m (k_pud_offset K m (k_pgd_offset K pgd a) a) a" a]
  by (auto simp: regular_walk_def reaches_pte_def Let_def kread_def pte_slot_def p_def)

lemma resolve_walk_eq:
  fixes pgd m a
  defines "root \<equiv> phys_of pgd"
  defines "e3 \<equiv> load64 m (pgd_slot root a)" and "e2 \<equiv> load64 m (pud_slot m root a)"
    and "e1 \<equiv> load64 m (pmd_slot m root a)" and "p3 \<equiv> k_pgd_offset K pgd a"
  defines "p2 \<equiv> k_pud_offset K m p3 a"
  defines "p1 \<equiv> k_pmd_offset K m p2 a"
  assumes reg: "regular_walk K m root a"
  shows "resolve_walk K m pgd a (empty_vm pid) =
    (if reaches_pte m root a then 0 else 1,
     \<lparr>vm_pid = pid, vm_pgd = p3, vm_p4d = (if bit e3 0 then p3 else 0),
      vm_pud = (if bit e3 0 \<and> bit e2 0 then p2 else 0),
      vm_pmd = (if bit e3 0 \<and> bit e2 0 \<and> \<not> bit e2 7 \<and> bit e1 0 then p1 else 0),
      vm_pte = (if reaches_pte m root a then k_pte_offset_map K m p1 a else 0),
      vm_valid = walk_valid m root a\<rparr>)"
proof -
  note reg' = reg [unfolded root_def]
  have k3: "kread K m p3 = e3"
    using ptr_pgd [OF reg'] by (simp add: kread_def p3_def e3_def root_def)
  have k2: "bit e3 0 \<Longrightarrow> kread K m p2 = e2"
    using ptr_pud [OF reg'] by (simp add: kread_def p2_def p3_def e2_def e3_def root_def)
  have k1: "bit e3 0 \<Longrightarrow> bit e2 0 \<Longrightarrow> \<not> bit e2 7 \<Longrightarrow> kread K m p1 = e1"
    using ptr_pmd [OF reg']
    by (simp add: kread_def p1_def p2_def p3_def e1_def e2_def e3_def root_def)
  have p0: "reaches_pte m root a \<Longrightarrow> k_pte_offset_map K m p1 a \<noteq> 0"
    using ptr_pte [OF reg'] by (simp add: p1_def p2_def p3_def root_def)
  have n3: "bit e3 0 \<Longrightarrow> \<not> k_p4d_none K e3 \<and> \<not> k_p4d_bad K e3"
    and n2: "bit e2 0 \<Longrightarrow> \<not> k_pud_none K e2" and n1: "bit e1 0 \<Longrightarrow> \<not> k_pmd_none K e1"
    and a3: "\<not> bit e3 0 \<Longrightarrow> k_p4d_none K e3"
    and a2: "bit e3 0 \<Longrightarrow> \<not> bit e2 0 \<Longrightarrow> k_pud_none K e2"
    and a1: "bit e3 0 \<Longrightarrow> bit e2 0 \<Longrightarrow> \<not> bit e2 7 \<Longrightarrow> \<not> bit e1 0 \<Longrightarrow> k_pmd_none K e1"
    using reg none_absent by (auto simp: regular_walk_def Let_def e3_def e2_def e1_def)
  have reach: "reaches_pte m root a \<longleftrightarrow>
      bit e3 0 \<and> bit e2 0 \<and> \<not> bit e2 7 \<and> bit e1 0 \<and> \<not> bit e1 7"
    by (simp add: reaches_pte_def e3_def e2_def e1_def)
  have valid: "walk_valid m root a =
      (if \<not> bit e3 0 then 1 else if \<not> bit e2 0 then 3
       else if bit e2 7 \<or> \<not> bit e1 0 then 7 else if bit e1 7 then 15 else 31)"
    by (simp add: walk_valid_def e3_def e2_def e1_def)
  have masks: "PTEDIT_VALID_MASK_PGD = 1" "(1::u64) OR PTEDIT_VALID_MASK_P4D = 3"
      "(3::u64) OR PTEDIT_VALID_MASK_PUD = 7" "(7::u64) OR PTEDIT_VALID_MASK_PMD = 15"
      "(15::u64) OR PTEDIT_VALID_MASK_PTE = 31"
    by (simp_all add: valid_masks)
  show ?thesis
    unfolding resolve_walk_def Let_def p3_def [symmetric] k3 p4d_at p2_def [symmetric]
      p1_def [symmetric] empty_vm_def
    using p0 reach
    by (cases "bit e3 0"; cases "bit e2 0"; cases "bit e2 7"; cases "bit e1 0"; cases "bit e1 7")
      (simp_all add: pgd_folded k2 k1 a1 a2 a3 n1 n2 n3 large_iff valid masks)
qed

end

subsection \<open>Resolving and updating an entry\<close>

text \<open>The walk reaches a present entry of the second level from the bottom, a table or a 2 MiB page.\<close>

definition reaches_pmd :: "mem \<Rightarrow> u64 \<Rightarrow> u64 \<Rightarrow> bool" where
  "reaches_pmd m root a \<longleftrightarrow> bit (load64 m (pgd_slot root a)) 0 \<and> bit (load64 m (pud_slot m root a)) 0
     \<and> \<not> bit (load64 m (pud_slot m root a)) 7 \<and> bit (load64 m (pmd_slot m root a)) 0"

text \<open>What user space gets back: the loaded entry where the mask is set, its own value elsewhere.\<close>

definition resolved_entry :: "mem \<Rightarrow> u64 \<Rightarrow> ptedit_entry_t \<Rightarrow> ptedit_entry_t" where
  "resolved_entry m root u =
     (let a = e_vaddr u; v = walk_valid m root a in
      u\<lparr>e_pgd := load64 m (pgd_slot root a),
        e_p4d := (if bit v 1 then load64 m (pgd_slot root a) else e_p4d u),
        e_pud := (if bit v 2 then load64 m (pud_slot m root a) else e_pud u),
        e_pmd := (if bit v 3 then load64 m (pmd_slot m root a) else e_pmd u),
        e_pte := (if bit v 4 then load64 m (pte_slot m root a) else e_pte u),
        e_valid := v\<rparr>)"

lemma walk_valid_bits:
  "bit (walk_valid m root a) 0"
  "bit (walk_valid m root a) 1 \<longleftrightarrow> bit (load64 m (pgd_slot root a)) 0"
  "bit (walk_valid m root a) 2 \<longleftrightarrow>
     bit (load64 m (pgd_slot root a)) 0 \<and> bit (load64 m (pud_slot m root a)) 0"
  "bit (walk_valid m root a) 3 \<longleftrightarrow>
     bit (load64 m (pgd_slot root a)) 0 \<and> bit (load64 m (pud_slot m root a)) 0
     \<and> \<not> bit (load64 m (pud_slot m root a)) 7 \<and> bit (load64 m (pmd_slot m root a)) 0"
  "bit (walk_valid m root a) 4 \<longleftrightarrow> reaches_pte m root a"
  by (simp_all add: walk_valid_def reaches_pte_def bit_numeral_rec(2) numeral_eq_Suc)

context linux_paging
begin

lemma vm_to_user_walk:
  assumes reg: "regular_walk K m (phys_of pgd) (e_vaddr u)"
  shows "vm_to_user K m u (snd (resolve_walk K m pgd (e_vaddr u) (empty_vm pid))) =
           resolved_entry m (phys_of pgd) u"
proof -
  note ptrs = ptr_pgd [OF reg] ptr_pud [OF reg] ptr_pmd [OF reg] ptr_pte [OF reg]
  show ?thesis
    unfolding resolve_walk_eq [OF reg] vm_to_user_def resolved_entry_def Let_def
    by (auto simp: ptrs walk_valid_bits walk_valid_bits(2) [unfolded One_nat_def] kread_def
        reaches_pte_def)
qed

lemma resolve_ioctl:
  assumes "get_mm K (e_pid u) = Some mm" "regular_walk K (phys s) (phys_of (mm_pgd s mm)) (e_vaddr u)"
  shows "device_ioctl K (IOCTL_VM_RESOLVE u) s =
    (0, Out_entry (resolved_entry (phys s) (phys_of (mm_pgd s mm)) u),
     log_events (if mm_is_locked s then [] else [Mmap_read_lock mm, Mmap_read_unlock mm]) s)"
  using vm_to_user_walk [OF assms(2)]
  by (simp add: resolve_vm_eq [unfolded empty_vm_def] assms(1) walk_vm_def empty_vm_def)

lemma update_ioctl:
  assumes "get_mm K (e_pid u) = Some mm"
    "regular_walk K (phys s) (phys_of (mm_pgd s mm)) (e_vaddr u)"
    "e_valid u = PTEDIT_VALID_MASK_PTE" "reaches_pte (phys s) (phys_of (mm_pgd s mm)) (e_vaddr u)"
  defines "p \<equiv> pte_slot (phys s) (phys_of (mm_pgd s mm)) (e_vaddr u)"
  shows "device_ioctl K (IOCTL_VM_UPDATE u) s =
    (0, Out_none, log_events
      ((if mm_is_locked s then [] else [Mmap_write_lock mm]) @ [Pr_warn ''Updating PTE'']
       @ flush_events K (e_vaddr u) (invalidate_tlb_p s)
       @ (if mm_is_locked s then [] else [Mmap_write_unlock mm]))
      (s\<lparr>phys := store64 (phys s) p (e_pte u)\<rparr>))"
proof -
  let ?old = "walk_vm K s mm (e_pid u) (e_vaddr u)"
  have old: "bit (vm_valid ?old) 4" "phys_of (vm_pte ?old) = p"
    using assms(4) ptr_pte [OF assms(2,4)]
    by (simp_all add: walk_vm_def resolve_walk_eq [OF assms(2)] walk_valid_bits p_def)
  have "both_valid k ?old u \<longleftrightarrow> k = 4" for k
    using old(1) by (auto simp: both_valid_def assms(3) bit_valid_masks)
  then show ?thesis
    by (simp add: update_vm_eq assms(1) Let_def update_phys_def update_warnings_def set_pte_at old(2))
qed

lemma update_pmd_ioctl:
  assumes "get_mm K (e_pid u) = Some mm"
    "regular_walk K (phys s) (phys_of (mm_pgd s mm)) (e_vaddr u)"
    "e_valid u = PTEDIT_VALID_MASK_PMD" "reaches_pmd (phys s) (phys_of (mm_pgd s mm)) (e_vaddr u)"
  defines "p \<equiv> pmd_slot (phys s) (phys_of (mm_pgd s mm)) (e_vaddr u)"
  shows "\<exists>es. device_ioctl K (IOCTL_VM_UPDATE u) s =
    (0, Out_none, log_events es (s\<lparr>phys := store64 (phys s) p (e_pmd u)\<rparr>))"
proof -
  let ?old = "walk_vm K s mm (e_pid u) (e_vaddr u)"
  have old: "bit (vm_valid ?old) 3" "phys_of (vm_pmd ?old) = p"
    using assms(4) ptr_pmd [OF assms(2)]
    by (simp_all add: walk_vm_def resolve_walk_eq [OF assms(2)] walk_valid_bits p_def reaches_pmd_def)
  have "both_valid k ?old u \<longleftrightarrow> k = 3" for k
    using old(1) by (auto simp: both_valid_def assms(3) bit_valid_masks)
  then show ?thesis
    by (auto simp: update_vm_eq assms(1) Let_def update_phys_def update_warnings_def set_pmd_at old(2))
qed

end

subsection \<open>An instance of the interface\<close>

text \<open>
  The x86-64 instance of the contract: the direct mapping at its documented address, tables
  found through it, and a process whose pid is below \<open>procs\<close> for every task.
\<close>

definition PAGE_OFFSET :: u64 where "PAGE_OFFSET = 0xffff888000000000"

text \<open>An empty entry, up to the accessed and dirty bits.\<close>

definition entry_none :: "u64 \<Rightarrow> bool" where
  "entry_none e \<longleftrightarrow> e AND NOT 0x60 = 0"

definition linux_x86 :: "task \<Rightarrow> nat \<Rightarrow> kernel" where
  "linux_x86 cur procs = \<lparr>
     k_current = cur,
     k_find_vpid = (\<lambda>p. if unat p < procs then Some (unat p) else None),
     k_pid_task = Some, k_task_pid_nr = of_nat, k_task_mm = Some, k_task_active_mm = Some,
     k_virt_to_phys = (\<lambda>p. p - PAGE_OFFSET), k_phys_to_virt = (\<lambda>a. a + PAGE_OFFSET),
     k_pgd_offset = (\<lambda>pgd a. slot (pgd - PAGE_OFFSET) 3 a + PAGE_OFFSET),
     k_p4d_offset = (\<lambda>m p a. p),
     k_pud_offset = (\<lambda>m p a. slot (table_base (load64 m (p - PAGE_OFFSET))) 2 a + PAGE_OFFSET),
     k_pmd_offset = (\<lambda>m p a. slot (table_base (load64 m (p - PAGE_OFFSET))) 1 a + PAGE_OFFSET),
     k_pte_offset_map =
       (\<lambda>m p a. slot (table_base (load64 m (p - PAGE_OFFSET))) 0 a + PAGE_OFFSET),
     k_pgd_none = (\<lambda>_. False), k_pgd_bad = (\<lambda>_. False),
     k_p4d_none = entry_none, k_p4d_bad = (\<lambda>e. take_bit 12 e AND NOT 0x67 \<noteq> 0),
     k_pud_none = entry_none, k_pud_large = (\<lambda>e. bit e 0 \<and> bit e 7),
     k_pmd_none = entry_none, k_pmd_large = (\<lambda>e. bit e 7),
     k_set_pgd = (\<lambda>p v m. store64 m (p - PAGE_OFFSET) v),
     k_set_p4d = (\<lambda>p v m. store64 m (p - PAGE_OFFSET) v),
     k_set_pud = (\<lambda>p v m. store64 m (p - PAGE_OFFSET) v),
     k_set_pmd = (\<lambda>p v m. store64 m (p - PAGE_OFFSET) v),
     k_set_pte = (\<lambda>p v m. store64 m (p - PAGE_OFFSET) v),
     k_ncpus = 2, k_this_cpu = 0, k_read_cr4 = (\<lambda>_. 0x6f0), k_invpcid_single = True,
     k_kprobe_addr = 1, k_kallsyms = (\<lambda>_. 1), k_misc_register = 0, k_register_kretprobe = 0\<rparr>"

lemma direct_nonnull: "direct p \<Longrightarrow> p + PAGE_OFFSET \<noteq> 0"
proof
  assume "direct p" "p + PAGE_OFFSET = 0"
  then have "p = - PAGE_OFFSET" by (simp add: eq_neg_iff_add_eq_0)
  with \<open>direct p\<close> show False by (simp add: direct_def PAGE_OFFSET_def)
qed

lemma slot_nonnull:
  "take_bit 12 base = 0 \<Longrightarrow> direct base \<Longrightarrow> slot base l a + PAGE_OFFSET \<noteq> 0"
  using direct_nonnull slot_direct unfolding direct_def by blast

lemma none_bit0:
  assumes "entry_none e" shows "\<not> bit e 0"
proof -
  have "bit (e AND NOT 0x60) 0 = bit e 0" unfolding bit_and_iff bit_not_iff by simp
  then show ?thesis using assms unfolding entry_none_def by (metis bit_0_eq bot_apply bot_bool_def)
qed

interpretation linux_x86: linux_paging "linux_x86 cur procs" for cur procs
  by unfold_locales
    (auto simp: linux_x86_def kread_def slot_nonnull dest: none_bit0)

lemma linux_x86_get_mm [simp]:
  "get_mm (linux_x86 cur procs) pid =
     (if pid = 0 then Some cur else if unat pid < procs then Some (unat pid) else None)"
  by (simp add: get_mm_def linux_x86_def)

text \<open>A module state over the concrete address space, the root of every process being its.\<close>

definition demo_kstate :: kstate where
  "demo_kstate = \<lparr>phys = demo_mem, mm_pgd = (\<lambda>_. demo_root + PAGE_OFFSET), pat_msr = (\<lambda>_. 0x0407050600070106),
     device_busy = False, mm_is_locked = False, invalidate_tlb_p = Some Invalidate_tlb_kernel,
     flush_tlb_mm_range_func = 1, native_write_cr4_func = 0, has_umem = False,
     misc_registered = True, kretprobe_registered = False, umem_entry = False, events = []\<rparr>"

definition demo_entry :: ptedit_entry_t where
  "demo_entry = \<lparr>e_pid = 3, e_vaddr = demo_addr, e_pgd = 0, e_p4d = 0, e_pud = 0, e_pmd = 0,
     e_pte = 0x7027, e_valid = PTEDIT_VALID_MASK_PTE\<rparr>"

lemma demo_regular: "regular_walk (linux_x86 cur procs) demo_mem demo_root demo_addr"
  unfolding regular_walk_def Let_def demo_slots demo_loads
  by (simp add: linux_x86_def direct_def table_base_def field_def demo_root_def)

lemma demo_root_phys: "k_virt_to_phys (linux_x86 cur procs) (mm_pgd demo_kstate mm) = demo_root"
  by (simp add: linux_x86_def demo_kstate_def)

subsection \<open>Lock discipline of the commands\<close>

lemma set_pat_cpu_eq: "set_pat_cpu pat cpu s = s\<lparr>pat_msr := (pat_msr s)(cpu := pat)\<rparr>"
proof -
  have "push_bit 32 (ucast (size_to_int (drop_bit 32 pat AND 0xffffffff)))
      OR ucast (size_to_int (pat AND 0xffffffff)) = pat"
  proof (rule bit_word_eqI)
    have m: "(0xffffffff :: u64) = mask 32" by (simp add: mask_eq_exp_minus_1)
    fix n assume n: "n < LENGTH(64)"
    show "bit (push_bit 32 (ucast (size_to_int (drop_bit 32 pat AND 0xffffffff)))
        OR ucast (size_to_int (pat AND 0xffffffff)) :: u64) n = bit pat n"
      using n unfolding m
      by (cases "n < 32") (auto simp: bit_simps bit_size_to_int bit_ucast_u32)
  qed
  then show ?thesis by (simp add: set_pat_cpu_def Let_def)
qed

lemma set_pat_eq:
  "set_pat K pat s =
     s\<lparr>pat_msr := (\<lambda>cpu. if cpu < k_ncpus K then pat else pat_msr s cpu)\<rparr>"
proof -
  have "fold (set_pat_cpu pat) [0..<n] s =
      s\<lparr>pat_msr := (\<lambda>cpu. if cpu < n then pat else pat_msr s cpu)\<rparr>" for n
    by (induction n) (auto simp: set_pat_cpu_eq fun_eq_iff intro!: arg_cong2 [of _ _ _ _ pat_msr_update])
  then show ?thesis by (simp add: set_pat_def on_each_cpu_def)
qed

lemma with_lock_eq: "with_lock b e s = log_events (if b then [e] else []) s"
  by (simp add: with_lock_def log_event_log_events)

lemma get_root_eq:
  "get_root K pg s =
     (case get_mm K (paging_pid pg) of
        None \<Rightarrow> (1, Out_none, s)
      | Some mm \<Rightarrow>
          (0, Out_paging (pg\<lparr>paging_root := k_virt_to_phys K (mm_pgd s mm)\<rparr>),
           log_events (if mm_is_locked s then [] else [Mmap_read_lock mm, Mmap_read_unlock mm]) s))"
  by (simp add: get_root_def with_lock_eq Let_def split: option.split)

lemma set_root_eq:
  "set_root K pg s =
     (case get_mm K (paging_pid pg) of
        None \<Rightarrow> (1, s)
      | Some mm \<Rightarrow>
          (0, log_events (if mm_is_locked s then [] else [Mmap_write_lock mm, Mmap_write_unlock mm])
                (s\<lparr>mm_pgd := (mm_pgd s)(mm := k_phys_to_virt K (paging_root pg))\<rparr>)))"
  by (simp add: set_root_def with_lock_eq Let_def split: option.split)

lemmas handler_eqs = resolve_vm_eq [unfolded empty_vm_def] update_vm_eq get_root_eq set_root_eq
  invalidate_tlb_log set_pat_eq vm_lock_def vm_unlock_def switch_tlb_invalidation_def
  log_event_log_events Let_def

text \<open>One command, with the lock flag clear: the calls it makes are balanced.\<close>

lemma ioctl_balanced:
  assumes "\<not> mm_is_locked s" "c \<noteq> IOCTL_VM_LOCK"
  shows "\<exists>es. events (snd (snd (device_ioctl K c s))) = events s @ es
             \<and> lock_run es no_locks = Some no_locks
             \<and> \<not> mm_is_locked (snd (snd (device_ioctl K c s)))"
  using assms
  by (cases c) (auto simp: handler_eqs no_locks_def lock_run_append fun_upd_idem
      split: option.split)

fun run_ioctls :: "kernel \<Rightarrow> ioctl_cmd list \<Rightarrow> kstate \<Rightarrow> kstate" where
  "run_ioctls K [] s = s"
| "run_ioctls K (c # cs) s = run_ioctls K cs (snd (snd (device_ioctl K c s)))"

lemma run_ioctls_balanced:
  assumes "\<not> mm_is_locked s" "IOCTL_VM_LOCK \<notin> set cs"
  shows "\<exists>es. events (run_ioctls K cs s) = events s @ es \<and> lock_run es no_locks = Some no_locks
             \<and> \<not> mm_is_locked (run_ioctls K cs s)"
  using assms
proof (induction cs arbitrary: s)
  case (Cons c cs)
  let ?t = "snd (snd (device_ioctl K c s))"
  obtain es where es: "events ?t = events s @ es" "lock_run es no_locks = Some no_locks"
      "\<not> mm_is_locked ?t"
    using ioctl_balanced Cons.prems by (metis list.set_intros(1))
  moreover obtain fs where "events (run_ioctls K cs ?t) = events ?t @ fs"
      "lock_run fs no_locks = Some no_locks" "\<not> mm_is_locked (run_ioctls K cs ?t)"
    using Cons.IH [OF es(3)] Cons.prems by auto
  ultimately show ?case by (auto simp: lock_run_append)
qed auto

text \<open>
  C14. The module's lock discipline: from a state in which the VM is not locked, any sequence of
  commands without \<open>VM_LOCK\<close> acquires and releases the \<open>mmap\<close> locks in a balanced, deadlock-free
  order, ends with no lock held, and never sets \<open>mm_is_locked\<close>.\<close>

theorem ioctls_lock_discipline:
  assumes "\<not> mm_is_locked s" "IOCTL_VM_LOCK \<notin> set cs"
  shows "\<exists>es. events (run_ioctls K cs s) = events s @ es
             \<and> lock_run es no_locks = Some no_locks
             \<and> \<not> mm_is_locked (run_ioctls K cs s)"
  using assms by (rule run_ioctls_balanced)

theorem ioctls_lock_discipline_witness:
  "\<not> mm_is_locked demo_kstate
   \<and> IOCTL_VM_LOCK \<notin> set [IOCTL_VM_RESOLVE demo_entry, IOCTL_VM_UPDATE demo_entry]
   \<and> (\<exists>es. events (run_ioctls (linux_x86 3 9)
             [IOCTL_VM_RESOLVE demo_entry, IOCTL_VM_UPDATE demo_entry] demo_kstate)
           = events demo_kstate @ es
         \<and> lock_run es no_locks = Some no_locks
         \<and> \<not> mm_is_locked (run_ioctls (linux_x86 3 9)
             [IOCTL_VM_RESOLVE demo_entry, IOCTL_VM_UPDATE demo_entry] demo_kstate))"
proof -
  have "\<not> mm_is_locked demo_kstate"
    "IOCTL_VM_LOCK \<notin> set [IOCTL_VM_RESOLVE demo_entry, IOCTL_VM_UPDATE demo_entry]"
    by (simp_all add: demo_kstate_def)
  then show ?thesis using ioctls_lock_discipline by blast
qed

text \<open>
  \<open>VM_LOCK\<close> takes the write lock and then the read lock of the same \<open>mm\<close>: for a thread that
  holds no lock the second call waits for the first one, so the sequence of lock calls has no
  result, on every kernel and in every unlocked state with an active \<open>mm\<close>.\<close>

lemma vm_lock_self_deadlock:
  assumes "\<not> mm_is_locked s" "k_task_active_mm K (k_current K) = Some mm"
  shows "\<exists>es. events (snd (snd (device_ioctl K IOCTL_VM_LOCK s))) = events s @ es
             \<and> lock_run es no_locks = None"
  using assms by (simp add: vm_lock_def log_event_log_events no_locks_def log_events_def)

subsection \<open>An update is what the next resolve returns\<close>

lemma walk_valid_reaches: "reaches_pte m root a \<Longrightarrow> walk_valid m root a = 31"
  by (simp add: walk_valid_def reaches_pte_def)

lemma regular_walk_write_pte:
  assumes "pte_separate m root a"
  shows "regular_walk K (store64 m (pte_slot m root a) v) root a = regular_walk K m root a"
  using assms unfolding pte_separate_def regular_walk_def Let_def
  by (simp add: walk_frame)

lemma regular_walk_same_page:
  "drop_bit 12 a = drop_bit 12 b \<Longrightarrow> regular_walk K m root a = regular_walk K m root b"
  by (simp add: regular_walk_def Let_def slots_same_page [of a b])

lemma reaches_pte_same_page:
  "drop_bit 12 a = drop_bit 12 b \<Longrightarrow> reaches_pte m root a = reaches_pte m root b"
  by (simp add: reaches_pte_def slots_same_page [of a b])

context linux_paging
begin

lemma update_resolve:
  assumes "get_mm K (e_pid u) = Some mm"
    "regular_walk K (phys s) (phys_of (mm_pgd s mm)) (e_vaddr u)"
    "e_valid u = PTEDIT_VALID_MASK_PTE"
    "reaches_pte (phys s) (phys_of (mm_pgd s mm)) (e_vaddr u)"
    "pte_separate (phys s) (phys_of (mm_pgd s mm)) (e_vaddr u)"
    "e_pid w = e_pid u" "drop_bit 12 (e_vaddr w) = drop_bit 12 (e_vaddr u)"
  defines "root \<equiv> phys_of (mm_pgd s mm)" and "s' \<equiv> snd (snd (device_ioctl K (IOCTL_VM_UPDATE u) s))"
  shows "fst (snd (device_ioctl K (IOCTL_VM_RESOLVE w) s')) =
    Out_entry (w\<lparr>e_pgd := load64 (phys s) (pgd_slot root (e_vaddr u)),
                 e_p4d := load64 (phys s) (pgd_slot root (e_vaddr u)),
                 e_pud := load64 (phys s) (pud_slot (phys s) root (e_vaddr u)),
                 e_pmd := load64 (phys s) (pmd_slot (phys s) root (e_vaddr u)),
                 e_pte := e_pte u, e_valid := 31\<rparr>)"
proof -
  let ?m = "store64 (phys s) (pte_slot (phys s) root (e_vaddr u)) (e_pte u)"
  have s': "phys s' = ?m" "mm_pgd s' = mm_pgd s"
    using update_ioctl [OF assms(1-4)] by (simp_all add: s'_def root_def)
  note sep = assms(5) [folded root_def]
  note page = slots_same_page [OF assms(7)] reaches_pte_same_page [OF assms(7)]
  have "regular_walk K ?m root (e_vaddr w)"
    using assms(2) regular_walk_write_pte [OF sep] regular_walk_same_page [OF assms(7)]
    by (simp add: root_def)
  then have "fst (snd (device_ioctl K (IOCTL_VM_RESOLVE w) s')) = Out_entry (resolved_entry ?m root w)"
    using resolve_ioctl [of w mm s'] assms(1,6) s' by (simp add: root_def)
  moreover have "walk_valid ?m root (e_vaddr w) = 31"
    using assms(4) write_pte(3) [OF sep] by (intro walk_valid_reaches) (simp add: page root_def)
  moreover have "bit (31::u64) (Suc 0)" "bit (31::u64) 2" "bit (31::u64) 3" "bit (31::u64) 4"
    by simp_all
  ultimately show ?thesis
    using walk_frame [OF sep [unfolded pte_separate_def]] write_pte(2) [OF sep]
    by (simp add: resolved_entry_def page Let_def)
qed

end

text \<open>
  After \<open>VM_UPDATE\<close> has written a page-table entry of a process, \<open>VM_RESOLVE\<close> of any address
  in that page returns the written entry, with all five levels valid and the upper entries as
  they were, provided the entry's slot is not at the same time one of the upper slots.\<close>

lemma kernel_resolve_after_update:
  assumes "linux_paging K"
    and "get_mm K (e_pid u) = Some mm"
    and "regular_walk K (phys s) (k_virt_to_phys K (mm_pgd s mm)) (e_vaddr u)"
    and "e_valid u = PTEDIT_VALID_MASK_PTE"
    and "reaches_pte (phys s) (k_virt_to_phys K (mm_pgd s mm)) (e_vaddr u)"
    and "pte_separate (phys s) (k_virt_to_phys K (mm_pgd s mm)) (e_vaddr u)"
    and "e_pid w = e_pid u" and "drop_bit 12 (e_vaddr w) = drop_bit 12 (e_vaddr u)"
  shows "let root = k_virt_to_phys K (mm_pgd s mm);
             s' = snd (snd (device_ioctl K (IOCTL_VM_UPDATE u) s))
         in fst (snd (device_ioctl K (IOCTL_VM_RESOLVE w) s')) =
              Out_entry (w\<lparr>e_pgd := load64 (phys s) (pgd_slot root (e_vaddr u)),
                           e_p4d := load64 (phys s) (pgd_slot root (e_vaddr u)),
                           e_pud := load64 (phys s) (pud_slot (phys s) root (e_vaddr u)),
                           e_pmd := load64 (phys s) (pmd_slot (phys s) root (e_vaddr u)),
                           e_pte := e_pte u, e_valid := 31\<rparr>)"
  unfolding Let_def by (rule linux_paging.update_resolve [OF assms])

lemma demo_kstate_walk:
  "get_mm (linux_x86 3 9) (e_pid demo_entry) = Some 3"
  "regular_walk (linux_x86 3 9) (phys demo_kstate)
     (k_virt_to_phys (linux_x86 3 9) (mm_pgd demo_kstate 3)) (e_vaddr demo_entry)"
  "e_valid demo_entry = PTEDIT_VALID_MASK_PTE"
  "reaches_pte (phys demo_kstate) (k_virt_to_phys (linux_x86 3 9) (mm_pgd demo_kstate 3))
     (e_vaddr demo_entry)"
  "pte_separate (phys demo_kstate) (k_virt_to_phys (linux_x86 3 9) (mm_pgd demo_kstate 3))
     (e_vaddr demo_entry)"
  unfolding demo_root_phys
  by (simp_all add: demo_entry_def demo_kstate_def demo_regular demo_reaches demo_separate)

text \<open>
  C5. \<open>VM_UPDATE\<close> of a page-table entry changes the address translation as intended: addresses of
  the page now translate through the new entry, and the translation of every address, in every
  address space, whose walk does not go through the written slot is unchanged.\<close>

theorem kernel_update_translation:
  assumes "linux_paging K"
    and "get_mm K (e_pid u) = Some mm"
    and "regular_walk K (phys s) (k_virt_to_phys K (mm_pgd s mm)) (e_vaddr u)"
    and "e_valid u = PTEDIT_VALID_MASK_PTE"
    and "reaches_pte (phys s) (k_virt_to_phys K (mm_pgd s mm)) (e_vaddr u)"
    and "pte_separate (phys s) (k_virt_to_phys K (mm_pgd s mm)) (e_vaddr u)"
  shows "let root = k_virt_to_phys K (mm_pgd s mm);
             s' = snd (snd (device_ioctl K (IOCTL_VM_UPDATE u) s))
         in translate (phys s') root (e_vaddr u) =
              (if bit (e_pte u) 0 then Some (table_base (e_pte u) OR take_bit 12 (e_vaddr u))
               else None)
          \<and> (\<forall>root' b. pte_slot (phys s) root (e_vaddr u)
                \<notin> set (pte_slot (phys s) root' b # upper_slots (phys s) root' b)
              \<longrightarrow> take_bit 3 root' = 0
              \<longrightarrow> translate (phys s') root' b = translate (phys s) root' b)"
proof -
  let ?root = "k_virt_to_phys K (mm_pgd s mm)"
  let ?q = "pte_slot (phys s) ?root (e_vaddr u)"
  have phys: "phys (snd (snd (device_ioctl K (IOCTL_VM_UPDATE u) s))) = store64 (phys s) ?q (e_pte u)"
    using linux_paging.update_ioctl [OF assms(1-5)] by simp
  have "translate (store64 (phys s) ?q (e_pte u)) root' b = translate (phys s) root' b"
    if "?q \<notin> set (pte_slot (phys s) root' b # upper_slots (phys s) root' b)" "take_bit 3 root' = 0"
    for root' b
  proof (rule translate_frame)
    show "\<forall>p\<in>set (upper_slots (phys s) root' b). apart ?q 8 p 8"
      using that by (auto simp: upper_slots_def intro!: apart_aligned8 slots_aligned)
    show "apart ?q 8 (pte_slot (phys s) root' b) 8"
      using that by (auto intro!: apart_aligned8 slots_aligned)
  qed
  moreover have "translate (store64 (phys s) ?q (e_pte u)) ?root (e_vaddr u) =
      (if bit (e_pte u) 0 then Some (table_base (e_pte u) OR take_bit 12 (e_vaddr u)) else None)"
    using translate_reaches write_pte [OF assms(6), of "e_pte u"] assms(5) by simp
  ultimately show ?thesis
    unfolding Let_def phys by blast
qed

theorem kernel_update_translation_witness:
  "translate (phys (snd (snd (device_ioctl (linux_x86 3 9) (IOCTL_VM_UPDATE demo_entry) demo_kstate))))
     demo_root demo_addr = Some 0x7123"
  using kernel_update_translation
    [OF linux_x86.linux_paging_axioms demo_kstate_walk, unfolded Let_def demo_root_phys]
  by (simp add: demo_entry_def demo_addr_def table_base_def field_def)

text \<open>
  With the kernel's TLB invalidation selected, \<open>VM_UPDATE\<close> makes exactly one flush call, for
  one page at the updated address, after the entry is written and before the lock is released.
  The \<open>mm\<close> it names is the caller's, whichever process \<open>pid\<close> selects.\<close>

lemma update_flush_target:
  assumes "get_mm K (e_pid u) = Some mm" "\<not> mm_is_locked s"
    "invalidate_tlb_p s = Some Invalidate_tlb_kernel"
  shows "\<exists>warnings. events (snd (snd (device_ioctl K (IOCTL_VM_UPDATE u) s))) =
           events s @ [Mmap_write_lock mm] @ warnings
           @ [Flush_tlb_mm_range (get_mm K (k_task_pid_nr K (k_current K))) (e_vaddr u)
                (e_vaddr u + 4096) 12, Mmap_write_unlock mm]
         \<and> (\<forall>e\<in>set warnings. \<exists>msg. e = Pr_warn msg)"
  using assms
  by (auto simp: update_vm_eq Let_def flush_events_def real_page_size_def real_page_shift_def
      int_to_size_def update_warnings_def)

subsection \<open>Physical pages, paging roots and memory types\<close>

lemma real_page_size_u64 [simp]: "int_to_size real_page_size = 4096" "unat real_page_size = 4096"
  by (simp_all add: int_to_size_def real_page_size_def)

lemma page_aligned: "take_bit 12 (pfn * 4096 :: u64) = 0"
proof -
  have "pfn * 4096 = push_bit 12 pfn" by (simp add: push_bit_eq_mult)
  then show ?thesis by (simp add: take_bit_push_bit)
qed

text \<open>
  Writing a physical page and reading it back returns the bytes written, and reading any
  other page returns what it held before.\<close>

lemma page_write_read:
  assumes "linux_paging K" "length (pg_buffer w) = 4096"
    and "direct (pg_pfn w * 4096)" "direct (pg_pfn r * 4096)"
  shows "fst (snd (device_ioctl K (IOCTL_READ_PAGE r)
            (snd (snd (device_ioctl K (IOCTL_WRITE_PAGE w) s))))) =
          (if pg_pfn r * 4096 = pg_pfn w * 4096 then Out_page (r\<lparr>pg_buffer := pg_buffer w\<rparr>)
           else fst (snd (device_ioctl K (IOCTL_READ_PAGE r) s)))"
proof -
  have addr: "page_address K (pg_pfn w) = pg_pfn w * 4096" "page_address K (pg_pfn r) = pg_pfn r * 4096"
    using assms linux_paging.direct_map by (simp_all add: page_address_def)
  have len: "length (pg_buffer w) = 4096" by (rule assms(2))
  show ?thesis
  proof (cases "pg_pfn r * 4096 = pg_pfn w * 4096")
    case True
    then show ?thesis
      using read_write_bytes_same [of "pg_buffer w" "phys s" "pg_pfn w * 4096"]
      by (simp add: addr len)
  next
    case False
    have "apart (pg_pfn w * 4096) (2 ^ 12) (pg_pfn r * 4096) (2 ^ 12)"
      using False by (intro apart_blocks page_aligned) simp
    then have "read_bytes (write_bytes (phys s) (pg_pfn w * 4096) (pg_buffer w)) (pg_pfn r * 4096) 4096
        = read_bytes (phys s) (pg_pfn r * 4096) 4096"
      by (intro read_write_bytes_apart) (simp_all add: len)
    with False show ?thesis by (simp add: addr len)
  qed
qed


text \<open>
  \<open>SET_ROOT\<close> of a process followed by \<open>GET_ROOT\<close> of the same process returns the root that
  was set; the root of a process with another \<open>mm\<close> is untouched; a pid that names no process
  is refused with 1 by both.\<close>

lemma root_set_get:
  assumes "linux_paging K" "direct (paging_root p)"
  shows "case get_mm K (paging_pid p) of
      None \<Rightarrow> device_ioctl K (IOCTL_SET_ROOT p) s = (1, Out_none, s)
            \<and> device_ioctl K (IOCTL_GET_ROOT p) s = (1, Out_none, s)
    | Some mm \<Rightarrow>
        (let s' = snd (snd (device_ioctl K (IOCTL_SET_ROOT p) s)) in
         (\<forall>q. get_mm K (paging_pid q) = Some mm \<longrightarrow>
            fst (snd (device_ioctl K (IOCTL_GET_ROOT q) s'))
              = Out_paging (q\<lparr>paging_root := paging_root p\<rparr>))
       \<and> (\<forall>q mm'. get_mm K (paging_pid q) = Some mm' \<longrightarrow> mm' \<noteq> mm \<longrightarrow>
            fst (snd (device_ioctl K (IOCTL_GET_ROOT q) s'))
              = fst (snd (device_ioctl K (IOCTL_GET_ROOT q) s))))"
  using linux_paging.direct_map [OF assms]
  by (auto simp: set_root_eq get_root_eq split: option.split)

lemma get_pat_eq:
  "get_pat K s = (let v = pat_msr s (k_this_cpu K) in
     if bit v 31 then v OR push_bit 32 (mask 32) else v)"
proof (rule bit_word_eqI)
  fix n assume n: "n < LENGTH(64)"
  let ?v = "pat_msr s (k_this_cpu K)"
  have hi: "\<not> n < 32 \<Longrightarrow> min (n - 32) 31 = n - 32" using n by auto
  show "bit (get_pat K s) n =
    bit (let v = pat_msr s (k_this_cpu K) in if bit v 31 then v OR push_bit 32 (mask 32) else v) n"
    using n hi unfolding get_pat_def Let_def
    by (cases "n < 32") (auto simp: bit_simps bit_int_to_size bit_size_to_int min_def)
qed

text \<open>
  \<open>SET_PAT\<close> programs every CPU; \<open>GET_PAT\<close> then returns the value set, except that bit 31 of
  the value, read into a signed \<open>int\<close>, is copied over the whole upper half.\<close>

lemma pat_set_get:
  assumes "k_this_cpu K < k_ncpus K"
  shows "fst (snd (device_ioctl K IOCTL_GET_PAT (snd (snd (device_ioctl K (IOCTL_SET_PAT v) s))))) =
           Out_pat (if bit v 31 then v OR 0xffffffff00000000 else v)"
  using assms by (simp add: set_pat_eq get_pat_eq mask_eq_exp_minus_1)

subsection \<open>The life of the module\<close>

text \<open>The state before \<open>insmod\<close>, and the calls user processes make while the module is loaded:
  each is made by some task.\<close>

definition unloaded :: "kstate \<Rightarrow> bool" where
  "unloaded s \<longleftrightarrow> \<not> device_busy s \<and> \<not> mm_is_locked s \<and> invalidate_tlb_p s = None
     \<and> flush_tlb_mm_range_func s = 0 \<and> native_write_cr4_func s = 0 \<and> \<not> has_umem s
     \<and> \<not> misc_registered s \<and> \<not> kretprobe_registered s \<and> \<not> umem_entry s \<and> events s = []"

inductive module_step :: "kernel \<Rightarrow> kstate \<Rightarrow> kstate \<Rightarrow> bool" for K where
  open_dev: "device_open s = (r, s') \<Longrightarrow> module_step K s s'"
| release_dev: "device_release s = (r, s') \<Longrightarrow> module_step K s s'"
| ioctl_dev: "device_ioctl (K\<lparr>k_current := t\<rparr>) c s = (r, out, s') \<Longrightarrow> module_step K s s'"

inductive module_reach :: "kernel \<Rightarrow> kstate \<Rightarrow> bool" for K where
  loaded: "unloaded s0 \<Longrightarrow> pteditor_init K s0 = (0, s) \<Longrightarrow> module_reach K s"
| step: "module_reach K s \<Longrightarrow> module_step K s s' \<Longrightarrow> module_reach K s'"

definition module_inv :: "kernel \<Rightarrow> kstate \<Rightarrow> bool" where
  "module_inv K s \<longleftrightarrow> misc_registered s \<and> flush_tlb_mm_range_func s \<noteq> 0 \<and> invalidate_tlb_p s \<noteq> None
     \<and> (k_invpcid_single K \<or> native_write_cr4_func s \<noteq> 0)
     \<and> (umem_entry s \<longleftrightarrow> has_umem s) \<and> Oops \<notin> set (events s)"

lemma flush_no_oops: "p \<noteq> None \<Longrightarrow> Oops \<notin> set (flush_events K addr p)"
  by (auto simp: flush_events_def split: option.splits tlb_fn.splits if_splits)

lemma warnings_no_oops: "Oops \<notin> set (update_warnings old new)"
  by (auto simp: update_warnings_def)

lemma native_write_cr4_log [simp]: "native_write_cr4_func (log_events es s) = native_write_cr4_func s"
  by (simp add: log_events_def)

lemma module_inv_log:
  "module_inv K s \<Longrightarrow> Oops \<notin> set es \<Longrightarrow> module_inv K (log_events es s)"
  by (simp add: module_inv_def)

lemma module_inv_fields [simp]:
  "module_inv K (s\<lparr>phys := x1\<rparr>) = module_inv K s"
  "module_inv K (s\<lparr>mm_pgd := x2\<rparr>) = module_inv K s"
  "module_inv K (s\<lparr>pat_msr := x3\<rparr>) = module_inv K s"
  "module_inv K (s\<lparr>mm_is_locked := x4\<rparr>) = module_inv K s"
  "module_inv K (s\<lparr>device_busy := x5\<rparr>) = module_inv K s"
  "module_inv K (s\<lparr>kretprobe_registered := x6\<rparr>) = module_inv K s"
  by (simp_all add: module_inv_def)

lemma module_inv_tlb: "module_inv K s \<Longrightarrow> module_inv K (s\<lparr>invalidate_tlb_p := Some f\<rparr>)"
  by (simp add: module_inv_def)

lemma module_inv_probe: "module_inv K s \<Longrightarrow> module_inv K (init_probe K s)"
  by (simp add: init_probe_def log_event_log_events module_inv_log)

lemma module_inv_umem:
  "module_inv K s \<Longrightarrow> \<not> has_umem s \<Longrightarrow> module_inv K (init_umem K s)"
  by (simp add: init_umem_def log_event_log_events module_inv_log) (simp add: module_inv_def)

lemma init_probe_umem [simp]: "has_umem (init_probe K s) = has_umem s"
  by (simp add: init_probe_def log_event_log_events)

lemma init_module_inv:
  assumes "unloaded s0" "pteditor_init K s0 = (0, s)"
  shows "module_inv K s"
proof -
  define s3 where "s3 = (let s2 = s0\<lparr>misc_registered := True,
      flush_tlb_mm_range_func := k_kallsyms K ''flush_tlb_mm_range'',
      invalidate_tlb_p := Some Invalidate_tlb_kernel\<rparr>
    in if k_invpcid_single K then s2
       else s2\<lparr>native_write_cr4_func := k_kallsyms K ''native_write_cr4''\<rparr>)"
  have s: "s = log_event (Pr_info ''Loaded.'') (init_umem K (init_probe K s3))"
    and "k_kallsyms K ''flush_tlb_mm_range'' \<noteq> 0"
      "k_invpcid_single K \<or> k_kallsyms K ''native_write_cr4'' \<noteq> 0"
    using assms(2) by (auto simp: pteditor_init_def s3_def ENXIO_def Let_def split: if_splits)
  then have "module_inv K s3" "\<not> has_umem s3"
    using assms(1) by (auto simp: s3_def module_inv_def unloaded_def Let_def)
  then show ?thesis
    unfolding s log_event_log_events
    by (intro module_inv_log module_inv_umem module_inv_probe) simp_all
qed

lemma ioctl_module_inv:
  assumes "module_inv K s" "\<forall>t. k_task_active_mm K t \<noteq> None"
  shows "module_inv K (snd (snd (device_ioctl (K\<lparr>k_current := t\<rparr>) c s)))"
proof -
  have p: "invalidate_tlb_p s \<noteq> None" using assms(1) by (simp add: module_inv_def)
  obtain mm where mm: "k_task_active_mm K t = Some mm" using assms(2) by blast
  show ?thesis
    using assms(1)
    by (cases c) (auto simp: handler_eqs mm flush_no_oops [OF p] warnings_no_oops
        split: option.split intro!: module_inv_log module_inv_tlb)
qed

lemma module_reach_inv:
  assumes "module_reach K s" "\<forall>t. k_task_active_mm K t \<noteq> None"
  shows "module_inv K s"
  using assms(1)
proof induction
  case (loaded s0 s)
  then show ?case by (rule init_module_inv)
next
  case (step s s')
  from step.hyps(2) show ?case
  proof cases
    case (ioctl_dev t c r out)
    then show ?thesis using ioctl_module_inv [OF step.IH assms(2), of t c] by simp
  qed (use step.IH in \<open>auto simp: device_open_def device_release_def split: if_splits\<close>)
qed


definition fresh_kstate :: kstate where
  "fresh_kstate = demo_kstate\<lparr>invalidate_tlb_p := None, flush_tlb_mm_range_func := 0,
     misc_registered := False\<rparr>"


text \<open>
  What a failing \<open>pteditor_init\<close> leaves behind: exactly when \<open>misc_register\<close> has succeeded and
  a later symbol lookup fails, the function returns an error with the device still registered.\<close>

lemma init_failure_leaves_device:
  assumes "unloaded s"
  shows "fst (pteditor_init K s) \<noteq> 0 \<and> misc_registered (snd (pteditor_init K s)) \<longleftrightarrow>
         k_kprobe_addr K \<noteq> 0 \<and> k_misc_register K = 0
         \<and> (k_kallsyms K ''flush_tlb_mm_range'' = 0
            \<or> \<not> k_invpcid_single K \<and> k_kallsyms K ''native_write_cr4'' = 0)"
  using assms
  by (simp add: pteditor_init_def unloaded_def ENXIO_def Let_def log_event_log_events)

text \<open>
  The device file is held by one opener at a time: an open succeeds exactly when the previous
  holder has released it, a refused open changes nothing and returns \<open>-EBUSY\<close>, and no \<open>ioctl\<close>
  changes who holds the device.\<close>

lemma device_exclusive:
  "(fst (device_open s) = 0 \<longleftrightarrow> \<not> device_busy s)
   \<and> (\<not> device_busy s \<or> device_open s = (- 16, s))
   \<and> fst (device_open (snd (device_open s))) = - 16
   \<and> fst (device_open (snd (device_release s))) = 0
   \<and> device_busy (snd (snd (device_ioctl K c s))) = device_busy s"
proof -
  have "device_busy (snd (snd (device_ioctl K c s))) = device_busy s"
    by (cases c) (auto simp: handler_eqs split: option.split)
  then show ?thesis by (auto simp: device_open_def device_release_def EBUSY_def)
qed

end
