(* ===== verification/Page_Walk.thy ===== *)
theory Page_Walk
  imports Kernel_Module
begin

text \<open>
  The library's own state and its user-space page walk (\<open>PTEditor/ptedit.c\<close>, up to
  \<open>ptedit_pmap\<close>): the two ways of reaching physical memory, \<open>ptedit_resolve_user_ext\<close> and
  \<open>ptedit_update_user_ext\<close>, the kernel-backed variants, and the calls through the function
  pointers \<open>ptedit_resolve\<close> and \<open>ptedit_update\<close>.

  A result \<open>None\<close> is a fault: an access outside the mapping of physical memory, or a call
  through a null pointer. The library talks to the model of the kernel module, whose state is
  passed along.
\<close>

subsection \<open>State\<close>

record ptedit_paging_definition_t =
  has_pgd :: bool
  has_p4d :: bool
  has_pud :: bool
  has_pmd :: bool
  has_pt :: bool
  pgd_entries :: nat
  p4d_entries :: nat
  pud_entries :: nat
  pmd_entries :: nat
  pt_entries :: nat
  page_offset :: nat

text \<open>The definition \<open>ptedit_init\<close> chooses for the architecture and, on AArch64, the page size.\<close>

definition init_paging_definition :: "arch \<Rightarrow> int \<Rightarrow> ptedit_paging_definition_t" where
  "init_paging_definition A pagesize =
     (case A of
        X86_64 \<Rightarrow>
          \<lparr>has_pgd = True, has_p4d = False, has_pud = True, has_pmd = True, has_pt = True,
           pgd_entries = 9, p4d_entries = 0, pud_entries = 9, pmd_entries = 9, pt_entries = 9,
           page_offset = 12\<rparr>
      | AARCH64 \<Rightarrow>
          if pagesize = 16384
          then \<lparr>has_pgd = True, has_p4d = False, has_pud = True, has_pmd = True, has_pt = True,
                pgd_entries = 11, p4d_entries = 0, pud_entries = 11, pmd_entries = 11,
                pt_entries = 11, page_offset = 14\<rparr>
          else \<lparr>has_pgd = True, has_p4d = False, has_pud = False, has_pmd = True, has_pt = True,
                pgd_entries = 9, p4d_entries = 0, pud_entries = 0, pmd_entries = 9,
                pt_entries = 9, page_offset = 12\<rparr>)"

text \<open>The functions the pointers \<open>ptedit_resolve\<close> and \<open>ptedit_update\<close> are set to.\<close>

datatype impl = Impl_kernel | Impl_user | Impl_user_map

record lib =
  ptedit_fd :: int
  ptedit_umem :: int
  ptedit_pagesize :: u32
  ptedit_pfn_multiply :: u64
  ptedit_entry_size :: u64
  ptedit_paging_root :: u64
  ptedit_vmem :: u64
  ptedit_paging_definition :: ptedit_paging_definition_t
  ptedit_resolve_p :: "impl option"
  ptedit_update_p :: "impl option"

text \<open>
  The operating system below the library, a parameter: the kernel, the descriptors \<open>open\<close> gives
  for the device and for \<open>/proc/umem\<close>, the page size, where \<open>mmap\<close> of \<open>/proc/umem\<close> puts a range
  of physical memory given by length and offset (\<open>MAP_FAILED\<close> is \<open>-1\<close>), and for which physical ranges reading and writing \<open>/proc/umem\<close>
  succeeds.
\<close>

record os =
  os_arch :: arch
  os_kernel :: kernel
  os_dev_fd :: int
  os_umem_fd :: int
  os_getpagesize :: u32
  os_mmap_umem :: "u64 \<Rightarrow> u64 \<Rightarrow> u64"
  os_umem_ok :: "u64 \<Rightarrow> nat \<Rightarrow> bool"

text \<open>\<open>ioctl(ptedit_fd, \<dots>)\<close> reaches the module while the descriptor is the open device.\<close>

definition lib_ioctl :: "os \<Rightarrow> lib \<Rightarrow> ioctl_cmd \<Rightarrow> kstate \<Rightarrow> int \<times> ioctl_out \<times> kstate" where
  "lib_ioctl W L c s =
     (if ptedit_fd L = os_dev_fd W \<and> device_busy s then device_ioctl (os_kernel W) c s
      else (-1, Out_none, s))"

definition ptedit_get_paging_root :: "os \<Rightarrow> lib \<Rightarrow> u32 \<Rightarrow> kstate \<Rightarrow> u64 \<times> kstate" where
  "ptedit_get_paging_root W L pid s =
     (let cr3 = \<lparr>paging_pid = int_to_size pid, paging_root = 0\<rparr>;
          (_, out, s1) = lib_ioctl W L (IOCTL_GET_ROOT cr3) s
      in (case out of Out_paging p \<Rightarrow> (paging_root p, s1) | _ \<Rightarrow> (paging_root cr3, s1)))"

definition ptedit_invalidate_tlb :: "os \<Rightarrow> lib \<Rightarrow> u64 \<Rightarrow> kstate \<Rightarrow> kstate" where
  "ptedit_invalidate_tlb W L addr s = snd (snd (lib_ioctl W L (IOCTL_INVALIDATE_TLB addr) s))"

subsection \<open>Access to physical memory\<close>

definition MAP_FAILED :: u64 where "MAP_FAILED = -1"

text \<open>\<open>ptedit_vmem\<close> maps the first 32 GiB of physical memory.\<close>

definition vmem_ok :: "lib \<Rightarrow> u64 \<Rightarrow> bool" where
  "vmem_ok L a \<longleftrightarrow> ptedit_vmem L \<noteq> 0 \<and> ptedit_vmem L \<noteq> MAP_FAILED \<and> unat a + 8 \<le> 2 ^ 35"

definition ptedit_phys_read_map :: "lib \<Rightarrow> mem \<Rightarrow> u64 \<Rightarrow> u64 option" where
  "ptedit_phys_read_map L m a = (if vmem_ok L a then Some (load64 m a) else None)"

definition ptedit_phys_write_map :: "lib \<Rightarrow> u64 \<Rightarrow> u64 \<Rightarrow> mem \<Rightarrow> mem option" where
  "ptedit_phys_write_map L a v m = (if vmem_ok L a then Some (store64 m a v) else None)"

definition umem_ok :: "os \<Rightarrow> lib \<Rightarrow> u64 \<Rightarrow> nat \<Rightarrow> bool" where
  "umem_ok W L a n \<longleftrightarrow> 0 \<le> ptedit_umem L \<and> ptedit_umem L = os_umem_fd W \<and> os_umem_ok W a n"

definition ptedit_phys_read_pread :: "os \<Rightarrow> lib \<Rightarrow> mem \<Rightarrow> u64 \<Rightarrow> u64 option" where
  "ptedit_phys_read_pread W L m a = Some (if umem_ok W L a 8 then load64 m a else 0)"

definition ptedit_phys_write_pwrite :: "os \<Rightarrow> lib \<Rightarrow> u64 \<Rightarrow> u64 \<Rightarrow> mem \<Rightarrow> mem option" where
  "ptedit_phys_write_pwrite W L a v m = Some (if umem_ok W L a 8 then store64 m a v else m)"

subsection \<open>The walk\<close>

text \<open>\<open>(addr >> shift) % (1ull << entries)\<close> of the five indices.\<close>

definition level_index :: "nat \<Rightarrow> nat \<Rightarrow> u64 \<Rightarrow> u64" where
  "level_index shift entries addr = drop_bit shift addr mod push_bit entries 1"

definition pgd_index :: "ptedit_paging_definition_t \<Rightarrow> u64 \<Rightarrow> u64" where
  "pgd_index d addr = level_index
     (page_offset d + pt_entries d + pmd_entries d + pud_entries d + p4d_entries d)
     (pgd_entries d) addr"

definition p4d_index :: "ptedit_paging_definition_t \<Rightarrow> u64 \<Rightarrow> u64" where
  "p4d_index d addr = level_index
     (page_offset d + pt_entries d + pmd_entries d + pud_entries d) (p4d_entries d) addr"

definition pud_index :: "ptedit_paging_definition_t \<Rightarrow> u64 \<Rightarrow> u64" where
  "pud_index d addr = level_index (page_offset d + pt_entries d + pmd_entries d) (pud_entries d) addr"

definition pmd_index :: "ptedit_paging_definition_t \<Rightarrow> u64 \<Rightarrow> u64" where
  "pmd_index d addr = level_index (page_offset d + pt_entries d) (pmd_entries d) addr"

definition pt_index :: "ptedit_paging_definition_t \<Rightarrow> u64 \<Rightarrow> u64" where
  "pt_index d addr = level_index (page_offset d) (pt_entries d) addr"

text \<open>In the resolver the indices are \<open>int\<close>s.\<close>

definition as_int :: "u64 \<Rightarrow> u64" where
  "as_int x = int_to_size (size_to_int x)"

definition entry_addr :: "lib \<Rightarrow> u64 \<Rightarrow> u64 \<Rightarrow> u64" where
  "entry_addr L base idx = base + idx * ptedit_entry_size L"

text \<open>The walk below a non-null root, with \<open>deref\<close> the reader of physical memory.\<close>

definition walk_tables ::
  "arch \<Rightarrow> lib \<Rightarrow> (u64 \<Rightarrow> u64 option) \<Rightarrow> u64 \<Rightarrow> u64 \<Rightarrow> ptedit_entry_t \<Rightarrow> ptedit_entry_t option" where
  "walk_tables A L deref addr root resolved =
     (let d = ptedit_paging_definition L;
          present = (\<lambda>e. table_present A e = PTEDIT_PAGE_PRESENT A);
          table = (\<lambda>e idx. entry_addr L (table_pfn A e * ptedit_pfn_multiply L) (as_int idx))
      in do {
        pgd_entry \<leftarrow> deref (entry_addr L root (as_int (pgd_index d addr)));
        if \<not> present pgd_entry then Some resolved
        else do {
          let r1 = resolved\<lparr>e_pgd := pgd_entry, e_valid := e_valid resolved OR PTEDIT_VALID_MASK_PGD\<rparr>;
          p4d_entry \<leftarrow> (if has_p4d d then deref (table pgd_entry (p4d_index d addr)) else Some pgd_entry);
          let r2 = r1\<lparr>e_valid := (if has_p4d d then e_valid r1 OR PTEDIT_VALID_MASK_P4D else e_valid r1),
                      e_p4d := p4d_entry\<rparr>;
          if \<not> present p4d_entry then Some r2
          else do {
            pud_entry \<leftarrow> (if has_pud d then deref (table p4d_entry (pud_index d addr)) else Some p4d_entry);
            let r3 = r2\<lparr>e_valid := (if has_pud d then e_valid r2 OR PTEDIT_VALID_MASK_PUD else e_valid r2),
                        e_pud := pud_entry\<rparr>;
            if \<not> present pud_entry then Some r3
            else do {
              pmd_entry \<leftarrow> (if has_pmd d then deref (table pud_entry (pmd_index d addr)) else Some pud_entry);
              let r4 = r3\<lparr>e_valid := (if has_pmd d then e_valid r3 OR PTEDIT_VALID_MASK_PMD else e_valid r3),
                          e_pmd := pmd_entry\<rparr>;
              if \<not> present pmd_entry then Some r4
              else if A = AARCH64 \<or> table_size_bit pmd_entry = 0
              then do {
                pt_entry \<leftarrow> deref (table pmd_entry (pt_index d addr));
                Some (r4\<lparr>e_pte := pt_entry, e_valid := e_valid r4 OR PTEDIT_VALID_MASK_PTE\<rparr>)
              }
              else Some r4
            }
          }
        }
      })"

definition empty_entry :: "u64 \<Rightarrow> u64 \<Rightarrow> ptedit_entry_t" where
  "empty_entry addr pid =
     \<lparr>e_pid = pid, e_vaddr = addr, e_pgd = 0, e_p4d = 0, e_pud = 0, e_pmd = 0, e_pte = 0, e_valid = 0\<rparr>"

text \<open>\<open>(pid == 0) ? ptedit_paging_root : ptedit_get_paging_root(pid)\<close>, with bit 0 cleared.\<close>

definition walk_root :: "os \<Rightarrow> lib \<Rightarrow> u32 \<Rightarrow> kstate \<Rightarrow> u64 \<times> kstate" where
  "walk_root W L pid s =
     (let (root, s1) = (if pid = 0 then (ptedit_paging_root L, s) else ptedit_get_paging_root W L pid s)
      in (root AND NOT 1, s1))"

definition ptedit_resolve_user_ext ::
  "os \<Rightarrow> lib \<Rightarrow> (mem \<Rightarrow> u64 \<Rightarrow> u64 option) \<Rightarrow> u64 \<Rightarrow> u32 \<Rightarrow> kstate \<Rightarrow> (ptedit_entry_t \<times> kstate) option" where
  "ptedit_resolve_user_ext W L deref addr pid s =
     (let (root, s1) = walk_root W L pid s;
          resolved = empty_entry addr (int_to_size pid)
      in if root = 0 then Some (resolved, s1)
         else do {
           e \<leftarrow> walk_tables (os_arch W) L (deref (phys s1)) addr root resolved;
           Some (e, s1)
         })"

definition ptedit_resolve_user :: "os \<Rightarrow> lib \<Rightarrow> u64 \<Rightarrow> u32 \<Rightarrow> kstate \<Rightarrow> (ptedit_entry_t \<times> kstate) option" where
  "ptedit_resolve_user W L = ptedit_resolve_user_ext W L (ptedit_phys_read_pread W L)"

definition ptedit_resolve_user_map ::
  "os \<Rightarrow> lib \<Rightarrow> u64 \<Rightarrow> u32 \<Rightarrow> kstate \<Rightarrow> (ptedit_entry_t \<times> kstate) option" where
  "ptedit_resolve_user_map W L = ptedit_resolve_user_ext W L (ptedit_phys_read_map L)"

definition ptedit_resolve_kernel :: "os \<Rightarrow> lib \<Rightarrow> u64 \<Rightarrow> u32 \<Rightarrow> kstate \<Rightarrow> ptedit_entry_t \<times> kstate" where
  "ptedit_resolve_kernel W L addr pid s =
     (let vm = empty_entry addr (int_to_size pid);
          (_, out, s1) = lib_ioctl W L (IOCTL_VM_RESOLVE vm) s
      in (case out of Out_entry e \<Rightarrow> (e, s1) | _ \<Rightarrow> (vm, s1)))"

text \<open>The call through the pointer \<open>ptedit_resolve\<close>.\<close>

definition ptedit_resolve :: "os \<Rightarrow> lib \<Rightarrow> u64 \<Rightarrow> u32 \<Rightarrow> kstate \<Rightarrow> (ptedit_entry_t \<times> kstate) option" where
  "ptedit_resolve W L addr pid s =
     (case ptedit_resolve_p L of
        None \<Rightarrow> None
      | Some Impl_kernel \<Rightarrow> Some (ptedit_resolve_kernel W L addr pid s)
      | Some Impl_user \<Rightarrow> ptedit_resolve_user W L addr pid s
      | Some Impl_user_map \<Rightarrow> ptedit_resolve_user_map W L addr pid s)"

subsection \<open>Updates\<close>

definition ptedit_update_kernel ::
  "os \<Rightarrow> lib \<Rightarrow> u64 \<Rightarrow> u32 \<Rightarrow> ptedit_entry_t \<Rightarrow> kstate \<Rightarrow> ptedit_entry_t \<times> kstate" where
  "ptedit_update_kernel W L addr pid vm s =
     (let vm1 = vm\<lparr>e_vaddr := addr, e_pid := int_to_size pid\<rparr>
      in (vm1, snd (snd (lib_ioctl W L (IOCTL_VM_UPDATE vm1) s))))"

text \<open>One guarded \<open>pset\<close>: the mask is set in both entries and the level exists.\<close>

definition pset_level ::
  "u64 \<Rightarrow> bool \<Rightarrow> ptedit_entry_t \<Rightarrow> ptedit_entry_t \<Rightarrow> (mem \<Rightarrow> mem option) \<Rightarrow> mem \<Rightarrow> mem option" where
  "pset_level msk has vm current wr m =
     (if test_mask (e_valid vm) msk \<and> test_mask (e_valid current) msk \<and> has then wr m else Some m)"

text \<open>The writes of \<open>ptedit_update_user_ext\<close>, from the page table up.\<close>

definition write_tables ::
  "arch \<Rightarrow> lib \<Rightarrow> (u64 \<Rightarrow> u64 \<Rightarrow> mem \<Rightarrow> mem option) \<Rightarrow> u64 \<Rightarrow> u64 \<Rightarrow> ptedit_entry_t \<Rightarrow> ptedit_entry_t \<Rightarrow>
   mem \<Rightarrow> mem option" where
  "write_tables A L pset addr root vm current m =
     (let d = ptedit_paging_definition L;
          table = (\<lambda>e idx. entry_addr L (table_pfn A e * ptedit_pfn_multiply L) idx)
      in do {
        m1 \<leftarrow> pset_level PTEDIT_VALID_MASK_PTE True vm current
                (pset (table (e_pmd current) (pt_index d addr)) (e_pte vm)) m;
        m2 \<leftarrow> pset_level PTEDIT_VALID_MASK_PMD (has_pmd d) vm current
                (pset (table (e_pud current) (pmd_index d addr)) (e_pmd vm)) m1;
        m3 \<leftarrow> pset_level PTEDIT_VALID_MASK_PUD (has_pud d) vm current
                (pset (table (e_p4d current) (pud_index d addr)) (e_pud vm)) m2;
        m4 \<leftarrow> pset_level PTEDIT_VALID_MASK_P4D (has_p4d d) vm current
                (pset (table (e_pgd current) (p4d_index d addr)) (e_p4d vm)) m3;
        pset_level PTEDIT_VALID_MASK_PGD (has_pgd d) vm current
                (pset (entry_addr L root (pgd_index d addr)) (e_pgd vm)) m4
      })"

definition ptedit_update_user_ext ::
  "os \<Rightarrow> lib \<Rightarrow> (u64 \<Rightarrow> u64 \<Rightarrow> mem \<Rightarrow> mem option) \<Rightarrow> u64 \<Rightarrow> u32 \<Rightarrow> ptedit_entry_t \<Rightarrow> kstate \<Rightarrow> kstate option" where
  "ptedit_update_user_ext W L pset addr pid vm s =
     do {
       (current, s1) \<leftarrow> ptedit_resolve W L addr pid s;
       let (root, s2) = walk_root W L pid s1;
       if root = 0 then Some s2
       else do {
         m \<leftarrow> write_tables (os_arch W) L pset addr root vm current (phys s2);
         Some (ptedit_invalidate_tlb W L addr (s2\<lparr>phys := m\<rparr>))
       }
     }"

definition ptedit_update_user ::
  "os \<Rightarrow> lib \<Rightarrow> u64 \<Rightarrow> u32 \<Rightarrow> ptedit_entry_t \<Rightarrow> kstate \<Rightarrow> kstate option" where
  "ptedit_update_user W L addr pid vm s =
     map_option (ptedit_invalidate_tlb W L addr)
       (ptedit_update_user_ext W L (ptedit_phys_write_pwrite W L) addr pid vm s)"

definition ptedit_update_user_map ::
  "os \<Rightarrow> lib \<Rightarrow> u64 \<Rightarrow> u32 \<Rightarrow> ptedit_entry_t \<Rightarrow> kstate \<Rightarrow> kstate option" where
  "ptedit_update_user_map W L addr pid vm s =
     map_option (ptedit_invalidate_tlb W L addr)
       (ptedit_update_user_ext W L (ptedit_phys_write_map L) addr pid vm s)"

text \<open>The call through the pointer \<open>ptedit_update\<close>: the caller's entry after it and the state.\<close>

definition ptedit_update ::
  "os \<Rightarrow> lib \<Rightarrow> u64 \<Rightarrow> u32 \<Rightarrow> ptedit_entry_t \<Rightarrow> kstate \<Rightarrow> (ptedit_entry_t \<times> kstate) option" where
  "ptedit_update W L addr pid vm s =
     (case ptedit_update_p L of
        None \<Rightarrow> None
      | Some Impl_kernel \<Rightarrow> Some (ptedit_update_kernel W L addr pid vm s)
      | Some Impl_user \<Rightarrow> map_option (Pair vm) (ptedit_update_user W L addr pid vm s)
      | Some Impl_user_map \<Rightarrow> map_option (Pair vm) (ptedit_update_user_map W L addr pid vm s))"

subsection \<open>The walk on x86-64\<close>

text \<open>The library as \<open>ptedit_init\<close> leaves it on x86-64.\<close>

definition lib_x86 :: "lib \<Rightarrow> bool" where
  "lib_x86 L \<longleftrightarrow> ptedit_paging_definition L = init_paging_definition X86_64 4096
     \<and> ptedit_pfn_multiply L = 4096 \<and> ptedit_entry_size L = 8"

lemma level_index_field: "level_index shift n a = field shift n a"
  by (simp add: level_index_def field_def take_bit_eq_mod push_bit_eq_mult)

lemma as_int_field: "as_int (field off 9 a) = field off 9 a"
  unfolding as_int_def
proof (rule int_to_size_to_int_small)
  show "unat (field off 9 a) < 2 ^ 31" using field_less [of 9 off a] by simp
qed

lemma x86_slots:
  assumes "lib_x86 L"
  defines "d \<equiv> ptedit_paging_definition L"
  shows "entry_addr L b (as_int (pgd_index d a)) = slot b 3 a"
    and "entry_addr L b (as_int (pud_index d a)) = slot b 2 a"
    and "entry_addr L b (as_int (pmd_index d a)) = slot b 1 a"
    and "entry_addr L b (as_int (pt_index d a)) = slot b 0 a"
    and "entry_addr L b (pgd_index d a) = slot b 3 a"
    and "entry_addr L b (pud_index d a) = slot b 2 a"
    and "entry_addr L b (pmd_index d a) = slot b 1 a"
    and "entry_addr L b (pt_index d a) = slot b 0 a"
  using assms
  by (simp_all add: lib_x86_def init_paging_definition_def entry_addr_def slot_def as_int_field
      pgd_index_def pud_index_def pmd_index_def pt_index_def level_index_field mult.commute)

lemma field_1_eq: "field k 1 e = (if bit e k then 1 else 0)"
  by (rule bit_word_eqI) (auto simp: bit_field bit_1_iff)

lemma present_iff: "table_present X86_64 e = PTEDIT_PAGE_PRESENT X86_64 \<longleftrightarrow> bit e 0"
  by (simp add: table_defs cast_pgd_def field_1_eq [unfolded One_nat_def])

lemma size_bit_iff: "table_size_bit e = 0 \<longleftrightarrow> \<not> bit e 7"
  by (simp add: table_defs cast_pgd_def field_1_eq [unfolded One_nat_def])

text \<open>An entry whose page-frame number fits the 28 bits of the bit field.\<close>

definition narrow :: "u64 \<Rightarrow> bool" where
  "narrow e \<longleftrightarrow> unat (field 12 40 e) < 2 ^ 28"

lemma table_pfn_base: "narrow e \<Longrightarrow> table_pfn X86_64 e * 4096 = table_base e"
  using field_le_narrow [of 12 40 e 28]
  by (simp add: narrow_def table_defs cast_pgd_def table_base_def push_bit_eq_mult)

text \<open>The entries the walk follows have narrow page-frame numbers.\<close>

definition narrow_walk :: "mem \<Rightarrow> u64 \<Rightarrow> u64 \<Rightarrow> bool" where
  "narrow_walk m root a \<longleftrightarrow>
     (bit (load64 m (pgd_slot root a)) 0 \<longrightarrow> narrow (load64 m (pgd_slot root a)) \<and>
       (bit (load64 m (pud_slot m root a)) 0 \<longrightarrow> narrow (load64 m (pud_slot m root a)) \<and>
         (bit (load64 m (pmd_slot m root a)) 0 \<and> \<not> bit (load64 m (pmd_slot m root a)) 7
            \<longrightarrow> narrow (load64 m (pmd_slot m root a)))))"

text \<open>The slots the walk reads can be accessed.\<close>

definition accessible :: "(u64 \<Rightarrow> bool) \<Rightarrow> mem \<Rightarrow> u64 \<Rightarrow> u64 \<Rightarrow> bool" where
  "accessible ok m root a \<longleftrightarrow> ok (pgd_slot root a) \<and>
     (bit (load64 m (pgd_slot root a)) 0 \<longrightarrow> ok (pud_slot m root a) \<and>
       (bit (load64 m (pud_slot m root a)) 0 \<longrightarrow> ok (pmd_slot m root a) \<and>
         (bit (load64 m (pmd_slot m root a)) 0 \<and> \<not> bit (load64 m (pmd_slot m root a)) 7
            \<longrightarrow> ok (pte_slot m root a))))"

text \<open>What the user-space walk returns. A large page is only recognised at the third level.\<close>

definition user_entry :: "mem \<Rightarrow> u64 \<Rightarrow> u64 \<Rightarrow> u64 \<Rightarrow> ptedit_entry_t" where
  "user_entry m root a pid =
     (let e3 = load64 m (pgd_slot root a); e2 = load64 m (pud_slot m root a);
          e1 = load64 m (pmd_slot m root a); e0 = load64 m (pte_slot m root a);
          r = empty_entry a pid
      in if \<not> bit e3 0 then r
         else if \<not> bit e2 0 then r\<lparr>e_pgd := e3, e_p4d := e3, e_pud := e2, e_valid := 5\<rparr>
         else if \<not> bit e1 0 \<or> bit e1 7
         then r\<lparr>e_pgd := e3, e_p4d := e3, e_pud := e2, e_pmd := e1, e_valid := 13\<rparr>
         else r\<lparr>e_pgd := e3, e_p4d := e3, e_pud := e2, e_pmd := e1, e_pte := e0, e_valid := 29\<rparr>)"

lemma user_masks:
  "(0::u64) OR PTEDIT_VALID_MASK_PGD = 1" "PTEDIT_VALID_MASK_PGD = 1"
  "(1::u64) OR PTEDIT_VALID_MASK_PUD = 5"
  "(5::u64) OR PTEDIT_VALID_MASK_PMD = 13" "(13::u64) OR PTEDIT_VALID_MASK_PTE = 29"
  by (simp_all add: valid_masks)

definition store_if :: "bool \<Rightarrow> u64 \<Rightarrow> u64 \<Rightarrow> mem \<Rightarrow> mem" where
  "store_if b p v m = (if b then store64 m p v else m)"

lemma read_bytes_store_if:
  "apart p 8 x k \<Longrightarrow> k < 2 ^ 64 \<Longrightarrow> read_bytes (store_if b p v m) x k = read_bytes m x k"
  by (simp add: store_if_def read_bytes_store64_apart)

text \<open>
  Access to physical memory as the walk and the update need it: where \<open>ok\<close> holds, reading
  loads and writing stores.
\<close>

locale phys_access =
  fixes deref :: "mem \<Rightarrow> u64 \<Rightarrow> u64 option"
    and pset :: "u64 \<Rightarrow> u64 \<Rightarrow> mem \<Rightarrow> mem option"
    and ok :: "u64 \<Rightarrow> bool"
  assumes deref_ok: "ok a \<Longrightarrow> deref m a = Some (load64 m a)"
    and pset_ok: "ok a \<Longrightarrow> pset a v m = Some (store64 m a v)"
begin

lemma walk_tables_eq:
  assumes L: "lib_x86 L" and acc: "accessible ok m root a" and nar: "narrow_walk m root a"
  shows "walk_tables X86_64 L (deref m) a root (empty_entry a pid) = Some (user_entry m root a pid)"
proof -
  define e3 where "e3 = load64 m (pgd_slot root a)"
  define e2 where "e2 = load64 m (pud_slot m root a)"
  define e1 where "e1 = load64 m (pmd_slot m root a)"
  have d3: "deref m (slot root 3 a) = Some e3"
    using acc deref_ok by (simp add: accessible_def pgd_slot_def e3_def)
  have d2: "bit e3 0 \<Longrightarrow> deref m (slot (table_pfn X86_64 e3 * 4096) 2 a) = Some e2"
    using acc nar deref_ok
    by (simp add: accessible_def narrow_walk_def table_pfn_base pud_slot_def e3_def e2_def)
  have d1: "bit e3 0 \<Longrightarrow> bit e2 0 \<Longrightarrow> deref m (slot (table_pfn X86_64 e2 * 4096) 1 a) = Some e1"
    using acc nar deref_ok
    by (simp add: accessible_def narrow_walk_def table_pfn_base pmd_slot_def e3_def e2_def e1_def)
  have d0: "bit e3 0 \<Longrightarrow> bit e2 0 \<Longrightarrow> bit e1 0 \<Longrightarrow> \<not> bit e1 7 \<Longrightarrow>
      deref m (slot (table_pfn X86_64 e1 * 4096) 0 a) = Some (load64 m (pte_slot m root a))"
    using acc nar deref_ok
    by (simp add: accessible_def narrow_walk_def table_pfn_base pte_slot_def e3_def e2_def e1_def)
  have d: "\<not> has_p4d (ptedit_paging_definition L)" "has_pud (ptedit_paging_definition L)"
      "has_pmd (ptedit_paging_definition L)" "ptedit_pfn_multiply L = 4096"
    using L by (simp_all add: lib_x86_def init_paging_definition_def)
  show ?thesis
    unfolding walk_tables_def user_entry_def Let_def x86_slots [OF L] present_iff d(4)
      e3_def [symmetric] e2_def [symmetric] e1_def [symmetric]
    using d
    by (cases "bit e3 0"; cases "bit e2 0"; cases "bit e1 0"; cases "bit e1 7")
      (simp_all add: d3 d2 d1 [unfolded One_nat_def] d0 size_bit_iff empty_entry_def user_masks)
qed

lemma write_tables_eq:
  fixes pid :: u64
  assumes L: "lib_x86 L" and acc: "accessible ok m root a" and nar: "narrow_walk m root a"
  defines "c \<equiv> user_entry m root a pid"
  shows "write_tables X86_64 L pset a root vm c m =
    Some (store_if (bit (e_valid vm) 0 \<and> bit (e_valid c) 0) (pgd_slot root a) (e_pgd vm)
      (store_if (bit (e_valid vm) 2 \<and> bit (e_valid c) 2) (pud_slot m root a) (e_pud vm)
        (store_if (bit (e_valid vm) 3 \<and> bit (e_valid c) 3) (pmd_slot m root a) (e_pmd vm)
          (store_if (bit (e_valid vm) 4 \<and> bit (e_valid c) 4) (pte_slot m root a) (e_pte vm) m))))"
proof -
  have "bit (5::u64) 0" "bit (5::u64) 2" "\<not> bit (5::u64) 3" "\<not> bit (5::u64) 4"
      "bit (13::u64) 0" "bit (13::u64) 2" "bit (13::u64) 3" "\<not> bit (13::u64) 4"
      "bit (29::u64) 0" "bit (29::u64) 2" "bit (29::u64) 3" "bit (29::u64) 4"
    by simp_all
  note bits = this
  have s4: "bit (e_valid c) 4 \<Longrightarrow>
      slot (table_pfn X86_64 (e_pmd c) * 4096) 0 a = pte_slot m root a \<and> ok (pte_slot m root a)"
    using acc nar by (auto simp: c_def user_entry_def empty_entry_def Let_def bits narrow_walk_def
        accessible_def table_pfn_base pte_slot_def split: if_splits)
  have s3: "bit (e_valid c) 3 \<Longrightarrow>
      slot (table_pfn X86_64 (e_pud c) * 4096) 1 a = pmd_slot m root a \<and> ok (pmd_slot m root a)"
    using acc nar by (auto simp: c_def user_entry_def empty_entry_def Let_def bits narrow_walk_def
        accessible_def table_pfn_base pmd_slot_def split: if_splits)
  have s2: "bit (e_valid c) 2 \<Longrightarrow>
      slot (table_pfn X86_64 (e_p4d c) * 4096) 2 a = pud_slot m root a \<and> ok (pud_slot m root a)"
    using acc nar by (auto simp: c_def user_entry_def empty_entry_def Let_def bits narrow_walk_def
        accessible_def table_pfn_base pud_slot_def split: if_splits)
  have s0: "slot root 3 a = pgd_slot root a \<and> ok (pgd_slot root a)"
    using acc by (simp add: accessible_def pgd_slot_def)
  have d: "\<not> has_p4d (ptedit_paging_definition L)" "has_pud (ptedit_paging_definition L)"
      "has_pmd (ptedit_paging_definition L)" "has_pgd (ptedit_paging_definition L)"
      "ptedit_pfn_multiply L = 4096"
    using L by (simp_all add: lib_x86_def init_paging_definition_def)
  show ?thesis
    unfolding write_tables_def Let_def x86_slots [OF L] d(5) pset_level_def test_mask_bits store_if_def
    using s4 s3 s2 s0 d by (simp add: pset_ok)
qed

lemma write_pte_tables:
  assumes L: "lib_x86 L" and acc: "accessible ok m root a" and nar: "narrow_walk m root a"
    and v: "e_valid vm = PTEDIT_VALID_MASK_PTE" and reach: "reaches_pte m root a"
  shows "write_tables X86_64 L pset a root vm (user_entry m root a pid) m =
    Some (store64 m (pte_slot m root a) (e_pte vm))"
proof -
  have "bit (e_valid (user_entry m root a pid)) 4"
    using reach by (simp add: user_entry_def reaches_pte_def Let_def)
  then show ?thesis
    by (simp add: write_tables_eq [OF L acc nar] v bit_valid_masks store_if_def)
qed

end

interpretation via_map: phys_access "ptedit_phys_read_map L" "ptedit_phys_write_map L" "vmem_ok L" for L
  by unfold_locales (simp_all add: ptedit_phys_read_map_def ptedit_phys_write_map_def)

interpretation via_umem:
  phys_access "ptedit_phys_read_pread W L" "ptedit_phys_write_pwrite W L" "\<lambda>a. umem_ok W L a 8" for W L
  by unfold_locales (simp_all add: ptedit_phys_read_pread_def ptedit_phys_write_pwrite_def)

subsection \<open>Roots\<close>

definition dev_open :: "os \<Rightarrow> lib \<Rightarrow> kstate \<Rightarrow> bool" where
  "dev_open W L s \<longleftrightarrow> ptedit_fd L = os_dev_fd W \<and> device_busy s"

definition root_of :: "os \<Rightarrow> lib \<Rightarrow> u32 \<Rightarrow> kstate \<Rightarrow> u64" where
  "root_of W L pid s =
     (if pid = 0 then ptedit_paging_root L
      else if dev_open W L s
      then (case get_mm (os_kernel W) (int_to_size pid) of
              None \<Rightarrow> 0 | Some mm \<Rightarrow> k_virt_to_phys (os_kernel W) (mm_pgd s mm))
      else 0) AND NOT 1"

definition root_events :: "os \<Rightarrow> lib \<Rightarrow> u32 \<Rightarrow> kstate \<Rightarrow> kevent list" where
  "root_events W L pid s =
     (if pid = 0 \<or> \<not> dev_open W L s \<or> mm_is_locked s then []
      else (case get_mm (os_kernel W) (int_to_size pid) of
              None \<Rightarrow> [] | Some mm \<Rightarrow> [Mmap_read_lock mm, Mmap_read_unlock mm]))"

lemma lib_ioctl_open: "dev_open W L s \<Longrightarrow> lib_ioctl W L c s = device_ioctl (os_kernel W) c s"
  by (simp add: lib_ioctl_def dev_open_def)

lemma lib_ioctl_closed: "\<not> dev_open W L s \<Longrightarrow> lib_ioctl W L c s = (-1, Out_none, s)"
  by (auto simp: lib_ioctl_def dev_open_def)

lemma get_paging_root_eq:
  "ptedit_get_paging_root W L pid s =
     (if dev_open W L s
      then (case get_mm (os_kernel W) (int_to_size pid) of
              None \<Rightarrow> (0, s)
            | Some mm \<Rightarrow> (k_virt_to_phys (os_kernel W) (mm_pgd s mm),
                log_events (if mm_is_locked s then [] else [Mmap_read_lock mm, Mmap_read_unlock mm]) s))
      else (0, s))"
  by (simp add: ptedit_get_paging_root_def lib_ioctl_open lib_ioctl_closed get_root_eq
      split: option.split)

lemma walk_root_eq:
  "walk_root W L pid s = (root_of W L pid s, log_events (root_events W L pid s) s)"
  by (auto simp: walk_root_def root_of_def root_events_def get_paging_root_eq split: option.split)

lemma dev_open_log [simp]:
  "dev_open W L (log_events es s) = dev_open W L s"
  "dev_open W L (s\<lparr>phys := m\<rparr>) = dev_open W L s"
  by (simp_all add: dev_open_def)

lemma root_of_log [simp]:
  "root_of W L pid (log_events es s) = root_of W L pid s"
  "root_of W L pid (s\<lparr>phys := m\<rparr>) = root_of W L pid s"
  by (simp_all add: root_of_def cong: option.case_cong)

lemma invalidate_tlb_eq:
  "ptedit_invalidate_tlb W L a s = log_events
     (if dev_open W L s then flush_events (os_kernel W) a (invalidate_tlb_p s) else []) s"
  by (simp add: ptedit_invalidate_tlb_def lib_ioctl_open lib_ioctl_closed invalidate_tlb_log)

subsection \<open>Resolving and updating in user space\<close>

lemma user_ext_eq:
  assumes "phys_access deref pset ok" "lib_x86 L" "os_arch W = X86_64"
    and "root_of W L pid s \<noteq> 0"
    and "accessible ok (phys s) (root_of W L pid s) a" "narrow_walk (phys s) (root_of W L pid s) a"
  shows "ptedit_resolve_user_ext W L deref a pid s =
     Some (user_entry (phys s) (root_of W L pid s) a (int_to_size pid),
           log_events (root_events W L pid s) s)"
  using phys_access.walk_tables_eq [OF assms(1,2,5,6)] assms(3,4)
  by (simp add: ptedit_resolve_user_ext_def walk_root_eq)

lemma update_ext_eq:
  assumes "phys_access deref pset ok" "lib_x86 L" "os_arch W = X86_64"
    and "root_of W L pid s \<noteq> 0"
    and "accessible ok (phys s) (root_of W L pid s) a" "narrow_walk (phys s) (root_of W L pid s) a"
    and "reaches_pte (phys s) (root_of W L pid s) a" "e_valid vm = PTEDIT_VALID_MASK_PTE"
    and "ptedit_resolve W L a pid s =
      Some (user_entry (phys s) (root_of W L pid s) a (int_to_size pid), log_events es s)"
  shows "\<exists>es. ptedit_update_user_ext W L pset a pid vm s =
     Some (log_events es
       (s\<lparr>phys := store64 (phys s) (pte_slot (phys s) (root_of W L pid s) a) (e_pte vm)\<rparr>))"
proof -
  have "write_tables X86_64 L pset a (root_of W L pid s) vm
      (user_entry (phys s) (root_of W L pid s) a (int_to_size pid)) (phys s) =
      Some (store64 (phys s) (pte_slot (phys s) (root_of W L pid s) a) (e_pte vm))"
    using phys_access.write_pte_tables [OF assms(1,2,5,6,8,7)] by simp
  then show ?thesis
    using assms(3,4,9)
    by (simp only: ptedit_update_user_ext_def walk_root_eq) (auto simp: invalidate_tlb_eq)
qed

text \<open>The user-space implementation selected in \<open>L\<close> can walk for \<open>a\<close> and \<open>pid\<close>.\<close>

definition access_ok :: "os \<Rightarrow> lib \<Rightarrow> u64 \<Rightarrow> bool" where
  "access_ok W L a =
     (case ptedit_resolve_p L of
        Some Impl_user_map \<Rightarrow> vmem_ok L a
      | Some Impl_user \<Rightarrow> umem_ok W L a 8
      | _ \<Rightarrow> False)"

definition user_ready :: "os \<Rightarrow> lib \<Rightarrow> u64 \<Rightarrow> u32 \<Rightarrow> kstate \<Rightarrow> bool" where
  "user_ready W L a pid s \<longleftrightarrow> lib_x86 L \<and> os_arch W = X86_64
     \<and> ptedit_resolve_p L \<in> {Some Impl_user, Some Impl_user_map}
     \<and> ptedit_update_p L = ptedit_resolve_p L
     \<and> root_of W L pid s \<noteq> 0
     \<and> accessible (access_ok W L) (phys s) (root_of W L pid s) a
     \<and> narrow_walk (phys s) (root_of W L pid s) a"

lemma user_resolve:
  assumes "user_ready W L a pid s"
  shows "ptedit_resolve W L a pid s =
    Some (user_entry (phys s) (root_of W L pid s) a (int_to_size pid),
          log_events (root_events W L pid s) s)"
  using assms
    user_ext_eq [OF via_map.phys_access_axioms, where W = W and L = L and pid = pid and s = s and a = a]
    user_ext_eq [OF via_umem.phys_access_axioms, where W = W and L = L and pid = pid and s = s and a = a]
  by (auto simp: user_ready_def ptedit_resolve_def ptedit_resolve_user_def ptedit_resolve_user_map_def
      access_ok_def [abs_def])

lemma user_update:
  assumes "user_ready W L a pid s" "reaches_pte (phys s) (root_of W L pid s) a"
    "e_valid vm = PTEDIT_VALID_MASK_PTE"
  shows "\<exists>es. ptedit_update W L a pid vm s =
    Some (vm, log_events es
      (s\<lparr>phys := store64 (phys s) (pte_slot (phys s) (root_of W L pid s) a) (e_pte vm)\<rparr>))"
proof -
  note r = user_resolve [OF assms(1)]
  from assms(1) consider "ptedit_resolve_p L = Some Impl_user" | "ptedit_resolve_p L = Some Impl_user_map"
    by (auto simp: user_ready_def)
  then show ?thesis
  proof cases
    case 1
    then have "accessible (\<lambda>a. umem_ok W L a 8) (phys s) (root_of W L pid s) a"
      using assms(1) by (simp add: user_ready_def access_ok_def [abs_def])
    then show ?thesis
      using update_ext_eq [OF via_umem.phys_access_axioms _ _ _ _ _ assms(2,3) r] assms(1) 1
      by (fastforce simp: user_ready_def ptedit_update_def ptedit_update_user_def invalidate_tlb_eq)
  next
    case 2
    then have "accessible (vmem_ok L) (phys s) (root_of W L pid s) a"
      using assms(1) by (simp add: user_ready_def access_ok_def [abs_def])
    then show ?thesis
      using update_ext_eq [OF via_map.phys_access_axioms _ _ _ _ _ assms(2,3) r] assms(1) 2
      by (fastforce simp: user_ready_def ptedit_update_def ptedit_update_user_map_def invalidate_tlb_eq)
  qed
qed

subsection \<open>Resolving and updating through the kernel\<close>

definition kernel_root :: "os \<Rightarrow> u32 \<Rightarrow> kstate \<Rightarrow> u64" where
  "kernel_root W pid s =
     (case get_mm (os_kernel W) (int_to_size pid) of
        None \<Rightarrow> 0 | Some mm \<Rightarrow> k_virt_to_phys (os_kernel W) (mm_pgd s mm))"

definition kernel_ready :: "os \<Rightarrow> lib \<Rightarrow> u64 \<Rightarrow> u32 \<Rightarrow> kstate \<Rightarrow> bool" where
  "kernel_ready W L a pid s \<longleftrightarrow> linux_paging (os_kernel W) \<and> dev_open W L s
     \<and> ptedit_resolve_p L = Some Impl_kernel \<and> ptedit_update_p L = Some Impl_kernel
     \<and> get_mm (os_kernel W) (int_to_size pid) \<noteq> None
     \<and> regular_walk (os_kernel W) (phys s) (kernel_root W pid s) a"

lemma kernel_resolve:
  assumes "kernel_ready W L a pid s"
  shows "\<exists>es. ptedit_resolve W L a pid s =
    Some (resolved_entry (phys s) (kernel_root W pid s) (empty_entry a (int_to_size pid)), log_events es s)"
proof -
  obtain mm where mm: "get_mm (os_kernel W) (int_to_size pid) = Some mm"
    and root: "kernel_root W pid s = k_virt_to_phys (os_kernel W) (mm_pgd s mm)"
    using assms by (auto simp: kernel_ready_def kernel_root_def)
  show ?thesis
    using assms linux_paging.resolve_ioctl [of "os_kernel W" "empty_entry a (int_to_size pid)" mm s] mm
    by (auto simp: kernel_ready_def ptedit_resolve_def ptedit_resolve_kernel_def lib_ioctl_open
        root empty_entry_def simp del: device_ioctl.simps intro: exI [of _ "[]"])
qed

lemma kernel_update:
  assumes "kernel_ready W L a pid s" "reaches_pte (phys s) (kernel_root W pid s) a"
    "e_valid vm = PTEDIT_VALID_MASK_PTE"
  shows "\<exists>es. ptedit_update W L a pid vm s =
    Some (vm\<lparr>e_vaddr := a, e_pid := int_to_size pid\<rparr>, log_events es
      (s\<lparr>phys := store64 (phys s) (pte_slot (phys s) (kernel_root W pid s) a) (e_pte vm)\<rparr>))"
proof -
  obtain mm where mm: "get_mm (os_kernel W) (int_to_size pid) = Some mm"
    and root: "kernel_root W pid s = k_virt_to_phys (os_kernel W) (mm_pgd s mm)"
    using assms by (auto simp: kernel_ready_def kernel_root_def)
  show ?thesis
    using assms mm
      linux_paging.update_ioctl [of "os_kernel W" "vm\<lparr>e_vaddr := a, e_pid := int_to_size pid\<rparr>" mm s]
    by (simp add: kernel_ready_def ptedit_update_def ptedit_update_kernel_def lib_ioctl_open root
        del: device_ioctl.simps) blast
qed

lemma kernel_update_pmd:
  assumes "kernel_ready W L a pid s" "reaches_pmd (phys s) (kernel_root W pid s) a"
    "e_valid vm = PTEDIT_VALID_MASK_PMD"
  shows "\<exists>es. ptedit_update W L a pid vm s =
    Some (vm\<lparr>e_vaddr := a, e_pid := int_to_size pid\<rparr>, log_events es
      (s\<lparr>phys := store64 (phys s) (pmd_slot (phys s) (kernel_root W pid s) a) (e_pmd vm)\<rparr>))"
proof -
  obtain mm where mm: "get_mm (os_kernel W) (int_to_size pid) = Some mm"
    and root: "kernel_root W pid s = k_virt_to_phys (os_kernel W) (mm_pgd s mm)"
    using assms by (auto simp: kernel_ready_def kernel_root_def)
  obtain es where "device_ioctl (os_kernel W) (IOCTL_VM_UPDATE (vm\<lparr>e_vaddr := a, e_pid := int_to_size pid\<rparr>)) s
      = (0, Out_none, log_events es (s\<lparr>phys := store64 (phys s) (pmd_slot (phys s) (kernel_root W pid s) a) (e_pmd vm)\<rparr>))"
    using assms mm
      linux_paging.update_pmd_ioctl [of "os_kernel W" "vm\<lparr>e_vaddr := a, e_pid := int_to_size pid\<rparr>" mm s]
    by (auto simp: kernel_ready_def root simp del: device_ioctl.simps)
  then show ?thesis
    using assms(1)
    by (auto simp: kernel_ready_def ptedit_update_def ptedit_update_kernel_def lib_ioctl_open
        simp del: device_ioctl.simps)
qed

subsection \<open>The contract of the function pointers\<close>

text \<open>
  What the rest of the library relies on of \<open>ptedit_resolve\<close> and \<open>ptedit_update\<close>, whichever
  implementation is selected: where the state is ready for an address whose walk reaches the
  page table, resolving returns the entry in the slot and changes nothing but the log, and
  updating the page-table level stores the entry in the slot and changes nothing else.
\<close>

locale pte_service =
  fixes W :: os and L :: lib
    and ready :: "u64 \<Rightarrow> u32 \<Rightarrow> kstate \<Rightarrow> bool"
    and root :: "u32 \<Rightarrow> kstate \<Rightarrow> u64"
  assumes resolves: "ready a pid s \<Longrightarrow> reaches_pte (phys s) (root pid s) a \<Longrightarrow>
      \<exists>e es. ptedit_resolve W L a pid s = Some (e, log_events es s)
        \<and> e_pte e = load64 (phys s) (pte_slot (phys s) (root pid s) a) \<and> bit (e_valid e) 4"
    and updates: "ready a pid s \<Longrightarrow> reaches_pte (phys s) (root pid s) a \<Longrightarrow>
      e_valid vm = PTEDIT_VALID_MASK_PTE \<Longrightarrow>
      \<exists>vm' es. ptedit_update W L a pid vm s = Some (vm', log_events es
        (s\<lparr>phys := store64 (phys s) (pte_slot (phys s) (root pid s) a) (e_pte vm)\<rparr>))"
    and ready_log: "ready a pid s \<Longrightarrow> ready a pid (log_events es s)"
    and root_log: "root pid (log_events es s) = root pid s" "root pid (s\<lparr>phys := m\<rparr>) = root pid s"
    and ready_write: "ready a pid s \<Longrightarrow> pte_separate (phys s) (root pid s) a \<Longrightarrow>
      ready a pid (s\<lparr>phys := store64 (phys s) (pte_slot (phys s) (root pid s) a) v\<rparr>)"

lemma accessible_write:
  assumes "pte_separate m root a"
  shows "accessible ok (store64 m (pte_slot m root a) v) root a = accessible ok m root a"
    and "narrow_walk (store64 m (pte_slot m root a) v) root a = narrow_walk m root a"
  using assms unfolding pte_separate_def accessible_def narrow_walk_def by (simp_all add: walk_frame)

definition pte_ready :: "os \<Rightarrow> lib \<Rightarrow> u64 \<Rightarrow> u32 \<Rightarrow> kstate \<Rightarrow> bool" where
  "pte_ready W L a pid s \<longleftrightarrow> user_ready W L a pid s \<or> kernel_ready W L a pid s"

definition pte_root :: "os \<Rightarrow> lib \<Rightarrow> u32 \<Rightarrow> kstate \<Rightarrow> u64" where
  "pte_root W L pid s =
     (if ptedit_resolve_p L = Some Impl_kernel then kernel_root W pid s else root_of W L pid s)"

lemma user_ready_pte_root: "user_ready W L a pid s \<Longrightarrow> pte_root W L pid s = root_of W L pid s"
  by (auto simp: pte_root_def user_ready_def)

lemma kernel_ready_pte_root: "kernel_ready W L a pid s \<Longrightarrow> pte_root W L pid s = kernel_root W pid s"
  by (auto simp: pte_root_def kernel_ready_def)

lemma kernel_root_log [simp]:
  "kernel_root W pid (log_events es s) = kernel_root W pid s"
  "kernel_root W pid (s\<lparr>phys := m\<rparr>) = kernel_root W pid s"
  by (simp_all add: kernel_root_def cong: option.case_cong)

lemma pte_resolves:
  assumes "pte_ready W L a pid s" "reaches_pte (phys s) (pte_root W L pid s) a"
  shows "\<exists>e es. ptedit_resolve W L a pid s = Some (e, log_events es s)
    \<and> e_pte e = load64 (phys s) (pte_slot (phys s) (pte_root W L pid s) a) \<and> bit (e_valid e) 4"
  using assms(1) unfolding pte_ready_def
proof
  assume u: "user_ready W L a pid s"
  then show ?thesis
    using user_resolve [OF u] assms(2)
    by (auto simp: user_ready_pte_root [OF u] user_entry_def reaches_pte_def Let_def)
next
  assume k: "kernel_ready W L a pid s"
  then show ?thesis
    using kernel_resolve [OF k] assms(2)
    by (auto simp: kernel_ready_pte_root [OF k] resolved_entry_def Let_def walk_valid_bits
        empty_entry_def)
qed

lemma pte_updates:
  assumes "pte_ready W L a pid s" "reaches_pte (phys s) (pte_root W L pid s) a"
    "e_valid vm = PTEDIT_VALID_MASK_PTE"
  shows "\<exists>vm' es. ptedit_update W L a pid vm s = Some (vm', log_events es
    (s\<lparr>phys := store64 (phys s) (pte_slot (phys s) (pte_root W L pid s) a) (e_pte vm)\<rparr>))"
  using assms user_update [of W L a pid s vm] kernel_update [of W L a pid s vm]
  by (auto simp: pte_ready_def user_ready_pte_root kernel_ready_pte_root)

interpretation selected: pte_service W L "pte_ready W L" "pte_root W L" for W L
proof unfold_locales
  fix a pid s v
  assume "pte_ready W L a pid s" "pte_separate (phys s) (pte_root W L pid s) a"
  then show "pte_ready W L a pid
      (s\<lparr>phys := store64 (phys s) (pte_slot (phys s) (pte_root W L pid s) a) v\<rparr>)"
    by (auto simp: pte_ready_def user_ready_pte_root kernel_ready_pte_root accessible_write
        user_ready_def kernel_ready_def regular_walk_write_pte)
qed (fact pte_resolves pte_updates |
    auto simp: pte_root_def pte_ready_def user_ready_def kernel_ready_def)+

context pte_service
begin

lemma update_resolve:
  assumes "ready a pid s" "reaches_pte (phys s) (root pid s) a" "pte_separate (phys s) (root pid s) a"
    "e_valid vm = PTEDIT_VALID_MASK_PTE"
  shows "\<exists>vm' s' e s''. ptedit_update W L a pid vm s = Some (vm', s')
    \<and> ptedit_resolve W L a pid s' = Some (e, s'') \<and> e_pte e = e_pte vm \<and> bit (e_valid e) 4
    \<and> translate (phys s') (root pid s') a =
        (if bit (e_pte vm) 0 then Some (table_base (e_pte vm) OR take_bit 12 a) else None)"
proof -
  let ?p = "pte_slot (phys s) (root pid s) a"
  obtain vm' es where u: "ptedit_update W L a pid vm s =
      Some (vm', log_events es (s\<lparr>phys := store64 (phys s) ?p (e_pte vm)\<rparr>))"
    using updates [OF assms(1,2,4)] by blast
  let ?s = "log_events es (s\<lparr>phys := store64 (phys s) ?p (e_pte vm)\<rparr>)"
  have r: "ready a pid ?s" using assms ready_log ready_write by blast
  have root: "root pid ?s = root pid s" by (simp add: root_log)
  note w = write_pte [OF assms(3), of "e_pte vm"]
  have reach: "reaches_pte (phys ?s) (root pid ?s) a"
    using assms(2) w(3) by (simp add: root)
  obtain e es' where e: "ptedit_resolve W L a pid ?s = Some (e, log_events es' ?s)"
      "e_pte e = load64 (phys ?s) (pte_slot (phys ?s) (root pid ?s) a)" "bit (e_valid e) 4"
    using resolves [OF r reach] by blast
  have "load64 (phys ?s) (pte_slot (phys ?s) (root pid ?s) a) = e_pte vm"
    using w(2) by (simp add: root)
  moreover from this have "translate (phys ?s) (root pid ?s) a =
      (if bit (e_pte vm) 0 then Some (table_base (e_pte vm) OR take_bit 12 a) else None)"
    using translate_reaches [OF reach] by simp
  ultimately show ?thesis using u e by metis
qed

end

subsection \<open>Concrete instance\<close>

text \<open>The library on the concrete address space, with physical memory mapped.\<close>

definition demo_os :: os where
  "demo_os = \<lparr>os_arch = X86_64, os_kernel = linux_x86 3 9, os_dev_fd = 5, os_umem_fd = 6,
     os_getpagesize = 4096, os_mmap_umem = (\<lambda>len off. 0x7f0000000000), os_umem_ok = (\<lambda>a n. unat a + n \<le> 2 ^ 35)\<rparr>"

definition demo_lib :: lib where
  "demo_lib = \<lparr>ptedit_fd = 5, ptedit_umem = 6, ptedit_pagesize = 4096, ptedit_pfn_multiply = 4096,
     ptedit_entry_size = 8, ptedit_paging_root = demo_root, ptedit_vmem = 0x7f0000000000,
     ptedit_paging_definition = init_paging_definition X86_64 4096,
     ptedit_resolve_p = Some Impl_user_map, ptedit_update_p = Some Impl_user_map\<rparr>"

definition demo_open :: kstate where
  "demo_open = demo_kstate\<lparr>device_busy := True\<rparr>"

lemma demo_accessible: "(\<And>a. unat a < 2 ^ 34 \<Longrightarrow> ok a) \<Longrightarrow> accessible ok demo_mem demo_root demo_addr"
  unfolding accessible_def demo_slots demo_loads by simp

lemma demo_narrow: "narrow_walk demo_mem demo_root demo_addr"
  unfolding narrow_walk_def demo_slots demo_loads by (simp add: narrow_def field_def)

lemma demo_open_simps [simp]: "phys demo_open = demo_mem" "device_busy demo_open"
  "mm_is_locked demo_open = False" "mm_pgd demo_open mm = demo_root + PAGE_OFFSET"
  by (simp_all add: demo_open_def demo_kstate_def)

lemma demo_root_of [simp]: "root_of demo_os demo_lib 0 demo_open = demo_root"
  by (simp add: root_of_def demo_lib_def demo_root_def)

lemma demo_user_ready: "user_ready demo_os demo_lib demo_addr 0 demo_open"
  unfolding user_ready_def demo_root_of
  by (auto simp: lib_x86_def demo_lib_def demo_os_def demo_root_def [symmetric] access_ok_def
      vmem_ok_def MAP_FAILED_def demo_narrow intro!: demo_accessible)
    (simp add: demo_root_def)

definition demo_lib_kernel :: lib where
  "demo_lib_kernel = demo_lib\<lparr>ptedit_resolve_p := Some Impl_kernel, ptedit_update_p := Some Impl_kernel\<rparr>"

lemma demo_kernel_root: "kernel_root demo_os 0 demo_open = demo_root"
  by (simp add: kernel_root_def demo_os_def int_to_size_def) (simp add: linux_x86_def)

lemma demo_kernel_ready: "kernel_ready demo_os demo_lib_kernel demo_addr 0 demo_open"
  unfolding kernel_ready_def demo_kernel_root
  using linux_x86.linux_paging_axioms demo_regular
  by (simp add: demo_os_def demo_lib_kernel_def dev_open_def demo_lib_def int_to_size_def)

lemma demo_ready:
  "pte_ready demo_os demo_lib demo_addr 0 demo_open"
  "pte_root demo_os demo_lib 0 demo_open = demo_root"
  "reaches_pte (phys demo_open) (pte_root demo_os demo_lib 0 demo_open) demo_addr"
  "pte_separate (phys demo_open) (pte_root demo_os demo_lib 0 demo_open) demo_addr"
  using demo_user_ready user_ready_pte_root [OF demo_user_ready] demo_reaches demo_separate
  by (simp_all add: pte_ready_def)

subsection \<open>Properties of the walk\<close>



text \<open>
  C3. What one update writes the next resolve reads, for each of the three implementations: after
  \<open>ptedit_update\<close> with the page-table level valid, \<open>ptedit_resolve\<close> returns the entry written
  and the address translates through it.\<close>

theorem resolve_after_update:
  assumes "pte_ready W L a pid s" "reaches_pte (phys s) (pte_root W L pid s) a"
    "pte_separate (phys s) (pte_root W L pid s) a" "e_valid vm = PTEDIT_VALID_MASK_PTE"
  shows "\<exists>vm' s' e s''. ptedit_update W L a pid vm s = Some (vm', s')
    \<and> ptedit_resolve W L a pid s' = Some (e, s'') \<and> e_pte e = e_pte vm \<and> bit (e_valid e) 4
    \<and> translate (phys s') (pte_root W L pid s') a =
        (if bit (e_pte vm) 0 then Some (table_base (e_pte vm) OR take_bit 12 a) else None)"
  by (rule selected.update_resolve [OF assms])

theorem resolve_after_update_witness:
  "\<exists>vm' s' e s''. ptedit_update demo_os demo_lib demo_addr 0 demo_entry demo_open = Some (vm', s')
    \<and> ptedit_resolve demo_os demo_lib demo_addr 0 s' = Some (e, s'') \<and> e_pte e = 0x7027
    \<and> translate (phys s') (pte_root demo_os demo_lib 0 s') demo_addr = Some 0x7123"
proof -
  have v: "e_valid demo_entry = PTEDIT_VALID_MASK_PTE" "e_pte demo_entry = 0x7027"
    by (simp_all add: demo_entry_def)
  have t: "table_base 0x7027 OR take_bit 12 demo_addr = 0x7123" "bit (0x7027::u64) 0"
    by (simp_all add: table_base_def field_def demo_addr_def)
  show ?thesis
    using resolve_after_update [OF demo_ready(1,3,4) v(1)] unfolding v(2) using t by auto
qed

text \<open>
  C4. The kernel's resolver and the user-space resolver agree: on an address whose walk reaches
  the page table they return the same five entries, and their masks differ exactly in the
  folded level, which only the kernel reports.\<close>

theorem kernel_user_agree:
  assumes "user_ready W L a pid s" "kernel_ready W L' a pid s"
    and "root_of W L pid s = kernel_root W pid s"
    and "reaches_pte (phys s) (kernel_root W pid s) a"
  shows "\<exists>e k es es'. ptedit_resolve W L a pid s = Some (e, log_events es s)
    \<and> ptedit_resolve W L' a pid s = Some (k, log_events es' s)
    \<and> k = e\<lparr>e_valid := e_valid e OR PTEDIT_VALID_MASK_P4D\<rparr> \<and> \<not> bit (e_valid e) 1"
proof -
  let ?r = "kernel_root W pid s"
  let ?e = "user_entry (phys s) ?r a (int_to_size pid)"
  let ?k = "resolved_entry (phys s) ?r (empty_entry a (int_to_size pid))"
  obtain es' where k: "ptedit_resolve W L' a pid s = Some (?k, log_events es' s)"
    using kernel_resolve [OF assms(2)] by blast
  have e: "ptedit_resolve W L a pid s = Some (?e, log_events (root_events W L pid s) s)"
    using user_resolve [OF assms(1)] assms(3) by simp
  have or: "(29::u64) OR PTEDIT_VALID_MASK_P4D = 31" and nb: "\<not> bit (29::u64) 1"
    by (simp_all add: valid_masks)
  have ev: "e_valid ?e = 29"
    using assms(4) by (simp add: reaches_pte_def user_entry_def Let_def)
  have "bit (31::u64) (Suc 0)" "bit (31::u64) 2" "bit (31::u64) 3" "bit (31::u64) 4"
    by simp_all
  then have "?k = ?e\<lparr>e_valid := 31\<rparr>"
    using assms(4) walk_valid_reaches [OF assms(4)]
    by (simp add: resolved_entry_def user_entry_def reaches_pte_def empty_entry_def Let_def)
  then have "?k = ?e\<lparr>e_valid := e_valid ?e OR PTEDIT_VALID_MASK_P4D\<rparr> \<and> \<not> bit (e_valid ?e) 1"
    unfolding ev or using nb by blast
  then show ?thesis using e k by blast
qed

theorem kernel_user_agree_witness:
  "\<exists>e k es es'. ptedit_resolve demo_os demo_lib demo_addr 0 demo_open = Some (e, log_events es demo_open)
    \<and> ptedit_resolve demo_os demo_lib_kernel demo_addr 0 demo_open = Some (k, log_events es' demo_open)
    \<and> k = e\<lparr>e_valid := e_valid e OR PTEDIT_VALID_MASK_P4D\<rparr> \<and> \<not> bit (e_valid e) 1"
  by (rule kernel_user_agree [OF demo_user_ready demo_kernel_ready])
    (simp_all add: demo_kernel_root demo_reaches)

text \<open>A walk that succeeds with one reader succeeds with every reader that agrees with it.\<close>

definition opt_le :: "'a option \<Rightarrow> 'a option \<Rightarrow> bool" where
  "opt_le x y \<longleftrightarrow> (\<forall>v. x = Some v \<longrightarrow> y = Some v)"

lemma opt_le_refl: "opt_le x x"
  by (simp add: opt_le_def)

lemma opt_le_bind: "opt_le x y \<Longrightarrow> (\<And>v. opt_le (f v) (g v)) \<Longrightarrow> opt_le (x \<bind> f) (y \<bind> g)"
  by (cases x) (simp_all add: opt_le_def)

lemma opt_le_if: "opt_le x x' \<Longrightarrow> opt_le y y' \<Longrightarrow> opt_le (if c then x else y) (if c then x' else y')"
  by simp

lemmas opt_le_intros = opt_le_bind opt_le_if opt_le_refl

lemma walk_tables_mono:
  assumes "\<And>x. opt_le (d1 x) (d2 x)"
  shows "opt_le (walk_tables A L d1 a root r) (walk_tables A L d2 a root r)"
  unfolding walk_tables_def Let_def by (intro opt_le_intros assms)

text \<open>
  The two user-space implementations agree, for both architectures and any paging layout:
  when \<open>/proc/umem\<close> is readable wherever it is mapped, a walk through the mapping that does not
  fault returns exactly what the walk with \<open>pread\<close> returns.\<close>

lemma map_pread_agree:
  assumes "\<forall>x. vmem_ok L x \<longrightarrow> umem_ok W L x 8"
    and "ptedit_resolve_user_map W L a pid s = Some r"
  shows "ptedit_resolve_user W L a pid s = Some r"
proof -
  have d: "opt_le (ptedit_phys_read_map L m x) (ptedit_phys_read_pread W L m x)" for m x
    using assms(1) by (simp add: opt_le_def ptedit_phys_read_map_def ptedit_phys_read_pread_def)
  have "opt_le (ptedit_resolve_user_map W L a pid s) (ptedit_resolve_user W L a pid s)"
    unfolding ptedit_resolve_user_map_def ptedit_resolve_user_def ptedit_resolve_user_ext_def
      walk_root_eq Let_def prod.case
    by (intro opt_le_intros walk_tables_mono d)
  with assms(2) show ?thesis by (simp add: opt_le_def)
qed

text \<open>The writes of an update with any mask, through the selected user-space access.\<close>

lemma user_update_tables:
  assumes "user_ready W L a pid s"
  defines "m \<equiv> phys s" and "root \<equiv> root_of W L pid s"
  shows "\<exists>es b3 b2 b1 b0. ptedit_update W L a pid vm s = Some (vm, log_events es (s\<lparr>phys :=
    store_if b3 (pgd_slot root a) (e_pgd vm) (store_if b2 (pud_slot m root a) (e_pud vm)
      (store_if b1 (pmd_slot m root a) (e_pmd vm) (store_if b0 (pte_slot m root a) (e_pte vm) m)))\<rparr>))"
proof -
  note r = user_resolve [OF assms(1)]
  have ready: "lib_x86 L" "os_arch W = X86_64" "root \<noteq> 0" "narrow_walk m root a"
      "ptedit_update_p L = ptedit_resolve_p L" "accessible (access_ok W L) m root a"
    using assms(1) by (simp_all add: user_ready_def m_def root_def)
  from assms(1) consider "ptedit_resolve_p L = Some Impl_user" | "ptedit_resolve_p L = Some Impl_user_map"
    by (auto simp: user_ready_def)
  then show ?thesis
  proof cases
    case 1
    then have "accessible (\<lambda>a. umem_ok W L a 8) m root a"
      using ready(6) by (simp add: access_ok_def [abs_def])
    from via_umem.write_tables_eq [OF ready(1) this ready(4)] show ?thesis
      using 1 r ready
      by (simp add: ptedit_update_def ptedit_update_user_def ptedit_update_user_ext_def walk_root_eq
          invalidate_tlb_eq m_def [symmetric] root_def [symmetric]) blast
  next
    case 2
    then have "accessible (vmem_ok L) m root a"
      using ready(6) by (simp add: access_ok_def [abs_def])
    from via_map.write_tables_eq [OF ready(1) this ready(4)] show ?thesis
      using 2 r ready
      by (simp add: ptedit_update_def ptedit_update_user_map_def ptedit_update_user_ext_def walk_root_eq
          invalidate_tlb_eq m_def [symmetric] root_def [symmetric]) blast
  qed
qed

text \<open>
  C19. A user-space update, whatever levels the caller marks valid, writes nothing but the slots of
  the address's own walk: every range of physical memory apart from these four entries keeps
  its bytes.\<close>

theorem user_update_frame:
  assumes "user_ready W L a pid s"
    and "\<forall>p \<in> set (pte_slot (phys s) (root_of W L pid s) a # upper_slots (phys s) (root_of W L pid s) a).
           apart p 8 x k" "k < 2 ^ 64"
  shows "\<exists>s'. ptedit_update W L a pid vm s = Some (vm, s')
    \<and> read_bytes (phys s') x k = read_bytes (phys s) x k"
  using user_update_tables [OF assms(1), of vm] assms(2,3)
  by (auto simp: upper_slots_def read_bytes_store_if)

theorem user_update_frame_witness:
  "\<exists>s'. ptedit_update demo_os demo_lib demo_addr 0 (demo_entry\<lparr>e_valid := 31\<rparr>) demo_open
      = Some (demo_entry\<lparr>e_valid := 31\<rparr>, s')
    \<and> read_bytes (phys s') 0x5000 4096 = read_bytes (phys demo_open) 0x5000 4096"
  by (rule user_update_frame [OF demo_user_ready])
    (simp_all add: demo_slots upper_slots_def apart_def)

text \<open>
  On a 1 GiB page the user-space resolver goes astray: it does not test the size bit at the
  second level, takes the page for a page-middle table, and returns eight bytes of the page's
  data as a valid \<open>pmd\<close> entry, where the kernel module's resolver reports no such level.\<close>

lemma user_resolver_1g:
  assumes "user_ready W L a pid s"
    and "bit (load64 (phys s) (pgd_slot (root_of W L pid s) a)) 0"
    and "bit (load64 (phys s) (pud_slot (phys s) (root_of W L pid s) a)) 0"
    and "bit (load64 (phys s) (pud_slot (phys s) (root_of W L pid s) a)) 7"
  shows "\<exists>e es. ptedit_resolve W L a pid s = Some (e, log_events es s)
    \<and> bit (e_valid e) 3 \<and> \<not> bit (walk_valid (phys s) (root_of W L pid s) a) 3
    \<and> e_pmd e = load64 (phys s) (slot (table_base (e_pud e)) 1 a)
    \<and> translate (phys s) (root_of W L pid s) a = Some (push_bit 30 (field 30 22 (e_pud e)) OR take_bit 30 a)"
proof (intro exI conjI)
  let ?e = "user_entry (phys s) (root_of W L pid s) a (int_to_size pid)"
  show "ptedit_resolve W L a pid s = Some (?e, log_events (root_events W L pid s) s)"
    by (rule user_resolve [OF assms(1)])
  show "bit (e_valid ?e) 3" using assms(2-4) by (simp add: user_entry_def Let_def)
  show "\<not> bit (walk_valid (phys s) (root_of W L pid s) a) 3"
    using assms(4) by (simp add: walk_valid_bits)
  show "e_pmd ?e = load64 (phys s) (slot (table_base (e_pud ?e)) 1 a)"
    using assms(2-4) by (simp add: user_entry_def Let_def pmd_slot_def)
  show "translate (phys s) (root_of W L pid s) a
      = Some (push_bit 30 (field 30 22 (e_pud ?e)) OR take_bit 30 a)"
    using assms(2-4) by (simp add: translate_def user_entry_def Let_def)
qed

text \<open>
  A process without a paging root is refused safely by the user-space walk: resolving returns
  an entry with no valid level, and updating writes nothing, for either architecture.\<close>

lemma null_root_safe:
  assumes "root_of W L pid s = 0" "ptedit_resolve_p L \<in> {Some Impl_user, Some Impl_user_map}"
    "ptedit_update_p L = ptedit_resolve_p L"
  shows "\<exists>es es'. ptedit_resolve W L a pid s = Some (empty_entry a (int_to_size pid), log_events es s)
    \<and> ptedit_update W L a pid vm s = Some (vm, log_events es' s)"
  using assms
  by (auto simp: ptedit_resolve_def ptedit_resolve_user_def ptedit_resolve_user_map_def
      ptedit_resolve_user_ext_def ptedit_update_def ptedit_update_user_def ptedit_update_user_map_def
      ptedit_update_user_ext_def walk_root_eq invalidate_tlb_eq)


end
