(* ===== verification/Pt_Library.thy ===== *)
theory Pt_Library
  imports Page_Walk
begin

text \<open>
  The rest of the PTEditor library (\<open>PTEditor/ptedit.c\<close> from \<open>ptedit_pmap\<close> on): set-up and tear-down,
  the choice of an implementation, physical pages, paging roots, the TLB, memory types, and the
  \<open>ptedit_pte_\<dots>\<close> functions that read and change one page-table entry.

  The entry functions are clients of the contract \<open>pte_service\<close>: their lemmas are proved once
  and hold for the kernel-backed and both user-space implementations.
\<close>

subsection \<open>Set-up\<close>

definition PTEDIT_IMPL_KERNEL :: int where "PTEDIT_IMPL_KERNEL = 0"
definition PTEDIT_IMPL_USER_PREAD :: int where "PTEDIT_IMPL_USER_PREAD = 1"
definition PTEDIT_IMPL_USER :: int where "PTEDIT_IMPL_USER = 2"

text \<open>\<open>open\<close> of the device goes to the module's \<open>device_open\<close>; \<open>/proc/umem\<close> is there when the module
  has created it.\<close>

definition open_device :: "os \<Rightarrow> kstate \<Rightarrow> int \<times> kstate" where
  "open_device W s =
     (if misc_registered s
      then let (r, s1) = device_open s in (if r = 0 then os_dev_fd W else -1, s1)
      else (-1, s))"

definition open_umem_file :: "os \<Rightarrow> kstate \<Rightarrow> int" where
  "open_umem_file W s = (if umem_entry s then os_umem_fd W else -1)"

definition mmap_umem :: "os \<Rightarrow> lib \<Rightarrow> u64 \<Rightarrow> u64 \<Rightarrow> u64" where
  "mmap_umem W L len off =
     (if 0 \<le> ptedit_umem L \<and> ptedit_umem L = os_umem_fd W then os_mmap_umem W len off else MAP_FAILED)"

definition ptedit_use_implementation :: "os \<Rightarrow> lib \<Rightarrow> int \<Rightarrow> kstate \<Rightarrow> lib \<times> kstate" where
  "ptedit_use_implementation W L impl s =
     (if impl = PTEDIT_IMPL_KERNEL
      then (L\<lparr>ptedit_resolve_p := Some Impl_kernel, ptedit_update_p := Some Impl_kernel\<rparr>, s)
      else if impl = PTEDIT_IMPL_USER_PREAD
      then let L1 = L\<lparr>ptedit_resolve_p := Some Impl_user, ptedit_update_p := Some Impl_user\<rparr>;
               (root, s1) = ptedit_get_paging_root W L1 0 s
           in (L1\<lparr>ptedit_paging_root := root\<rparr>, s1)
      else if impl = PTEDIT_IMPL_USER
      then let L1 = L\<lparr>ptedit_resolve_p := Some Impl_user_map, ptedit_update_p := Some Impl_user_map\<rparr>;
               (root, s1) = ptedit_get_paging_root W L1 0 s;
               L2 = L1\<lparr>ptedit_paging_root := root\<rparr>;
               L3 = (if ptedit_vmem L2 = 0
                     then L2\<lparr>ptedit_vmem := mmap_umem W L2 (push_bit 30 32) 0\<rparr> else L2)
           in (L3, s1)
      else (L, s))"

definition ptedit_get_pagesize :: "os \<Rightarrow> lib \<Rightarrow> kstate \<Rightarrow> int" where
  "ptedit_get_pagesize W L s = fst (lib_ioctl W L IOCTL_GET_PAGESIZE s)"

definition ptedit_init :: "os \<Rightarrow> lib \<Rightarrow> kstate \<Rightarrow> int \<times> lib \<times> kstate" where
  "ptedit_init W L s =
     (let (fd, s1) = open_device W s;
          L1 = L\<lparr>ptedit_fd := fd\<rparr>
      in if fd < 0 then (-1, L1, s1)
         else let L2 = L1\<lparr>ptedit_umem := open_umem_file W s1\<rparr>;
                  (L3, s2) = ptedit_use_implementation W L2 PTEDIT_IMPL_KERNEL s1;
                  L4 = L3\<lparr>ptedit_pagesize := os_getpagesize W\<rparr>;
                  ps = (case os_arch W of X86_64 \<Rightarrow> 0 | AARCH64 \<Rightarrow> ptedit_get_pagesize W L4 s2);
                  L5 = L4\<lparr>ptedit_paging_definition := init_paging_definition (os_arch W) ps\<rparr>;
                  (L6, s3) = (if os_arch W = AARCH64 \<and> ps = 16384
                              then ptedit_use_implementation W L5 PTEDIT_IMPL_USER_PREAD s2
                              else (L5, s2))
              in (0, L6, s3))"

text \<open>Closing the device is the module's \<open>device_release\<close>; the descriptors keep their values.\<close>

definition ptedit_cleanup :: "os \<Rightarrow> lib \<Rightarrow> kstate \<Rightarrow> kstate" where
  "ptedit_cleanup W L s =
     (if 0 \<le> ptedit_fd L \<and> ptedit_fd L = os_dev_fd W then snd (device_release s) else s)"

subsection \<open>Physical pages\<close>

definition ptedit_pmap :: "os \<Rightarrow> lib \<Rightarrow> u64 \<Rightarrow> u64 \<Rightarrow> u64" where
  "ptedit_pmap W L physical len =
     (let ps = int_to_size (ptedit_pagesize L);
          m = mmap_umem W L (len + physical mod ps) ((physical div ps) * ps)
      in m + physical mod ps)"

text \<open>The buffer after reading; the two fields the function leaves unset are zero here.\<close>

definition ptedit_read_physical_page :: "os \<Rightarrow> lib \<Rightarrow> u64 \<Rightarrow> u8 list \<Rightarrow> kstate \<Rightarrow> u8 list \<times> kstate" where
  "ptedit_read_physical_page W L pfn buffer s =
     (if 0 < ptedit_umem L
      then let n = unat (ptedit_pagesize L); a = pfn * int_to_size (ptedit_pagesize L)
           in (if umem_ok W L a n then read_bytes (phys s) a n else buffer, s)
      else let (_, out, s1) = lib_ioctl W L
                 (IOCTL_READ_PAGE \<lparr>pg_pfn = pfn, pg_vaddr = 0, pg_size = 0, pg_buffer = buffer\<rparr>) s
           in (case out of Out_page p \<Rightarrow> (pg_buffer p, s1) | _ \<Rightarrow> (buffer, s1)))"

definition ptedit_write_physical_page :: "os \<Rightarrow> lib \<Rightarrow> u64 \<Rightarrow> u8 list \<Rightarrow> kstate \<Rightarrow> kstate" where
  "ptedit_write_physical_page W L pfn content s =
     (if 0 < ptedit_umem L
      then let n = unat (ptedit_pagesize L); a = pfn * int_to_size (ptedit_pagesize L)
           in (if umem_ok W L a n then s\<lparr>phys := write_bytes (phys s) a (take n content)\<rparr> else s)
      else snd (snd (lib_ioctl W L
             (IOCTL_WRITE_PAGE \<lparr>pg_pfn = pfn, pg_vaddr = 0, pg_size = 0, pg_buffer = content\<rparr>) s)))"

subsection \<open>Roots, TLB and memory types\<close>

definition ptedit_set_paging_root :: "os \<Rightarrow> lib \<Rightarrow> u32 \<Rightarrow> u64 \<Rightarrow> kstate \<Rightarrow> kstate" where
  "ptedit_set_paging_root W L pid root s =
     snd (snd (lib_ioctl W L (IOCTL_SET_ROOT \<lparr>paging_pid = int_to_size pid, paging_root = root\<rparr>) s))"

definition ptedit_switch_tlb_invalidation :: "os \<Rightarrow> lib \<Rightarrow> u32 \<Rightarrow> kstate \<Rightarrow> int \<times> kstate" where
  "ptedit_switch_tlb_invalidation W L impl s =
     (let (r, _, s1) = lib_ioctl W L (IOCTL_SWITCH_TLB_INVALIDATION (int_to_size impl)) s in (r, s1))"

definition ptedit_get_mts :: "os \<Rightarrow> lib \<Rightarrow> kstate \<Rightarrow> u64" where
  "ptedit_get_mts W L s =
     (case fst (snd (lib_ioctl W L IOCTL_GET_PAT s)) of Out_pat v \<Rightarrow> v | _ \<Rightarrow> 0)"

definition ptedit_get_mt :: "os \<Rightarrow> lib \<Rightarrow> u8 \<Rightarrow> kstate \<Rightarrow> u8" where
  "ptedit_get_mt W L mt s = mt_of_mts (os_arch W) (ptedit_get_mts W L s) mt"

definition ptedit_set_mts :: "os \<Rightarrow> lib \<Rightarrow> u64 \<Rightarrow> kstate \<Rightarrow> kstate" where
  "ptedit_set_mts W L mts s = snd (snd (lib_ioctl W L (IOCTL_SET_PAT mts) s))"

text \<open>\<open>None\<close> is the undefined shift of \<open>ptedit_set_mt\<close>.\<close>

definition ptedit_set_mt :: "os \<Rightarrow> lib \<Rightarrow> u8 \<Rightarrow> u8 \<Rightarrow> kstate \<Rightarrow> kstate option" where
  "ptedit_set_mt W L mt val s =
     map_option (\<lambda>mts. ptedit_set_mts W L mts s) (mts_with_mt (os_arch W) (ptedit_get_mts W L s) mt val)"

definition ptedit_find_mt :: "os \<Rightarrow> lib \<Rightarrow> u8 \<Rightarrow> kstate \<Rightarrow> u8" where
  "ptedit_find_mt W L type s = find_mt_in (os_arch W) (ptedit_get_mts W L s) type"

definition ptedit_find_first_mt :: "os \<Rightarrow> lib \<Rightarrow> u8 \<Rightarrow> kstate \<Rightarrow> int" where
  "ptedit_find_first_mt W L type s = builtin_ffs (ptedit_find_mt W L type s) - 1"

text \<open>The fences around the reload of the root order memory accesses and change no state.\<close>

definition ptedit_full_serializing_barrier :: "os \<Rightarrow> lib \<Rightarrow> kstate \<Rightarrow> kstate" where
  "ptedit_full_serializing_barrier W L s =
     (let (root, s1) = ptedit_get_paging_root W L 0 s in ptedit_set_paging_root W L 0 root s1)"

subsection \<open>One page-table entry\<close>

definition ptedit_pte_set_bit :: "os \<Rightarrow> lib \<Rightarrow> u64 \<Rightarrow> u32 \<Rightarrow> nat \<Rightarrow> kstate \<Rightarrow> kstate option" where
  "ptedit_pte_set_bit W L addr pid b s =
     do {
       (vm, s1) \<leftarrow> ptedit_resolve W L addr pid s;
       if \<not> test_mask (e_valid vm) PTEDIT_VALID_MASK_PTE then Some s1
       else do {
         (_, s2) \<leftarrow> ptedit_update W L addr pid
           (vm\<lparr>e_pte := e_pte vm OR push_bit b 1, e_valid := PTEDIT_VALID_MASK_PTE\<rparr>) s1;
         Some s2
       }
     }"

definition ptedit_pte_clear_bit :: "os \<Rightarrow> lib \<Rightarrow> u64 \<Rightarrow> u32 \<Rightarrow> nat \<Rightarrow> kstate \<Rightarrow> kstate option" where
  "ptedit_pte_clear_bit W L addr pid b s =
     do {
       (vm, s1) \<leftarrow> ptedit_resolve W L addr pid s;
       if \<not> test_mask (e_valid vm) PTEDIT_VALID_MASK_PTE then Some s1
       else do {
         (_, s2) \<leftarrow> ptedit_update W L addr pid
           (vm\<lparr>e_pte := e_pte vm AND NOT (push_bit b 1), e_valid := PTEDIT_VALID_MASK_PTE\<rparr>) s1;
         Some s2
       }
     }"

definition ptedit_pte_get_bit :: "os \<Rightarrow> lib \<Rightarrow> u64 \<Rightarrow> u32 \<Rightarrow> nat \<Rightarrow> kstate \<Rightarrow> (u8 \<times> kstate) option" where
  "ptedit_pte_get_bit W L addr pid b s =
     do {
       (vm, s1) \<leftarrow> ptedit_resolve W L addr pid s;
       Some (bit_flag (e_pte vm) b, s1)
     }"

definition ptedit_pte_get_pfn :: "os \<Rightarrow> lib \<Rightarrow> u64 \<Rightarrow> u32 \<Rightarrow> kstate \<Rightarrow> (u64 \<times> kstate) option" where
  "ptedit_pte_get_pfn W L addr pid s =
     do {
       (vm, s1) \<leftarrow> ptedit_resolve W L addr pid s;
       if \<not> test_mask (e_valid vm) PTEDIT_VALID_MASK_PTE then Some (0, s1)
       else Some (ptedit_get_pfn (os_arch W) (e_pte vm), s1)
     }"

definition ptedit_pte_set_pfn :: "os \<Rightarrow> lib \<Rightarrow> u64 \<Rightarrow> u32 \<Rightarrow> u64 \<Rightarrow> kstate \<Rightarrow> kstate option" where
  "ptedit_pte_set_pfn W L addr pid pfn s =
     do {
       (vm, s1) \<leftarrow> ptedit_resolve W L addr pid s;
       if \<not> test_mask (e_valid vm) PTEDIT_VALID_MASK_PTE then Some s1
       else do {
         (_, s2) \<leftarrow> ptedit_update W L addr pid
           (vm\<lparr>e_pte := ptedit_set_pfn (os_arch W) (e_pte vm) pfn, e_valid := PTEDIT_VALID_MASK_PTE\<rparr>) s1;
         Some s2
       }
     }"

lemma cleanup_phys [simp]: "phys (ptedit_cleanup W L s) = phys s"
  by (simp add: ptedit_cleanup_def device_release_def)

subsection \<open>Entry functions over the contract\<close>

context pte_service
begin

abbreviation pte_of :: "u64 \<Rightarrow> u32 \<Rightarrow> kstate \<Rightarrow> u64" where
  "pte_of a pid s \<equiv> load64 (phys s) (pte_slot (phys s) (root pid s) a)"

abbreviation with_pte :: "u64 \<Rightarrow> u32 \<Rightarrow> u64 \<Rightarrow> kstate \<Rightarrow> kstate" where
  "with_pte a pid v s \<equiv> s\<lparr>phys := store64 (phys s) (pte_slot (phys s) (root pid s) a) v\<rparr>"

text \<open>The shape the three modifying functions share.\<close>

lemma modify:
  assumes "ready a pid s" "reaches_pte (phys s) (root pid s) a"
  shows "\<exists>es. (do { (vm, s1) \<leftarrow> ptedit_resolve W L a pid s;
            if \<not> test_mask (e_valid vm) PTEDIT_VALID_MASK_PTE then Some s1
            else do { (_, s2) \<leftarrow> ptedit_update W L a pid
                        (vm\<lparr>e_pte := f (e_pte vm), e_valid := PTEDIT_VALID_MASK_PTE\<rparr>) s1;
                      Some s2 } })
       = Some (log_events es (with_pte a pid (f (pte_of a pid s)) s))"
proof -
  obtain e es where e: "ptedit_resolve W L a pid s = Some (e, log_events es s)"
      "e_pte e = pte_of a pid s" "bit (e_valid e) 4"
    using resolves [OF assms] by blast
  let ?vm = "e\<lparr>e_pte := f (e_pte e), e_valid := PTEDIT_VALID_MASK_PTE\<rparr>"
  have reach: "reaches_pte (phys (log_events es s)) (root pid (log_events es s)) a"
    using assms(2) by (simp add: root_log)
  obtain vm' es' where "ptedit_update W L a pid ?vm (log_events es s)
      = Some (vm', log_events (es @ es') (with_pte a pid (f (pte_of a pid s)) s))"
    using updates [OF ready_log [OF assms(1), of es] reach, of ?vm] e(2) by (auto simp: root_log)
  then show ?thesis using e(1,3) by auto
qed

lemma set_bit:
  assumes "ready a pid s" "reaches_pte (phys s) (root pid s) a"
  shows "\<exists>es. ptedit_pte_set_bit W L a pid b s
    = Some (log_events es (with_pte a pid (pte_of a pid s OR push_bit b 1) s))"
  using modify [OF assms, of "\<lambda>p. p OR push_bit b 1"] unfolding ptedit_pte_set_bit_def .

lemma clear_bit:
  assumes "ready a pid s" "reaches_pte (phys s) (root pid s) a"
  shows "\<exists>es. ptedit_pte_clear_bit W L a pid b s
    = Some (log_events es (with_pte a pid (pte_of a pid s AND NOT (push_bit b 1)) s))"
  using modify [OF assms, of "\<lambda>p. p AND NOT (push_bit b 1)"] unfolding ptedit_pte_clear_bit_def .

lemma set_pfn:
  assumes "ready a pid s" "reaches_pte (phys s) (root pid s) a"
  shows "\<exists>es. ptedit_pte_set_pfn W L a pid p s
    = Some (log_events es (with_pte a pid (ptedit_set_pfn (os_arch W) (pte_of a pid s) p) s))"
  using modify [OF assms, of "\<lambda>e. ptedit_set_pfn (os_arch W) e p"] unfolding ptedit_pte_set_pfn_def .

lemma get_bit:
  assumes "ready a pid s" "reaches_pte (phys s) (root pid s) a"
  shows "\<exists>es. ptedit_pte_get_bit W L a pid b s = Some (bit_flag (pte_of a pid s) b, log_events es s)"
  using resolves [OF assms] by (auto simp: ptedit_pte_get_bit_def)

lemma get_pfn:
  assumes "ready a pid s" "reaches_pte (phys s) (root pid s) a"
  shows "\<exists>es. ptedit_pte_get_pfn W L a pid s
    = Some (ptedit_get_pfn (os_arch W) (pte_of a pid s), log_events es s)"
  using resolves [OF assms] by (auto simp: ptedit_pte_get_pfn_def)

text \<open>Readiness, the root and the walk survive the write.\<close>

lemma after_write:
  fixes v :: u64 and es :: "kevent list"
  assumes "ready a pid s" "reaches_pte (phys s) (root pid s) a" "pte_separate (phys s) (root pid s) a"
  defines "s' \<equiv> log_events es (with_pte a pid v s)"
  shows "ready a pid s'" "reaches_pte (phys s') (root pid s') a" "pte_of a pid s' = v"
    "root pid s' = root pid s" "pte_slot (phys s') (root pid s') a = pte_slot (phys s) (root pid s) a"
    "pte_separate (phys s') (root pid s') a"
proof -
  note w = write_pte [OF assms(3), of v]
  show "ready a pid s'" unfolding s'_def using assms(1,3) ready_log ready_write by blast
  show r: "root pid s' = root pid s" by (simp add: s'_def root_log)
  show "reaches_pte (phys s') (root pid s') a" "pte_of a pid s' = v"
      "pte_slot (phys s') (root pid s') a = pte_slot (phys s) (root pid s) a"
    unfolding r using w assms(2) by (simp_all add: s'_def)
  show "pte_separate (phys s') (root pid s') a"
    unfolding r using w(1,4) assms(3) by (simp add: pte_separate_def s'_def)
qed

lemma bit_ops:
  assumes "ready a pid s" "reaches_pte (phys s) (root pid s) a" "pte_separate (phys s) (root pid s) a"
    and b: "b < 64" and c: "c < 64"
  shows "\<exists>s1 s2 t1 t2. ptedit_pte_set_bit W L a pid b s = Some s1
      \<and> ptedit_pte_get_bit W L a pid c s1 = Some (if c = b \<or> bit (pte_of a pid s) c then 1 else 0, t1)
      \<and> ptedit_pte_clear_bit W L a pid b s = Some s2
      \<and> ptedit_pte_get_bit W L a pid c s2 = Some (if c \<noteq> b \<and> bit (pte_of a pid s) c then 1 else 0, t2)"
proof -
  obtain es where s: "ptedit_pte_set_bit W L a pid b s
      = Some (log_events es (with_pte a pid (pte_of a pid s OR push_bit b 1) s))"
    using set_bit [OF assms(1,2)] by blast
  obtain es' where c': "ptedit_pte_clear_bit W L a pid b s
      = Some (log_events es' (with_pte a pid (pte_of a pid s AND NOT (push_bit b 1)) s))"
    using clear_bit [OF assms(1,2)] by blast
  note w1 = after_write [OF assms(1-3), of es "pte_of a pid s OR push_bit b 1"]
  note w2 = after_write [OF assms(1-3), of es' "pte_of a pid s AND NOT (push_bit b 1)"]
  have f1: "bit_flag (pte_of a pid s OR push_bit b 1) c = (if c = b \<or> bit (pte_of a pid s) c then 1 else 0)"
    and f2: "bit_flag (pte_of a pid s AND NOT (push_bit b 1)) c
      = (if c \<noteq> b \<and> bit (pte_of a pid s) c then 1 else 0)"
    using b c by (auto simp: bit_flag_iff bit_or_iff bit_and_iff bit_not_iff bit_fields)
  show ?thesis
    using s c' get_bit [OF w1(1,2), of c] get_bit [OF w2(1,2), of c] unfolding w1(3) w2(3) f1 f2 by blast
qed

lemma pfn_ops:
  assumes "ready a pid s" "reaches_pte (phys s) (root pid s) a" "pte_separate (phys s) (root pid s) a"
    and p: "unat p < 2 ^ pfn_bits (os_arch W)"
  shows "\<exists>s1 t1 t2. ptedit_pte_set_pfn W L a pid p s = Some s1
      \<and> ptedit_pte_get_pfn W L a pid s1 = Some (p, t1)
      \<and> ptedit_pte_set_pfn W L a pid (ptedit_get_pfn (os_arch W) (pte_of a pid s)) s1 = Some t2
      \<and> phys t2 = phys s"
proof -
  let ?v = "ptedit_set_pfn (os_arch W) (pte_of a pid s) p"
  let ?q = "ptedit_get_pfn (os_arch W) (pte_of a pid s)"
  obtain es where s: "ptedit_pte_set_pfn W L a pid p s = Some (log_events es (with_pte a pid ?v s))"
    using set_pfn [OF assms(1,2)] by blast
  let ?s1 = "log_events es (with_pte a pid ?v s)"
  note w = after_write [OF assms(1-3), of es ?v]
  obtain es' where g: "ptedit_pte_get_pfn W L a pid ?s1 = Some (p, log_events es' ?s1)"
    using get_pfn [OF w(1,2)] unfolding w(3) get_pfn_set_pfn [OF p] by blast
  have "ptedit_set_pfn (os_arch W) ?v ?q = pte_of a pid s"
    using p by (simp add: set_pfn_set_pfn set_pfn_get_pfn)
  then obtain es'' where r: "ptedit_pte_set_pfn W L a pid ?q ?s1
      = Some (log_events es'' (with_pte a pid (pte_of a pid s) ?s1))"
    using set_pfn [OF w(1,2), of ?q] unfolding w(3) by auto
  have "phys (log_events es'' (with_pte a pid (pte_of a pid s) ?s1)) = phys s"
    unfolding w(5) by (simp add: store64_twice store64_load64)
  then show ?thesis using s g r by blast
qed

end

subsection \<open>Properties of the entry functions\<close>

text \<open>
  C17. \<open>ptedit_pte_set_bit\<close> and \<open>ptedit_pte_clear_bit\<close> do what their names say, with the kernel and
  with both user-space implementations: afterwards \<open>ptedit_pte_get_bit\<close> returns 1, or 0, for the
  bit, and for every other bit what it returned before.\<close>

theorem pte_bit_ops:
  assumes "pte_ready W L a pid s" "reaches_pte (phys s) (pte_root W L pid s) a"
    "pte_separate (phys s) (pte_root W L pid s) a" "b < 64" "c < 64"
  shows "let pte = load64 (phys s) (pte_slot (phys s) (pte_root W L pid s) a) in
    \<exists>s1 s2 t1 t2. ptedit_pte_set_bit W L a pid b s = Some s1
      \<and> ptedit_pte_get_bit W L a pid c s1 = Some (if c = b \<or> bit pte c then 1 else 0, t1)
      \<and> ptedit_pte_clear_bit W L a pid b s = Some s2
      \<and> ptedit_pte_get_bit W L a pid c s2 = Some (if c \<noteq> b \<and> bit pte c then 1 else 0, t2)"
  using selected.bit_ops [OF assms] by (simp only: Let_def)

theorem pte_bit_ops_witness:
  "\<exists>s1 s2 t1 t2. ptedit_pte_set_bit demo_os demo_lib demo_addr 0 63 demo_open = Some s1
      \<and> ptedit_pte_get_bit demo_os demo_lib demo_addr 0 63 s1 = Some (1, t1)
      \<and> ptedit_pte_clear_bit demo_os demo_lib demo_addr 0 63 demo_open = Some s2
      \<and> ptedit_pte_get_bit demo_os demo_lib demo_addr 0 63 s2 = Some (0, t2)"
  using pte_bit_ops [OF demo_ready(1,3,4), of 63 63] by (simp add: Let_def)

text \<open>
  C16. Remapping a page with \<open>ptedit_pte_set_pfn\<close>: \<open>ptedit_pte_get_pfn\<close> then returns the frame that was
  set, for every frame number of the architecture's width, and setting the old frame again
  restores physical memory byte for byte.\<close>

theorem pte_pfn_remap_restore:
  assumes "pte_ready W L a pid s" "reaches_pte (phys s) (pte_root W L pid s) a"
    "pte_separate (phys s) (pte_root W L pid s) a" "unat p < 2 ^ pfn_bits (os_arch W)"
  shows "let pte = load64 (phys s) (pte_slot (phys s) (pte_root W L pid s) a) in
    \<exists>s1 t1 t2. ptedit_pte_set_pfn W L a pid p s = Some s1
      \<and> ptedit_pte_get_pfn W L a pid s1 = Some (p, t1)
      \<and> ptedit_pte_set_pfn W L a pid (ptedit_get_pfn (os_arch W) pte) s1 = Some t2
      \<and> phys t2 = phys s"
  using selected.pfn_ops [OF assms] by (simp only: Let_def)

theorem pte_pfn_remap_restore_witness:
  "\<exists>s1 t1 t2. ptedit_pte_set_pfn demo_os demo_lib demo_addr 0 0x77 demo_open = Some s1
      \<and> ptedit_pte_get_pfn demo_os demo_lib demo_addr 0 s1 = Some (0x77, t1)
      \<and> ptedit_pte_set_pfn demo_os demo_lib demo_addr 0 5 s1 = Some t2
      \<and> phys t2 = phys demo_open"
proof -
  have "unat (0x77::u64) < 2 ^ pfn_bits (os_arch demo_os)"
    by (simp add: demo_os_def pfn_bits_def)
  moreover have "ptedit_get_pfn (os_arch demo_os) 0x5067 = 5"
    by (simp add: ptedit_get_pfn_def pfn_mask_def pfn_bits_def demo_os_def)
  ultimately show ?thesis
    using pte_pfn_remap_restore [OF demo_ready(1,3,4), of "0x77"]
    by (simp add: Let_def demo_ready(2) demo_slots demo_loads)
qed

text \<open>Without a page-table level the resolved entry says so.\<close>

lemma unmapped_resolve:
  assumes "pte_ready W L a pid s" "\<not> reaches_pte (phys s) (pte_root W L pid s) a"
    "\<not> bit (load64 (phys s) (pud_slot (phys s) (pte_root W L pid s) a)) 7"
  shows "\<exists>e es. ptedit_resolve W L a pid s = Some (e, log_events es s)
    \<and> \<not> bit (e_valid e) 4 \<and> e_pte e = 0"
  using assms(1) unfolding pte_ready_def
proof
  assume u: "user_ready W L a pid s"
  then show ?thesis
    using user_resolve [OF u] assms(2,3)
    by (auto simp: user_ready_pte_root [OF u] user_entry_def reaches_pte_def Let_def empty_entry_def)
next
  assume k: "kernel_ready W L a pid s"
  then show ?thesis
    using kernel_resolve [OF k] assms(2)
    by (auto simp: kernel_ready_pte_root [OF k] resolved_entry_def Let_def walk_valid_bits
        empty_entry_def)
qed

text \<open>
  An address without a page-table entry (unmapped, or inside a 2 MiB page) is left alone: the
  three modifying functions return without writing physical memory, \<open>ptedit_pte_get_pfn\<close>
  and \<open>ptedit_pte_get_bit\<close> return 0.\<close>

lemma pte_ops_unmapped:
  assumes "pte_ready W L a pid s" "\<not> reaches_pte (phys s) (pte_root W L pid s) a"
    "\<not> bit (load64 (phys s) (pud_slot (phys s) (pte_root W L pid s) a)) 7"
  shows "\<exists>es. ptedit_pte_set_bit W L a pid b s = Some (log_events es s)
      \<and> ptedit_pte_clear_bit W L a pid b s = Some (log_events es s)
      \<and> ptedit_pte_set_pfn W L a pid p s = Some (log_events es s)
      \<and> ptedit_pte_get_pfn W L a pid s = Some (0, log_events es s)
      \<and> ptedit_pte_get_bit W L a pid b s = Some (0, log_events es s)"
  using unmapped_resolve [OF assms]
  by (auto simp: ptedit_pte_set_bit_def ptedit_pte_clear_bit_def ptedit_pte_set_pfn_def
      ptedit_pte_get_pfn_def ptedit_pte_get_bit_def bit_flag_def)

subsection \<open>Set-up, pages and memory types\<close>

text \<open>
  Setting up the library against the loaded module: if the device is registered and free,
  \<open>ptedit_init\<close> returns 0, holds the device exclusively, selects the kernel implementation and, on
  x86-64, describes four levels of nine bits above a 12-bit offset; switching to the mapped
  user-space implementation then installs the caller's own root and, with \<open>/proc/umem\<close> there, the
  32 GiB mapping. If the device is busy or missing, \<open>ptedit_init\<close> returns -1, and the state of
  the module is unchanged.\<close>

lemma library_setup:
  assumes "os_arch W = X86_64" "0 < os_dev_fd W" "0 < os_umem_fd W"
  shows "let (r, L1, s1) = ptedit_init W L s;
             (L2, s2) = ptedit_use_implementation W L1 PTEDIT_IMPL_USER s1
         in (misc_registered s \<and> \<not> device_busy s \<longrightarrow>
               r = 0 \<and> dev_open W L1 s1 \<and> fst (device_open s1) = - 16
             \<and> ptedit_resolve_p L1 = Some Impl_kernel \<and> ptedit_update_p L1 = Some Impl_kernel
             \<and> ptedit_paging_definition L1 = init_paging_definition X86_64 4096
             \<and> ptedit_resolve_p L2 = Some Impl_user_map \<and> ptedit_update_p L2 = Some Impl_user_map
             \<and> (\<forall>mm. get_mm (os_kernel W) 0 = Some mm \<longrightarrow>
                  ptedit_paging_root L2 = k_virt_to_phys (os_kernel W) (mm_pgd s mm))
             \<and> (ptedit_vmem L = 0 \<longrightarrow> ptedit_vmem L2 =
                  (if umem_entry s then os_mmap_umem W (2 ^ 35) 0 else MAP_FAILED)))
          \<and> (\<not> (misc_registered s \<and> \<not> device_busy s) \<longrightarrow> r = -1 \<and> s1 = s)"
proof -
  have z: "int_to_size 0 = 0" by (simp add: int_to_size_def)
  show ?thesis
    using assms
    by (auto simp: ptedit_init_def open_device_def device_open_def EBUSY_def open_umem_file_def
        ptedit_use_implementation_def PTEDIT_IMPL_KERNEL_def PTEDIT_IMPL_USER_PREAD_def
        PTEDIT_IMPL_USER_def get_paging_root_eq dev_open_def mmap_umem_def init_paging_definition_def
        z Let_def split: option.split prod.split)
qed

text \<open>
  A physical page written through the library is read back as written, whether the library
  goes through \<open>/proc/umem\<close> or, without it, through the module.\<close>

lemma physical_page_roundtrip:
  assumes "length content = 4096" "ptedit_pagesize L = 4096"
    and "if 0 < ptedit_umem L then umem_ok W L (pfn * 4096) 4096
         else dev_open W L s \<and> linux_paging (os_kernel W) \<and> direct (pfn * 4096)"
  shows "fst (ptedit_read_physical_page W L pfn buffer (ptedit_write_physical_page W L pfn content s)) = content"
proof -
  have ps: "int_to_size (4096::u32) = 4096" "unat (4096::u32) = 4096" by (simp_all add: int_to_size_def)
  have rw: "read_bytes (write_bytes m x content) x 4096 = content" for m x
    using read_write_bytes_same [of content m x] assms(1) by simp
  show ?thesis
  proof (cases "0 < ptedit_umem L")
    case True
    then show ?thesis
      using assms(3)
      by (simp add: ptedit_read_physical_page_def ptedit_write_physical_page_def assms(1,2) ps rw)
  next
    case False
    then have "page_address (os_kernel W) pfn = pfn * 4096"
      using assms(3) linux_paging.direct_map by (simp add: page_address_def)
    then show ?thesis
      using False assms(3)
      by (simp add: ptedit_read_physical_page_def ptedit_write_physical_page_def assms(1,2) ps rw
          lib_ioctl_open Let_def)
  qed
qed

text \<open>
  Memory types through the whole stack: with one PAT value without bit 31 on all CPUs,
  \<open>ptedit_set_mt\<close> of one of the first four slots to a type below 8 succeeds, \<open>ptedit_get_mt\<close> then
  returns that type for the slot and the old type for each of the other seven.\<close>

lemma set_mt_get_mt:
  assumes "os_arch W = X86_64" "dev_open W L s" "k_this_cpu (os_kernel W) < k_ncpus (os_kernel W)"
    and "\<not> bit (pat_msr s (k_this_cpu (os_kernel W))) 31"
    and "unat mt < 4" "val \<le> 7" "unat i < 8"
  shows "\<exists>s'. ptedit_set_mt W L mt val s = Some s'
    \<and> ptedit_get_mt W L i s' = (if i = mt then val else ptedit_get_mt W L i s)"
proof -
  let ?v = "pat_msr s (k_this_cpu (os_kernel W))"
  have get: "ptedit_get_mts W L s = ?v"
    using assms(2,4) by (simp add: ptedit_get_mts_def lib_ioctl_open get_pat_eq)
  obtain v' where v': "mts_with_mt X86_64 ?v mt val = Some v'"
    using mts_with_mt_defined [of ?v mt val] assms(5) by auto
  have m: "mt_of_mts X86_64 v' i = (if i = mt then val else mt_of_mts X86_64 ?v i)"
    by (rule mts_with_mt_get [OF assms(5) v' assms(6,7)])
  have "unat val < 2 ^ 3" using assms(6) by (simp add: word_le_nat_alt)
  then have "take_bit 3 val = val"
    by (simp add: word_unat_eq_iff unsigned_take_bit_eq take_bit_nat_eq_self)
  then have "bit val k \<Longrightarrow> k < 3" for k by (metis bit_take_bit_iff)
  moreover have "3 \<le> 31 - unat mt * 8" using assms(5) by simp
  ultimately have "\<not> bit val (31 - unat mt * 8)" by (meson not_le)
  then have b31: "\<not> bit v' 31"
    using assms(4) by (simp add: bit_mts_with_mt [OF assms(5) v'])
  let ?s' = "ptedit_set_mts W L v' s"
  have "dev_open W L ?s'" "pat_msr ?s' (k_this_cpu (os_kernel W)) = v'"
    using assms(2,3) by (simp_all add: ptedit_set_mts_def lib_ioctl_open set_pat_eq dev_open_def)
  then have "ptedit_get_mts W L ?s' = v'"
    using b31 by (simp add: ptedit_get_mts_def lib_ioctl_open get_pat_eq)
  then show ?thesis
    using assms(1) v' m get by (simp add: ptedit_set_mt_def ptedit_get_mt_def)
qed

text \<open>
  The serialising barrier reloads the caller's own paging root: it writes no physical memory,
  and the root of every process is the same before and after.\<close>

lemma barrier_keeps_roots:
  assumes "linux_paging (os_kernel W)"
    and "\<And>mm. get_mm (os_kernel W) 0 = Some mm \<Longrightarrow> direct (k_virt_to_phys (os_kernel W) (mm_pgd s mm))"
  shows "phys (ptedit_full_serializing_barrier W L s) = phys s
    \<and> fst (ptedit_get_paging_root W L pid (ptedit_full_serializing_barrier W L s))
      = fst (ptedit_get_paging_root W L pid s)"
proof (cases "dev_open W L s")
  case False
  then show ?thesis
    by (simp add: ptedit_full_serializing_barrier_def get_paging_root_eq ptedit_set_paging_root_def
        lib_ioctl_closed)
next
  case True
  have z: "int_to_size 0 = 0" by (simp add: int_to_size_def)
  show ?thesis
  proof (cases "get_mm (os_kernel W) 0")
    case None
    with True show ?thesis
      by (simp add: ptedit_full_serializing_barrier_def get_paging_root_eq ptedit_set_paging_root_def
          lib_ioctl_open set_root_eq z)
  next
    case (Some mm)
    note dm = linux_paging.direct_map [OF assms(1) assms(2) [OF Some]]
    show ?thesis
      using True Some dm
      by (auto simp: ptedit_full_serializing_barrier_def get_paging_root_eq ptedit_set_paging_root_def
          lib_ioctl_open set_root_eq z dev_open_def split: option.split)
  qed
qed


end
