(* ===== verification/User_Mmap.thy ===== *)
theory User_Mmap
  imports Pt_Library
begin

text \<open>
  User-level \<open>mmap\<close> (\<open>src/user_level_mmap.cc\<close>): one iteration of the page-fault handler thread,
  its loop, \<open>ul_mmap\<close> and \<open>ul_munmap\<close>, on top of the library and kernel-module models.

  System calls and \<open>malloc\<close> are the environment: their results are arguments. The program's
  exits are values of \<open>failure\<close>, and a call that never returns is \<open>Blocked\<close>.
\<close>

subsection \<open>Outcomes and the environment\<close>

datatype failure =
    Err_poll | Exit_eof | Err_read | Exit_unexpected_event | Assert_given_page | Assert_bytes_read
  | Err_wake | Exit_init | Err_mmap | Err_userfaultfd | Err_api | Err_register | Exit_dup | Fault

datatype 'a outcome = Returned 'a | Exited failure | Blocked

record pfhandle_args =
  pf_uffd :: int
  pf_fd :: int
  pf_offset :: u64
  pf_base_addr :: u64
  pf_finish :: bool
  pf_fault_cnt :: int

text \<open>What the environment answers during one iteration. \<open>ev_touch\<close> is what the kernel's demand
  paging does when the new page is first written; \<open>ev_pread\<close> gives the bytes of the backing file
  at an offset.\<close>

record fault_env =
  ev_poll :: int
  ev_read :: int
  ev_pagefault :: bool
  ev_address :: u64
  ev_malloc :: u64
  ev_touch :: "kstate \<Rightarrow> kstate"
  ev_pread :: "int \<Rightarrow> u64 \<Rightarrow> nat \<Rightarrow> u8 list"
  ev_wake :: int

subsection \<open>Memory as the process sees it\<close>

text \<open>Storing bytes at consecutive virtual addresses through the processor's translation.\<close>

fun user_write :: "u64 \<Rightarrow> u64 \<Rightarrow> u8 list \<Rightarrow> mem \<Rightarrow> mem option" where
  "user_write root va [] m = Some m"
| "user_write root va (b # bs) m =
     (case translate m root va of
        None \<Rightarrow> None
      | Some pa \<Rightarrow> user_write root (va + 1) bs (m(pa := b)))"

subsection \<open>The page-fault handler\<close>

text \<open>Filling the given page: a letter that varies with the count, or the file's bytes.\<close>

definition page_content :: "pfhandle_args \<Rightarrow> fault_env \<Rightarrow> nat \<Rightarrow> u8 list" where
  "page_content args ev n =
     (if pf_fd args = -1 then replicate n (word_of_int (65 + pf_fault_cnt args mod 26))
      else ev_pread ev (pf_fd args) (pf_offset args + (ev_address ev - pf_base_addr args)) n)"

definition fault_pte :: "arch \<Rightarrow> u64 \<Rightarrow> u64 \<Rightarrow> u64" where
  "fault_pte A pte pfn =
     ptedit_pte_entry_set_bit
       (ptedit_pte_entry_set_bit
         (ptedit_pte_entry_set_bit (ptedit_set_pfn A pte pfn) (bit_pos PTEDIT_PAGE_BIT_PRESENT))
         (bit_pos PTEDIT_PAGE_BIT_RW))
       (bit_pos PTEDIT_PAGE_BIT_USER)"

text \<open>Steps 1 to 3 of the handler: the frame of the given page is put into the entry of the
  faulting address.\<close>

definition map_given_page :: "os \<Rightarrow> lib \<Rightarrow> u64 \<Rightarrow> u64 \<Rightarrow> kstate \<Rightarrow> kstate option" where
  "map_given_page W L given_page addr s =
     do {
       (given_page_pfn, s1) \<leftarrow> ptedit_pte_get_pfn W L given_page 0 s;
       (vm, s2) \<leftarrow> ptedit_resolve W L addr 0 s1;
       let vm' = vm\<lparr>e_pte := fault_pte (os_arch W) (e_pte vm) given_page_pfn,
                    e_valid := PTEDIT_VALID_MASK_PTE\<rparr>;
       (_, s3) \<leftarrow> ptedit_update W L addr 0 vm' s2;
       Some s3
     }"

text \<open>The range woken at the end: \<open>address & ~(PAGE_SIZE - 1)\<close> and \<open>PAGE_SIZE\<close>.\<close>

definition wake_range :: "u32 \<Rightarrow> u64 \<Rightarrow> u64 \<times> u64" where
  "wake_range page_size addr = (addr AND int_to_size (NOT (page_size - 1)), int_to_size page_size)"

definition handle_fault ::
  "os \<Rightarrow> lib \<Rightarrow> u32 \<Rightarrow> fault_env \<Rightarrow> pfhandle_args \<Rightarrow> kstate \<Rightarrow>
   failure + pfhandle_args \<times> kstate \<times> (u64 \<times> u64)" where
  "handle_fault W L page_size ev args s =
     (if ev_poll ev = -1 then Inl Err_poll
      else if ev_read ev = 0 then Inl Exit_eof
      else if ev_read ev = -1 then Inl Err_read
      else if \<not> ev_pagefault ev then Inl Exit_unexpected_event
      else if ev_malloc ev = 0 then Inl Assert_given_page
      else
        let n = unat page_size;
            content = page_content args ev n;
            s1 = ev_touch ev s
        in if pf_fd args \<noteq> -1 \<and> length content \<noteq> n then Inl Assert_bytes_read
           else
             case user_write (kernel_root W 0 s1) (ev_malloc ev) content (phys s1) of
               None \<Rightarrow> Inl Fault
             | Some m \<Rightarrow>
                 let args1 = args\<lparr>pf_fault_cnt := pf_fault_cnt args + 1\<rparr> in
                 (case map_given_page W L (ev_malloc ev) (ev_address ev) (s1\<lparr>phys := m\<rparr>) of
                    None \<Rightarrow> Inl Fault
                  | Some s2 \<Rightarrow>
                      if ev_wake ev = -1 then Inl Err_wake
                      else Inr (args1, s2, wake_range page_size (ev_address ev))))"

text \<open>The loop \<open>for (;;)\<close>, on a sequence of events: either the process ends, or the thread is
  waiting for the next event. The loop has no other exit.\<close>

fun handler_loop ::
  "os \<Rightarrow> lib \<Rightarrow> u32 \<Rightarrow> fault_env list \<Rightarrow> pfhandle_args \<Rightarrow> kstate \<Rightarrow> failure + pfhandle_args \<times> kstate" where
  "handler_loop W L ps [] args s = Inr (args, s)"
| "handler_loop W L ps (ev # evs) args s =
     (case handle_fault W L ps ev args s of
        Inl e \<Rightarrow> Inl e
      | Inr (args1, s1, _) \<Rightarrow> handler_loop W L ps evs args1 s1)"

subsection \<open>Mapping and unmapping\<close>

text \<open>The process: the library, the table of regions with its mutex, the ranges registered with
  each \<open>userfaultfd\<close> and the handler threads that have been started.\<close>

record ustate =
  us_pteditor_init_flag :: bool
  us_lib :: lib
  us_k :: kstate
  us_page_size :: u32
  us_mmap_regions :: "u64 \<rightharpoonup> pfhandle_args"
  us_mu_locked :: bool
  us_registered :: "(int \<times> u64 \<times> u64) list"
  us_threads :: "int list"

record mmap_env =
  me_page_size :: u32
  me_mmap :: u64
  me_userfaultfd :: int
  me_api :: int
  me_register :: int
  me_dup :: int

definition init_once :: "os \<Rightarrow> ustate \<Rightarrow> failure + ustate" where
  "init_once W u =
     (if us_pteditor_init_flag u then Inr u
      else let (r, L1, s1) = ptedit_init W (us_lib u) (us_k u) in
           if r \<noteq> 0 then Inl Exit_init
           else let (L2, s2) = ptedit_use_implementation W L1 PTEDIT_IMPL_USER s1
                in Inr (u\<lparr>us_lib := L2, us_k := s2, us_pteditor_init_flag := True\<rparr>))"

text \<open>The arguments \<open>addr\<close>, \<open>prot\<close> and \<open>flags\<close> only reach the system call \<open>mmap\<close>, whose result
  is \<open>me_mmap\<close>.\<close>

definition ul_mmap :: "os \<Rightarrow> mmap_env \<Rightarrow> u64 \<Rightarrow> int \<Rightarrow> u64 \<Rightarrow> ustate \<Rightarrow> u64 outcome \<times> ustate" where
  "ul_mmap W me len fd offset u =
     (case init_once W u of
        Inl e \<Rightarrow> (Exited e, u)
      | Inr u1 \<Rightarrow>
          let u2 = u1\<lparr>us_page_size := me_page_size me\<rparr>;
              addr = me_mmap me; uffd = me_userfaultfd me
          in if addr = MAP_FAILED then (Exited Err_mmap, u2)
             else if uffd = -1 then (Exited Err_userfaultfd, u2)
             else if me_api me = -1 then (Exited Err_api, u2)
             else if me_register me = -1 then (Exited Err_register, u2)
             else
               let u3 = u2\<lparr>us_registered := (uffd, addr, len) # us_registered u2\<rparr>;
                   dup_fd = (if fd = -1 then -1 else me_dup me)
               in if fd \<noteq> -1 \<and> dup_fd < 0 then (Exited Exit_dup, u3)
                  else
                    let args = \<lparr>pf_uffd = uffd, pf_fd = dup_fd, pf_offset = offset,
                                pf_base_addr = addr, pf_finish = False, pf_fault_cnt = 0\<rparr>;
                        u4 = u3\<lparr>us_threads := uffd # us_threads u3\<rparr>
                    in if us_mu_locked u4 then (Blocked, u4)
                       else (Returned addr,
                             u4\<lparr>us_mmap_regions := (us_mmap_regions u4)(addr \<mapsto> args)\<rparr>))"

text \<open>\<open>join\<close> returns when the thread has ended; a started handler thread is in \<open>us_threads\<close> and
  nothing removes it.\<close>

definition ul_munmap :: "u64 \<Rightarrow> u64 \<Rightarrow> ustate \<Rightarrow> int outcome \<times> ustate" where
  "ul_munmap addr len u =
     (if us_mu_locked u then (Blocked, u)
      else case us_mmap_regions u addr of
        None \<Rightarrow> (Returned 0, u)
      | Some args \<Rightarrow>
          let u1 = u\<lparr>us_mu_locked := True\<rparr>;
              u2 = u1\<lparr>us_registered := filter (\<lambda>r. r \<noteq> (pf_uffd args, addr, len)) (us_registered u1)\<rparr>;
              u3 = u2\<lparr>us_mmap_regions := (us_mmap_regions u2)(addr \<mapsto> args\<lparr>pf_finish := True\<rparr>)\<rparr>
          in if pf_uffd args \<in> set (us_threads u3) then (Blocked, u3)
             else (Returned 0,
                   u3\<lparr>us_mmap_regions := (us_mmap_regions u3)(addr := None), us_mu_locked := False\<rparr>))"

subsection \<open>Writing a page of data leaves the walk alone\<close>

definition walk_slots :: "mem \<Rightarrow> u64 \<Rightarrow> u64 \<Rightarrow> u64 list" where
  "walk_slots m root a = pte_slot m root a # upper_slots m root a"

text \<open>The frame at \<open>f\<close> holds none of the entries of the walk for \<open>a\<close>.\<close>

definition frame_apart :: "u64 \<Rightarrow> mem \<Rightarrow> u64 \<Rightarrow> u64 \<Rightarrow> bool" where
  "frame_apart f m root a \<longleftrightarrow> (\<forall>p\<in>set (walk_slots m root a). apart f 4096 p 8)"

lemma apart_shorter: "apart a n b k \<Longrightarrow> n' \<le> n \<Longrightarrow> apart a n' b k"
  by (simp add: apart_def)

lemma walk_write_bytes:
  assumes "frame_apart f m root a" "length bs \<le> 4096"
  defines "m' \<equiv> write_bytes m f bs"
  shows "pud_slot m' root a = pud_slot m root a" "pmd_slot m' root a = pmd_slot m root a"
    "pte_slot m' root a = pte_slot m root a"
    "load64 m' (pgd_slot root a) = load64 m (pgd_slot root a)"
    "load64 m' (pud_slot m root a) = load64 m (pud_slot m root a)"
    "load64 m' (pmd_slot m root a) = load64 m (pmd_slot m root a)"
    "load64 m' (pte_slot m root a) = load64 m (pte_slot m root a)"
proof -
  have l: "load64 m' p = load64 m p" if "p \<in> set (walk_slots m root a)" for p
    using that assms apart_shorter load64_write_bytes_apart unfolding frame_apart_def m'_def by blast
  show l3: "load64 m' (pgd_slot root a) = load64 m (pgd_slot root a)"
    and l2: "load64 m' (pud_slot m root a) = load64 m (pud_slot m root a)"
    and l1: "load64 m' (pmd_slot m root a) = load64 m (pmd_slot m root a)"
    and "load64 m' (pte_slot m root a) = load64 m (pte_slot m root a)"
    by (auto intro!: l simp: walk_slots_def upper_slots_def)
  show p2: "pud_slot m' root a = pud_slot m root a" by (simp add: pud_slot_def l3)
  show p1: "pmd_slot m' root a = pmd_slot m root a" by (simp add: pmd_slot_def p2 l2)
  show "pte_slot m' root a = pte_slot m root a" by (simp add: pte_slot_def p1 l1)
qed

lemma walk_write_bytes_preds:
  assumes "frame_apart f m root a" "length bs \<le> 4096"
  defines "m' \<equiv> write_bytes m f bs"
  shows "translate m' root a = translate m root a" "reaches_pte m' root a = reaches_pte m root a"
    "accessible ok m' root a = accessible ok m root a" "narrow_walk m' root a = narrow_walk m root a"
    "pte_separate m' root a = pte_separate m root a" "walk_slots m' root a = walk_slots m root a"
  unfolding m'_def translate_def reaches_pte_def accessible_def narrow_walk_def pte_separate_def
    walk_slots_def upper_slots_def walk_write_bytes [OF assms(1,2)] by simp_all

lemma write_bytes_snoc:
  assumes "length bs < 2 ^ 64"
  shows "(write_bytes m f bs)(f + of_nat (length bs) := b) = write_bytes m f (bs @ [b])"
proof (rule ext)
  fix x
  have u: "unat (of_nat (length bs) :: u64) = length bs" using assms by (simp add: unat_of_nat_u64)
  show "((write_bytes m f bs)(f + of_nat (length bs) := b)) x = write_bytes m f (bs @ [b]) x"
  proof (cases "x = f + of_nat (length bs)")
    case True
    then show ?thesis by (simp add: write_bytes_def u)
  next
    case False
    then have "x - f \<noteq> of_nat (length bs)" by (auto simp: algebra_simps)
    then have "unat (x - f) \<noteq> length bs" using u by (metis word_unat_eq_iff)
    then show ?thesis using False by (auto simp: write_bytes_def nth_append)
  qed
qed

lemma translate_in_page:
  assumes "take_bit 12 va = 0" "k < 4096" "reaches_pte m root va"
    "bit (load64 m (pte_slot m root va)) 0"
  shows "translate m root (va + of_nat k) =
    Some (table_base (load64 m (pte_slot m root va)) + of_nat k)"
proof -
  have k: "unat (of_nat k :: u64) < 2 ^ 12" using assms(2) by (simp add: unat_of_nat_u64)
  note low = add_low_part [OF assms(1) k]
  have page: "drop_bit 12 (va + of_nat k) = drop_bit 12 va" by (rule low(2))
  have "reaches_pte m root (va + of_nat k)"
    using assms(3) reaches_pte_same_page [OF page] by simp
  then have "translate m root (va + of_nat k) =
      Some (table_base (load64 m (pte_slot m root va)) OR of_nat k)"
    using assms(4) by (simp add: translate_reaches slots_same_page(2) [OF page] low(3))
  moreover have "table_base e OR of_nat k = table_base e + of_nat k" for e
    using add_low_part(1) [of 12 "table_base e" "of_nat k"] k by simp
  ultimately show ?thesis by simp
qed

lemma user_write_page:
  assumes va: "take_bit 12 va = 0" and reach: "reaches_pte m root va"
    and p: "bit (load64 m (pte_slot m root va)) 0"
    and ap: "frame_apart (table_base (load64 m (pte_slot m root va))) m root va"
    and len: "length bs \<le> 4096"
  shows "user_write root va bs m = Some (write_bytes m (table_base (load64 m (pte_slot m root va))) bs)"
proof -
  define f where "f = table_base (load64 m (pte_slot m root va))"
  have "user_write root (va + of_nat (length pre)) bs (write_bytes m f pre) = Some (write_bytes m f (pre @ bs))"
    if "length pre + length bs \<le> 4096" for pre
    using that
  proof (induction bs arbitrary: pre)
    case (Cons b bs)
    let ?m = "write_bytes m f pre"
    have pre: "length pre \<le> 4096" "length pre < 4096" using Cons.prems by simp_all
    note w = walk_write_bytes [OF ap [folded f_def] pre(1)]
    note wp = walk_write_bytes_preds [OF ap [folded f_def] pre(1)]
    have "translate ?m root (va + of_nat (length pre)) = Some (f + of_nat (length pre))"
      using translate_in_page [OF va pre(2), of ?m root] reach p
      by (simp add: w wp f_def [symmetric])
    moreover have "va + of_nat (length (pre @ [b])) = va + of_nat (length pre) + 1"
      by (simp add: algebra_simps)
    moreover have "?m(f + of_nat (length pre) := b) = write_bytes m f (pre @ [b])"
      using pre by (intro write_bytes_snoc) simp
    ultimately show ?case using Cons.IH [of "pre @ [b]"] Cons.prems
      by (simp only: user_write.simps option.case append.assoc append_Cons append_Nil) simp
  qed simp
  from this [of "[]"] len show ?thesis by (simp add: f_def write_bytes_def)
qed

subsection \<open>Mapping the given page\<close>

lemma fault_pte_bits:
  assumes "unat p < 2 ^ 40"
  shows "bit (fault_pte X86_64 e p) 0" "bit (fault_pte X86_64 e p) 1" "bit (fault_pte X86_64 e p) 2"
    "table_base (fault_pte X86_64 e p) = push_bit 12 p"
    "\<And>n. 2 < n \<Longrightarrow> n < 12 \<or> 52 \<le> n \<Longrightarrow> bit (fault_pte X86_64 e p) n = bit e n"
proof -
  have b: "bit (fault_pte X86_64 e p) n \<longleftrightarrow> n < 3 \<or> (bit e n \<and> \<not> (12 \<le> n \<and> n < 52)) \<or> (12 \<le> n \<and> bit p (n - 12))"
    for n
  proof -
    have "bit p (n - 12) \<Longrightarrow> 12 \<le> n \<Longrightarrow> n < 64" using small_bits [OF _ assms] by fastforce
    then show ?thesis by (auto simp: fault_pte_def bit_fields pfn_bits_def)
  qed
  show "bit (fault_pte X86_64 e p) 0" "bit (fault_pte X86_64 e p) 1" "bit (fault_pte X86_64 e p) 2"
    by (simp_all add: b)
  show "table_base (fault_pte X86_64 e p) = push_bit 12 p"
    by (rule bit_word_eqI) (auto simp: table_base_def bit_simps bit_field b dest: small_bits [OF _ assms])
  show "bit (fault_pte X86_64 e p) n = bit e n" if "2 < n" "n < 12 \<or> 52 \<le> n" for n
    using that small_bits [OF _ assms, of "n - 12"] by (auto simp: b)
qed

text \<open>
  The state in which the handler maps: both addresses can be walked by the library, the given
  page is mapped, the faulting address has its tables (the kernel allocates them before it
  reports the fault), the frame holds none of these tables, and the library's root is the
  process's.
\<close>

definition fault_ready :: "os \<Rightarrow> lib \<Rightarrow> u64 \<Rightarrow> u64 \<Rightarrow> kstate \<Rightarrow> bool" where
  "fault_ready W L gp fa s \<longleftrightarrow>
     user_ready W L gp 0 s \<and> user_ready W L fa 0 s \<and> root_of W L 0 s = kernel_root W 0 s
   \<and> (let root = root_of W L 0 s; m = phys s; pte = load64 m (pte_slot m root gp) in
      reaches_pte m root gp \<and> bit pte 0 \<and> reaches_pte m root fa \<and> pte_separate m root fa
    \<and> frame_apart (table_base pte) m root gp \<and> frame_apart (table_base pte) m root fa)"

lemma user_ready_write:
  assumes "user_ready W L a 0 s" "frame_apart f (phys s) (root_of W L 0 s) a" "length bs \<le> 4096"
  shows "user_ready W L a 0 (s\<lparr>phys := write_bytes (phys s) f bs\<rparr>)"
  using assms walk_write_bytes_preds [OF assms(2,3)] by (simp add: user_ready_def)

lemma map_given_page_eq:
  assumes u: "user_ready W L gp 0 s" "user_ready W L fa 0 s"
    and r: "reaches_pte (phys s) (root_of W L 0 s) gp" "reaches_pte (phys s) (root_of W L 0 s) fa"
  defines "m \<equiv> phys s" and "root \<equiv> root_of W L 0 s"
  shows "\<exists>es. map_given_page W L gp fa s = Some (log_events es (s\<lparr>phys := store64 m (pte_slot m root fa)
    (fault_pte X86_64 (load64 m (pte_slot m root fa))
      (ptedit_get_pfn X86_64 (load64 m (pte_slot m root gp))))\<rparr>))"
proof -
  have arch: "os_arch W = X86_64" using u(1) by (simp add: user_ready_def)
  have pg: "pte_ready W L gp 0 s" "pte_ready W L fa 0 s" using u by (simp_all add: pte_ready_def)
  have root: "pte_root W L 0 s = root" using user_ready_pte_root [OF u(1)] by (simp add: root_def)
  obtain es where g: "ptedit_pte_get_pfn W L gp 0 s
      = Some (ptedit_get_pfn X86_64 (load64 m (pte_slot m root gp)), log_events es s)"
    using selected.get_pfn [OF pg(1)] r(1) arch by (auto simp: root m_def root_def)
  have ready': "pte_ready W L fa 0 (log_events es' s)" for es'
    using selected.ready_log [OF pg(2)] .
  have root': "pte_root W L 0 (log_events es' s) = root" for es'
    using selected.root_log(1) [of W L 0 es' s] root by simp
  have reach': "reaches_pte (phys (log_events es' s)) (pte_root W L 0 (log_events es' s)) fa" for es'
    unfolding root' using r(2) by (simp add: root_def)
  obtain e es2 where e: "ptedit_resolve W L fa 0 (log_events es s) = Some (e, log_events (es @ es2) s)"
      "e_pte e = load64 m (pte_slot m root fa)"
    using selected.resolves [OF ready' reach', of es] by (auto simp: root' m_def)
  let ?vm = "e\<lparr>e_pte := fault_pte X86_64 (e_pte e) (ptedit_get_pfn X86_64 (load64 m (pte_slot m root gp))),
    e_valid := PTEDIT_VALID_MASK_PTE\<rparr>"
  obtain vm' es3 where "ptedit_update W L fa 0 ?vm (log_events (es @ es2) s)
      = Some (vm', log_events ((es @ es2) @ es3) (s\<lparr>phys := store64 m (pte_slot m root fa) (e_pte ?vm)\<rparr>))"
    using selected.updates [OF ready' reach', of ?vm "es @ es2"] by (auto simp: root' m_def)
  then show ?thesis
    using g e by (auto simp: map_given_page_def arch)
qed

subsection \<open>A fault is served\<close>

text \<open>Memory after the handler: the content \<open>bs\<close> in the frame, the entry \<open>v\<close> in the page table.\<close>

lemma fault_memory:
  fixes m :: mem and root fa f v x :: u64
  assumes apart: "frame_apart f m root fa" and sep: "pte_separate m root fa" and reach: "reaches_pte m root fa"
    and v: "bit v 0" "table_base v = f" and len: "length bs = 4096" and page: "drop_bit 12 x = drop_bit 12 fa"
  defines "m' \<equiv> store64 (write_bytes m f bs) (pte_slot m root fa) v"
  shows "translate m' root x = Some (f OR take_bit 12 x)" "load64 m' (pte_slot m' root fa) = v"
    "read_bytes m' f 4096 = bs"
proof -
  have len': "length bs \<le> 4096" using len by simp
  note w0 = walk_write_bytes [OF apart len'] and p0 = walk_write_bytes_preds [OF apart len']
  have "pte_separate (write_bytes m f bs) root fa" using p0(5) sep by simp
  note w = write_pte [OF this, of v, unfolded w0(3), folded m'_def]
  have "pte_slot m' root x = pte_slot m' root fa" "reaches_pte m' root x"
    using slots_same_page(2) [OF page] reaches_pte_same_page [OF page] w(3) p0(2) reach by simp_all
  then show "translate m' root x = Some (f OR take_bit 12 x)" using w(2) v by (simp add: translate_reaches)
  show "load64 m' (pte_slot m' root fa) = v" using w(2) by simp
  have "apart (pte_slot m root fa) 8 f 4096"
    using apart apart_sym by (auto simp: frame_apart_def walk_slots_def)
  then show "read_bytes m' f 4096 = bs"
    using read_write_bytes_same [of bs m f] len by (simp add: read_bytes_store64_apart m'_def)
qed

lemma fault_served_aux:
  assumes ready: "fault_ready W L gp fa s" and gp: "take_bit 12 gp = 0" and len: "length bs = 4096"
    and page: "drop_bit 12 x = drop_bit 12 fa"
  defines "root \<equiv> root_of W L 0 s"
  shows "\<exists>m s'. user_write (kernel_root W 0 s) gp bs (phys s) = Some m
    \<and> map_given_page W L gp fa (s\<lparr>phys := m\<rparr>) = Some s'
    \<and> kernel_root W 0 s' = root
    \<and> (let frame = table_base (load64 (phys s) (pte_slot (phys s) root gp));
           pte = load64 (phys s') (pte_slot (phys s') root fa)
       in translate (phys s') root x = Some (frame OR take_bit 12 x)
        \<and> bit pte 0 \<and> bit pte 1 \<and> bit pte 2
        \<and> read_bytes (phys s') frame 4096 = bs)"
proof -
  let ?m = "phys s"
  define f where "f = table_base (load64 ?m (pte_slot ?m root gp))"
  have r: "reaches_pte ?m root gp" "bit (load64 ?m (pte_slot ?m root gp)) 0" "reaches_pte ?m root fa"
      "pte_separate ?m root fa" "frame_apart f ?m root gp" "frame_apart f ?m root fa"
      "root = kernel_root W 0 s" and u: "user_ready W L gp 0 s" "user_ready W L fa 0 s"
    using ready unfolding fault_ready_def Let_def root_def f_def by blast+
  define m where "m = write_bytes ?m f bs"
  have uw: "user_write (kernel_root W 0 s) gp bs ?m = Some m"
    using user_write_page [OF gp r(1,2), of bs] r(5,7) len by (simp add: f_def m_def)
  have len': "length bs \<le> 4096" using len by simp
  let ?s = "s\<lparr>phys := m\<rparr>"
  have rt: "root_of W L 0 ?s = root" by (simp add: root_def)
  note wg = walk_write_bytes [OF r(5) len'] and wpg = walk_write_bytes_preds [OF r(5) len']
  note wf = walk_write_bytes [OF r(6) len'] and wpf = walk_write_bytes_preds [OF r(6) len']
  have us: "user_ready W L gp 0 ?s" "user_ready W L fa 0 ?s"
    using user_ready_write [OF u(1) _ len'] user_ready_write [OF u(2) _ len'] r(5,6)
    by (simp_all add: m_def root_def)
  have "reaches_pte (phys ?s) (root_of W L 0 ?s) gp" "reaches_pte (phys ?s) (root_of W L 0 ?s) fa"
    unfolding rt using wpg wpf r(1,3) by (simp_all add: m_def)
  from map_given_page_eq [OF us this, unfolded rt] obtain es where
    mg: "map_given_page W L gp fa ?s = Some (log_events es (?s\<lparr>phys := store64 m (pte_slot ?m root fa)
      (fault_pte X86_64 (load64 ?m (pte_slot ?m root fa)) (ptedit_get_pfn X86_64 (load64 ?m (pte_slot ?m root gp))))\<rparr>))"
    using wg wf by (auto simp: m_def)
  let ?p = "ptedit_get_pfn X86_64 (load64 ?m (pte_slot ?m root gp))"
  let ?v = "fault_pte X86_64 (load64 ?m (pte_slot ?m root fa)) ?p"
  let ?s' = "log_events es (?s\<lparr>phys := store64 m (pte_slot ?m root fa) ?v\<rparr>)"
  have p: "unat ?p < 2 ^ 40" and pf: "push_bit 12 ?p = f"
    using field_less [of 40 12] by (simp_all add: ptedit_get_pfn_field pfn_bits_def f_def table_base_def)
  note fp = fault_pte_bits(1-4) [OF p, of "load64 ?m (pte_slot ?m root fa)", unfolded pf]
  have phys': "phys ?s' = store64 (write_bytes ?m f bs) (pte_slot ?m root fa) ?v" by (simp add: m_def)
  note fm = fault_memory [OF r(6,4,3) fp(1,4) len page, folded phys']
  have "kernel_root W 0 ?s' = root" using r(7) by simp
  then show ?thesis
    using uw mg fm fp(1-3) unfolding f_def [symmetric] Let_def by metis
qed

lemma wake_range_page: "wake_range 4096 a = (push_bit 12 (drop_bit 12 a), 4096)"
proof -
  have "int_to_size (NOT (4096 - 1)) = NOT (mask 12)" by (simp add: int_to_size_def mask_eq_exp_minus_1)
  moreover have "a AND NOT (mask 12) = push_bit 12 (drop_bit 12 a)" by (rule bit_word_eqI) (auto simp: bit_simps)
  ultimately show ?thesis by (simp add: wake_range_def int_to_size_def)
qed

text \<open>
  C1. The central property of user-level \<open>mmap\<close>: when the environment answers without errors and
  \<open>malloc\<close> returns a page-aligned page, one iteration of the handler serves the fault. Afterwards
  every address of the faulting page translates into the frame of the given page, the entry is
  present, writable and accessible to user mode, the frame holds exactly the content the handler
  produced (the varying letter, or the bytes of the backing file at the region's offset), the
  fault is counted, and the woken range is the faulting page.\<close>

theorem fault_served:
  assumes "ev_poll ev \<noteq> -1" "ev_read ev \<noteq> 0" "ev_read ev \<noteq> -1" "ev_pagefault ev"
    "ev_malloc ev \<noteq> 0" "ev_wake ev \<noteq> -1"
    and "fault_ready W L (ev_malloc ev) (ev_address ev) (ev_touch ev s)"
    and "take_bit 12 (ev_malloc ev) = 0" "length (page_content args ev 4096) = 4096"
    and "drop_bit 12 x = drop_bit 12 (ev_address ev)"
  shows "\<exists>s'. handle_fault W L 4096 ev args s =
      Inr (args\<lparr>pf_fault_cnt := pf_fault_cnt args + 1\<rparr>, s',
           push_bit 12 (drop_bit 12 (ev_address ev)), 4096)
    \<and> (let t = ev_touch ev s; root = kernel_root W 0 s';
           frame = table_base (load64 (phys t) (pte_slot (phys t) root (ev_malloc ev)));
           pte = load64 (phys s') (pte_slot (phys s') root (ev_address ev))
       in translate (phys s') root x = Some (frame OR take_bit 12 x)
        \<and> bit pte 0 \<and> bit pte 1 \<and> bit pte 2
        \<and> read_bytes (phys s') frame 4096 = page_content args ev 4096)"
proof -
  let ?t = "ev_touch ev s"
  have ps: "unat (4096::u32) = 4096" by simp
  obtain m s' where h: "user_write (kernel_root W 0 ?t) (ev_malloc ev) (page_content args ev 4096) (phys ?t) = Some m"
      "map_given_page W L (ev_malloc ev) (ev_address ev) (?t\<lparr>phys := m\<rparr>) = Some s'"
      "kernel_root W 0 s' = root_of W L 0 ?t"
    and rest: "let frame = table_base (load64 (phys ?t) (pte_slot (phys ?t) (root_of W L 0 ?t) (ev_malloc ev)));
           pte = load64 (phys s') (pte_slot (phys s') (root_of W L 0 ?t) (ev_address ev))
       in translate (phys s') (root_of W L 0 ?t) x = Some (frame OR take_bit 12 x)
        \<and> bit pte 0 \<and> bit pte 1 \<and> bit pte 2
        \<and> read_bytes (phys s') frame 4096 = page_content args ev 4096"
    using fault_served_aux [OF assms(7-10)] by blast
  have "handle_fault W L 4096 ev args s =
      Inr (args\<lparr>pf_fault_cnt := pf_fault_cnt args + 1\<rparr>, s',
           push_bit 12 (drop_bit 12 (ev_address ev)), 4096)"
    using assms(1-6) h assms(9) by (simp add: handle_fault_def Let_def wake_range_page)
  with rest show ?thesis by (auto simp: h(3) Let_def)
qed

text \<open>The concrete address space: the given page is the mapped page of \<open>demo_mem\<close>, the fault is on
  the next page, whose entry is empty.\<close>

definition demo_fault_env :: fault_env where
  "demo_fault_env = \<lparr>ev_poll = 1, ev_read = 32, ev_pagefault = True, ev_address = 0x8080605000,
     ev_malloc = 0x8080604000, ev_touch = id, ev_pread = (\<lambda>_ _ n. replicate n 7), ev_wake = 0\<rparr>"

definition demo_args :: pfhandle_args where
  "demo_args = \<lparr>pf_uffd = 8, pf_fd = -1, pf_offset = 0, pf_base_addr = 0x8080604000, pf_finish = False,
     pf_fault_cnt = 0\<rparr>"

lemma demo_slots2:
  assumes "a \<in> {0x8080604000, 0x8080605000}"
  shows "pgd_slot demo_root a = 0x1008" "pud_slot demo_mem demo_root a = 0x2010"
    "pmd_slot demo_mem demo_root a = 0x3018"
    "pte_slot demo_mem demo_root 0x8080604000 = 0x4020" "pte_slot demo_mem demo_root 0x8080605000 = 0x4028"
  using assms
  by (auto simp: pgd_slot_def pud_slot_def pmd_slot_def pte_slot_def slot_def demo_root_def
      field_def table_base_def demo_loads)

lemma demo_ready2:
  assumes "a \<in> {0x8080604000, 0x8080605000}"
  shows "user_ready demo_os demo_lib a 0 demo_open" "reaches_pte demo_mem demo_root a"
    "pte_separate demo_mem demo_root a" "frame_apart 0x5000 demo_mem demo_root a"
proof -
  have pte: "pte_slot demo_mem demo_root a \<in> {0x4020, 0x4028}"
    using assms demo_slots2(4,5) [OF assms] by auto
  have "accessible (access_ok demo_os demo_lib) demo_mem demo_root a"
    unfolding accessible_def demo_slots2(1-3) [OF assms] demo_loads using pte
    by (auto simp: access_ok_def demo_lib_def vmem_ok_def MAP_FAILED_def)
  moreover have "narrow_walk demo_mem demo_root a"
    unfolding narrow_walk_def demo_slots2(1-3) [OF assms] demo_loads by (simp add: narrow_def field_def)
  ultimately show "user_ready demo_os demo_lib a 0 demo_open"
    using demo_user_ready by (simp add: user_ready_def)
  show "reaches_pte demo_mem demo_root a"
    unfolding reaches_pte_def demo_slots2(1-3) [OF assms] demo_loads by simp
  show "pte_separate demo_mem demo_root a" "frame_apart 0x5000 demo_mem demo_root a"
    unfolding pte_separate_def frame_apart_def walk_slots_def upper_slots_def demo_slots2(1-3) [OF assms]
    using pte by (auto simp: apart_def)
qed

lemma demo_fault_ready: "fault_ready demo_os demo_lib 0x8080604000 0x8080605000 demo_open"
proof -
  have "table_base 0x5067 = 0x5000" "bit (0x5067::u64) 0" by (simp_all add: table_base_def field_def)
  then show ?thesis
    using demo_ready2
    by (simp add: fault_ready_def demo_kernel_root Let_def demo_slots2(4) [of "0x8080604000"] demo_loads)
qed

theorem fault_served_witness:
  "\<exists>s'. handle_fault demo_os demo_lib 4096 demo_fault_env demo_args demo_open =
      Inr (demo_args\<lparr>pf_fault_cnt := 1\<rparr>, s', 0x8080605000, 4096)
    \<and> translate (phys s') (kernel_root demo_os 0 s') 0x8080605abc = Some (table_base 0x5067 OR 0xabc)
    \<and> read_bytes (phys s') (table_base 0x5067) 4096 = replicate 4096 65"
proof -
  have c: "page_content demo_args demo_fault_env 4096 = replicate 4096 65"
    by (simp add: page_content_def demo_args_def)
  have "\<exists>s'. handle_fault demo_os demo_lib 4096 demo_fault_env demo_args demo_open =
      Inr (demo_args\<lparr>pf_fault_cnt := pf_fault_cnt demo_args + 1\<rparr>, s',
           push_bit 12 (drop_bit 12 (ev_address demo_fault_env)), 4096)
    \<and> (let t = ev_touch demo_fault_env demo_open; root = kernel_root demo_os 0 s';
           frame = table_base (load64 (phys t) (pte_slot (phys t) root (ev_malloc demo_fault_env)));
           pte = load64 (phys s') (pte_slot (phys s') root (ev_address demo_fault_env))
       in translate (phys s') root 0x8080605abc = Some (frame OR take_bit 12 0x8080605abc)
        \<and> bit pte 0 \<and> bit pte 1 \<and> bit pte 2
        \<and> read_bytes (phys s') frame 4096 = page_content demo_args demo_fault_env 4096)"
    by (rule fault_served) (simp_all add: demo_fault_env_def demo_fault_ready page_content_def demo_args_def)
  then obtain s' where s': "handle_fault demo_os demo_lib 4096 demo_fault_env demo_args demo_open =
      Inr (demo_args\<lparr>pf_fault_cnt := 1\<rparr>, s', 0x8080605000, 4096)"
    and t: "translate (phys s') (kernel_root demo_os 0 s') 0x8080605abc
      = Some (table_base (load64 demo_mem (pte_slot demo_mem (kernel_root demo_os 0 s') 0x8080604000)) OR 0xabc)"
    "read_bytes (phys s') (table_base (load64 demo_mem (pte_slot demo_mem (kernel_root demo_os 0 s') 0x8080604000))) 4096
      = replicate 4096 65"
    unfolding c by (auto simp: demo_fault_env_def demo_args_def Let_def)
  have "kernel_root demo_os 0 s' = demo_root"
    using fault_served_aux [OF demo_fault_ready, of "replicate 4096 65" "0x8080605000"] s' demo_kernel_root
    by (auto simp: handle_fault_def demo_fault_env_def demo_args_def page_content_def Let_def)
  then show ?thesis using s' t by (auto simp: demo_slots2(4) [of "0x8080604000"] demo_loads)
qed

text \<open>
  Why the given page has to be page-aligned, which \<open>malloc\<close> does not promise: the handler maps the
  whole frame that contains the given page's first byte. The faulting page then shows the frame
  from its start, so when the given page does not start at a page boundary, the first address of
  the faulting page and the first byte of the given page are different physical bytes.\<close>

lemma unaligned_page_shifted:
  assumes "fault_ready W L gp fa s"
  shows "\<exists>s'. map_given_page W L gp fa s = Some s'
    \<and> (let root = root_of W L 0 s; frame = table_base (load64 (phys s) (pte_slot (phys s) root gp)) in
       translate (phys s) root gp = Some (frame OR take_bit 12 gp)
     \<and> translate (phys s') root (push_bit 12 (drop_bit 12 fa)) = Some frame
     \<and> (take_bit 12 gp \<noteq> 0 \<longrightarrow>
          translate (phys s') root (push_bit 12 (drop_bit 12 fa)) \<noteq> translate (phys s) root gp))"
proof -
  let ?m = "phys s" and ?root = "root_of W L 0 s"
  let ?g = "load64 ?m (pte_slot ?m ?root gp)" and ?f = "load64 ?m (pte_slot ?m ?root fa)"
  have r: "reaches_pte ?m ?root gp" "bit ?g 0" "reaches_pte ?m ?root fa" "pte_separate ?m ?root fa"
      "user_ready W L gp 0 s" "user_ready W L fa 0 s"
    using assms unfolding fault_ready_def Let_def by blast+
  obtain es where mg: "map_given_page W L gp fa s = Some (log_events es (s\<lparr>phys :=
      store64 ?m (pte_slot ?m ?root fa) (fault_pte X86_64 ?f (ptedit_get_pfn X86_64 ?g))\<rparr>))"
    using map_given_page_eq [OF r(5,6,1,3)] by blast
  have p: "unat (ptedit_get_pfn X86_64 ?g) < 2 ^ 40" "push_bit 12 (ptedit_get_pfn X86_64 ?g) = table_base ?g"
    using field_less [of 40 12] by (simp_all add: ptedit_get_pfn_field pfn_bits_def table_base_def)
  note fp = fault_pte_bits(1,4) [OF p(1), of ?f, unfolded p(2)]
  let ?b = "push_bit 12 (drop_bit 12 fa)"
  let ?m' = "store64 ?m (pte_slot ?m ?root fa) (fault_pte X86_64 ?f (ptedit_get_pfn X86_64 ?g))"
  have page: "drop_bit 12 ?b = drop_bit 12 fa"
    by (rule bit_word_eqI) (auto simp: bit_simps dest: bit_u64_bound)
  have low: "take_bit 12 ?b = 0" by (simp add: take_bit_push_bit)
  note w = write_pte [OF r(4), of "fault_pte X86_64 ?f (ptedit_get_pfn X86_64 ?g)"]
  have "reaches_pte ?m' ?root ?b" using reaches_pte_same_page [OF page] w(3) r(3) by simp
  then have tb: "translate ?m' ?root ?b = Some (table_base ?g)"
    using slots_same_page(2) [OF page] w(2) fp low by (simp add: translate_reaches)
  have tg: "translate ?m ?root gp = Some (table_base ?g OR take_bit 12 gp)"
    using r(1,2) by (simp add: translate_reaches)
  have "take_bit 12 (table_base ?g OR take_bit 12 gp) = take_bit 12 gp"
    by (simp add: take_bit_or)
  then have "take_bit 12 gp \<noteq> 0 \<Longrightarrow> table_base ?g \<noteq> table_base ?g OR take_bit 12 gp"
    by (metis order.refl table_base_aligned)
  then show ?thesis using mg tb tg by (auto simp: Let_def)
qed

subsection \<open>The handler thread\<close>

lemma handle_fault_args:
  "handle_fault W L ps ev args s = Inr (args', r) \<Longrightarrow> args' = args\<lparr>pf_fault_cnt := pf_fault_cnt args + 1\<rparr>"
  by (auto simp: handle_fault_def Let_def split: if_splits option.splits)

lemma handle_fault_finish:
  "handle_fault W L ps ev (args\<lparr>pf_finish := b\<rparr>) s =
     map_sum id (\<lambda>(a, r). (a\<lparr>pf_finish := b\<rparr>, r)) (handle_fault W L ps ev args s)"
  by (simp add: handle_fault_def page_content_def Let_def split: option.split)

text \<open>
  The handler thread serves faults in the order they arrive and counts each: after \<open>n\<close> events
  the count has grown by \<open>n\<close> and nothing else of its arguments has changed. The flag \<open>finish\<close> that
  \<open>ul_munmap\<close> sets has no influence on the thread: with any value of it every sequence of events
  has the same outcome.\<close>

lemma handler_counts_ignores_finish:
  shows "(\<forall>args' s'. handler_loop W L ps evs args s = Inr (args', s') \<longrightarrow>
            args' = args\<lparr>pf_fault_cnt := pf_fault_cnt args + int (length evs)\<rparr>)
       \<and> handler_loop W L ps evs (args\<lparr>pf_finish := b\<rparr>) s =
          map_sum id (\<lambda>(a, r). (a\<lparr>pf_finish := b\<rparr>, r)) (handler_loop W L ps evs args s)"
proof (induction evs arbitrary: args s)
  case (Cons ev evs)
  show ?case
  proof (cases "handle_fault W L ps ev args s")
    case (Inl e)
    then show ?thesis by (simp add: handle_fault_finish)
  next
    case (Inr r)
    obtain a1 s1 w where r: "r = (a1, s1, w)" by (cases r)
    have a1: "a1 = args\<lparr>pf_fault_cnt := pf_fault_cnt args + 1\<rparr>"
      using handle_fault_args Inr r by blast
    show ?thesis using Cons.IH [of a1 s1] Inr r a1 by (simp add: handle_fault_finish add.assoc)
  qed
qed simp

lemma demo_handled:
  "\<exists>a s' w. handle_fault demo_os demo_lib 4096 demo_fault_env demo_args demo_open = Inr (a, s', w)"
  using fault_served_aux [OF demo_fault_ready, of "replicate 4096 65" "0x8080605000"]
  by (auto simp: handle_fault_def demo_fault_env_def demo_args_def page_content_def Let_def)

subsection \<open>Regions\<close>


definition demo_ustate :: ustate where
  "demo_ustate = \<lparr>us_pteditor_init_flag = True, us_lib = demo_lib, us_k = demo_open, us_page_size = 4096,
     us_mmap_regions = Map.empty, us_mu_locked = False, us_registered = [], us_threads = []\<rparr>"

definition demo_mmap_env :: mmap_env where
  "demo_mmap_env = \<lparr>me_page_size = 4096, me_mmap = 0x8080604000, me_userfaultfd = 8, me_api = 0,
     me_register = 0, me_dup = 9\<rparr>"


text \<open>The calls a process makes, and the states they reach.\<close>

inductive region_step :: "os \<Rightarrow> ustate \<Rightarrow> ustate \<Rightarrow> bool" for W where
  map_region: "ul_mmap W me len fd offset u = (out, u') \<Longrightarrow> (\<forall>e. out \<noteq> Exited e) \<Longrightarrow> region_step W u u'"
| unmap_region: "ul_munmap addr len u = (out, u') \<Longrightarrow> region_step W u u'"

inductive region_reach :: "os \<Rightarrow> ustate \<Rightarrow> bool" for W where
  start: "us_mmap_regions u = Map.empty \<Longrightarrow> \<not> us_mu_locked u \<Longrightarrow> region_reach W u"
| step: "region_reach W u \<Longrightarrow> region_step W u u' \<Longrightarrow> region_reach W u'"

definition region_inv :: "ustate \<Rightarrow> bool" where
  "region_inv u \<longleftrightarrow> (\<forall>a args. us_mmap_regions u a = Some args \<longrightarrow>
     pf_base_addr args = a \<and> pf_uffd args \<in> set (us_threads u)
     \<and> (pf_finish args \<longrightarrow> us_mu_locked u))"

lemma init_once_fields:
  "init_once W u = Inr u1 \<Longrightarrow> us_mmap_regions u1 = us_mmap_regions u \<and> us_threads u1 = us_threads u
     \<and> us_mu_locked u1 = us_mu_locked u"
  by (auto simp: init_once_def Let_def split: if_splits prod.splits)

lemma ul_mmap_inv:
  assumes "region_inv u"
  shows "region_inv (snd (ul_mmap W me len fd offset u))"
proof (cases "init_once W u")
  case (Inr u1)
  with init_once_fields [OF Inr] assms show ?thesis
    by (auto simp: ul_mmap_def region_inv_def Let_def)
qed (use assms in \<open>simp add: ul_mmap_def\<close>)

lemma ul_munmap_inv:
  assumes "region_inv u"
  shows "region_inv (snd (ul_munmap addr len u))"
  using assms by (auto simp: ul_munmap_def region_inv_def Let_def split: option.split)

lemma region_reach_inv: "region_reach W u \<Longrightarrow> region_inv u"
proof (induction rule: region_reach.induct)
  case (step u u')
  from step.hyps(2) step.IH show ?case
    by (cases) (metis snd_conv ul_mmap_inv ul_munmap_inv)+
qed (simp add: region_inv_def)



end
