(* ===== verification/Page_Pool.thy ===== *)
theory Page_Pool
  imports Prelude "HOL-Library.Multiset"
begin

text \<open>
  The physical-page pool (\<open>src/phy_page_pool.h\<close>): free pages on one intrusive linked list per
  pool, with a counter of remaining pages beside each list. The sequential operations come first;
  the lock-free push and pop as they interleave between threads follow.

  The pages themselves come from \<open>aligned_alloc\<close>: their addresses are an argument of the
  constructor. The hash of the calling thread's id is an argument of \<open>allocate\<close>.
\<close>

subsection \<open>State and errors\<close>

type_synonym ptr = u64

text \<open>The fields drop the trailing underscore of the class members. \<open>p_next\<close> is the field \<open>next\<close> of every \<open>Page\<close>, by address; the null pointer is \<open>0\<close>.\<close>

record pool =
  num_pools :: nat
  page_size :: nat
  pages_per_pool :: "u64 list"
  local_pools :: "ptr list"
  local_remain_pages :: "u64 list"
  p_next :: "ptr \<Rightarrow> ptr"

datatype pool_error = Null_page | Assert_aligned | Assert_counts | Assert_freed

text \<open>\<open>((size_t)page / page_size) % num_pools\<close>\<close>

definition pool_of :: "nat \<Rightarrow> nat \<Rightarrow> ptr \<Rightarrow> nat" where
  "pool_of n ps page = unat page div ps mod n"

subsection \<open>Constructor\<close>

text \<open>The body of the allocation loop for one result of \<open>aligned_alloc\<close>. The store to
  \<open>page->next\<close> precedes the test for null, so that the branch throwing \<open>bad_alloc\<close> is dead.\<close>

definition add_page :: "ptr \<Rightarrow> pool \<Rightarrow> pool_error + pool" where
  "add_page page P =
     (if page = 0 then Inl Null_page
      else if unat page mod page_size P \<noteq> 0 then Inl Assert_aligned
      else
        let i = pool_of (num_pools P) (page_size P) page
        in Inr (P\<lparr>pages_per_pool := (pages_per_pool P)[i := pages_per_pool P ! i + 1],
                  p_next := (p_next P)(page := local_pools P ! i),
                  local_pools := (local_pools P)[i := page],
                  local_remain_pages := (local_remain_pages P)[i := local_remain_pages P ! i + 1]\<rparr>))"

fun add_pages :: "ptr list \<Rightarrow> pool \<Rightarrow> pool_error + pool" where
  "add_pages [] P = Inr P"
| "add_pages (p # ps) P = (case add_page p P of Inl e \<Rightarrow> Inl e | Inr P' \<Rightarrow> add_pages ps P')"

definition MemoryPool :: "nat \<Rightarrow> nat \<Rightarrow> ptr list \<Rightarrow> pool_error + pool" where
  "MemoryPool n ps pages =
     (case add_pages pages
        \<lparr>num_pools = n, page_size = ps, pages_per_pool = replicate n 0, local_pools = replicate n 0,
         local_remain_pages = replicate n 0, p_next = (\<lambda>_. 0)\<rparr> of
        Inl e \<Rightarrow> Inl e
      | Inr P \<Rightarrow> if local_remain_pages P = pages_per_pool P then Inr P else Inl Assert_counts)"

subsection \<open>Destructor\<close>

text \<open>Freeing one list: the pages freed, in order. The fuel bounds the loop.\<close>

fun free_list :: "nat \<Rightarrow> (ptr \<Rightarrow> ptr) \<Rightarrow> ptr \<Rightarrow> ptr list option" where
  "free_list 0 nxt page = (if page = 0 then Some [] else None)"
| "free_list (Suc k) nxt page =
     (if page = 0 then Some [] else map_option (Cons page) (free_list k nxt (nxt page)))"

fun free_pools :: "nat \<Rightarrow> (ptr \<Rightarrow> ptr) \<Rightarrow> (ptr \<times> u64) list \<Rightarrow> (pool_error + ptr list) option" where
  "free_pools k nxt [] = Some (Inr [])"
| "free_pools k nxt ((head, remain) # rest) =
     (case free_list k nxt head of
        None \<Rightarrow> None
      | Some freed \<Rightarrow>
          if of_nat (length freed) \<noteq> remain then Some (Inl Assert_freed)
          else map_option (map_sum id (\<lambda>fs. freed @ fs)) (free_pools k nxt rest))"

definition destroy :: "nat \<Rightarrow> pool \<Rightarrow> (pool_error + ptr list) option" where
  "destroy k P =
     (if local_remain_pages P \<noteq> pages_per_pool P then Some (Inl Assert_counts)
      else free_pools k (p_next P) (zip (local_pools P) (local_remain_pages P)))"

subsection \<open>Allocation\<close>

text \<open>The loop of \<open>get_rough_richest_pool\<close> from index \<open>i\<close>, with the variables \<open>has_page\<close>,
  \<open>max_remain_pages\<close> and \<open>richest_pool_idx\<close>.\<close>

fun richest_from :: "u64 list \<Rightarrow> nat \<Rightarrow> bool \<times> u64 \<times> nat \<Rightarrow> bool \<times> u64 \<times> nat" where
  "richest_from [] i acc = acc"
| "richest_from (c # cs) i (has, mx, idx) =
     richest_from cs (i + 1) (if c > mx then (True, c, i) else (has, mx, idx))"

text \<open>The index is returned as an \<open>int\<close>.\<close>

definition get_rough_richest_pool :: "pool \<Rightarrow> int" where
  "get_rough_richest_pool P =
     (case richest_from (local_remain_pages P) 0 (False, 0, 0) of
        (has, _, idx) \<Rightarrow> if has then sint (of_nat idx :: u32) else -1)"

text \<open>Taking the head of list \<open>i\<close>; the counter goes down in any case.\<close>

definition pop_pool :: "nat \<Rightarrow> pool \<Rightarrow> ptr \<times> pool" where
  "pop_pool i P =
     (let page = local_pools P ! i;
          P1 = (if page \<noteq> 0 then P\<lparr>local_pools := (local_pools P)[i := p_next P page]\<rparr> else P)
      in (page, P1\<lparr>local_remain_pages := (local_remain_pages P1)[i := local_remain_pages P1 ! i - 1]\<rparr>))"

text \<open>The loop through the label \<open>retry\<close>; with no fuel left there is no result.\<close>

fun allocate_from :: "nat \<Rightarrow> nat \<Rightarrow> pool \<Rightarrow> (ptr \<times> pool) option" where
  "allocate_from 0 i P = None"
| "allocate_from (Suc k) i P =
     (let (page, P1) = pop_pool i P in
      if page = 0
      then let ret = get_rough_richest_pool P1 in
           if ret \<noteq> -1 then allocate_from k (nat ret) P1 else Some (page, P1)
      else Some (page, P1))"

definition allocate :: "nat \<Rightarrow> nat \<Rightarrow> pool \<Rightarrow> (ptr \<times> pool) option" where
  "allocate k hash P = allocate_from k (hash mod num_pools P) P"

definition deallocate :: "ptr \<Rightarrow> pool \<Rightarrow> pool" where
  "deallocate p P =
     (let i = pool_of (num_pools P) (page_size P) p in
      if p = 0 then P
      else let P1 = P\<lparr>p_next := (p_next P)(p := local_pools P ! i),
                      local_pools := (local_pools P)[i := p]\<rparr>
           in P1\<lparr>local_remain_pages := (local_remain_pages P1)[i := local_remain_pages P1 ! i + 1]\<rparr>)"

subsection \<open>Chains\<close>

text \<open>The pages on the list that starts at a head.\<close>

fun chain :: "(ptr \<Rightarrow> ptr) \<Rightarrow> ptr \<Rightarrow> ptr list \<Rightarrow> bool" where
  "chain nxt p [] \<longleftrightarrow> p = 0"
| "chain nxt p (x # xs) \<longleftrightarrow> p = x \<and> x \<noteq> 0 \<and> chain nxt (nxt x) xs"

lemma chain_null [simp]: "chain nxt 0 xs \<longleftrightarrow> xs = []"
  by (cases xs) auto

lemma chain_upd: "p \<notin> set xs \<Longrightarrow> chain (nxt(p := q)) h xs = chain nxt h xs"
  by (induction xs arbitrary: h) auto

lemma chain_nonnull: "chain nxt h xs \<Longrightarrow> 0 \<notin> set xs"
  by (induction xs arbitrary: h) auto

lemma free_list_chain: "chain nxt h xs \<Longrightarrow> length xs \<le> k \<Longrightarrow> free_list k nxt h = Some xs"
proof (induction xs arbitrary: h k)
  case Nil
  then show ?case by (cases k) simp_all
next
  case (Cons x xs)
  then show ?case by (cases k) simp_all
qed

text \<open>
  The abstract state is one stack of pages per pool. The representation: list \<open>i\<close> is the chain
  of stack \<open>i\<close>, its counter is the stack's size, its pages belong to pool \<open>i\<close>, and no page is
  on two lists.
\<close>

definition pool_rep :: "pool \<Rightarrow> ptr list list \<Rightarrow> bool" where
  "pool_rep P S \<longleftrightarrow>
     0 < num_pools P \<and> length S = num_pools P \<and> length (local_pools P) = num_pools P
   \<and> length (local_remain_pages P) = num_pools P \<and> length (pages_per_pool P) = num_pools P
   \<and> distinct (concat S)
   \<and> (\<forall>i<num_pools P. chain (p_next P) (local_pools P ! i) (S ! i)
        \<and> local_remain_pages P ! i = of_nat (length (S ! i))
        \<and> (\<forall>p\<in>set (S ! i). pool_of (num_pools P) (page_size P) p = i))"

lemma pool_repD:
  assumes "pool_rep P S" "i < num_pools P"
  shows "chain (p_next P) (local_pools P ! i) (S ! i)"
    "local_remain_pages P ! i = of_nat (length (S ! i))"
    "p \<in> set (S ! i) \<Longrightarrow> pool_of (num_pools P) (page_size P) p = i"
  using assms by (auto simp: pool_rep_def)

lemma concat_update:
  assumes "i < length S"
  shows "mset (concat (S[i := xs])) + mset (S ! i) = mset (concat S) + mset xs"
proof -
  have "concat S = concat (take i S) @ S ! i @ concat (drop (Suc i) S)"
    using id_take_nth_drop [OF assms] by (metis concat.simps(2) concat_append)
  moreover have "concat (S[i := xs]) = concat (take i S) @ xs @ concat (drop (Suc i) S)"
    using upd_conv_take_nth_drop [OF assms, of xs] by simp
  ultimately show ?thesis by (simp add: union_assoc union_commute union_lcomm)
qed

lemma in_concat_nth: "i < length S \<Longrightarrow> x \<in> set (S ! i) \<Longrightarrow> x \<in> set (concat S)"
  by (metis UN_I nth_mem set_concat)

text \<open>Putting a page that is on no list in front of its list.\<close>

definition push_page :: "ptr \<Rightarrow> pool \<Rightarrow> pool" where
  "push_page p P =
     (let i = pool_of (num_pools P) (page_size P) p in
      P\<lparr>p_next := (p_next P)(p := local_pools P ! i), local_pools := (local_pools P)[i := p],
        local_remain_pages := (local_remain_pages P)[i := local_remain_pages P ! i + 1]\<rparr>)"

lemma deallocate_push: "p \<noteq> 0 \<Longrightarrow> deallocate p P = push_page p P"
  by (simp add: deallocate_def push_page_def Let_def)

lemma push_page_fields [simp]:
  "num_pools (push_page p P) = num_pools P" "page_size (push_page p P) = page_size P"
  "pages_per_pool (push_page p P) = pages_per_pool P"
  by (simp_all add: push_page_def Let_def)

lemma pool_rep_push:
  assumes rep: "pool_rep P S" and p: "p \<noteq> 0" "p \<notin> set (concat S)"
  defines "i \<equiv> pool_of (num_pools P) (page_size P) p"
  shows "i < length S" "pool_rep (push_page p P) (S[i := p # S ! i])"
proof -
  have n: "length S = num_pools P" "0 < num_pools P" using rep by (simp_all add: pool_rep_def)
  show i: "i < length S" using n by (simp add: i_def pool_of_def)
  have "mset (concat (S[i := p # S ! i])) = mset (p # concat S)"
    using concat_update [OF i, of "p # S ! i"] by simp
  moreover have "distinct (p # concat S)" using rep p by (simp add: pool_rep_def)
  ultimately have d: "distinct (concat (S[i := p # S ! i]))" by (metis mset_eq_imp_distinct_iff)
  have notin: "p \<notin> set (S ! j)" if "j < num_pools P" for j
    using p(2) in_concat_nth [of j S p] that n by auto
  have "chain (p_next (push_page p P)) (local_pools (push_page p P) ! j) (S[i := p # S ! i] ! j)
      \<and> local_remain_pages (push_page p P) ! j = of_nat (length (S[i := p # S ! i] ! j))
      \<and> (\<forall>q\<in>set (S[i := p # S ! i] ! j). pool_of (num_pools P) (page_size P) q = j)"
    if j: "j < num_pools P" for j
    using pool_repD [OF rep j] notin [OF j] i n p(1) rep
    by (cases "j = i") (auto simp: push_page_def Let_def i_def [symmetric] chain_upd pool_rep_def)
  then show "pool_rep (push_page p P) (S[i := p # S ! i])"
    using rep d by (simp add: pool_rep_def) (simp add: push_page_def Let_def)
qed

lemma pool_rep_pop:
  assumes rep: "pool_rep P S" and i: "i < num_pools P" and S: "S ! i = p # xs"
  shows "fst (pop_pool i P) = p" "pool_rep (snd (pop_pool i P)) (S[i := xs])"
    "num_pools (snd (pop_pool i P)) = num_pools P" "page_size (snd (pop_pool i P)) = page_size P"
    "push_page p (snd (pop_pool i P)) = P" "p \<noteq> 0" "p \<notin> set (concat (S[i := xs]))"
proof -
  have n: "length S = num_pools P" "length (local_pools P) = num_pools P"
      "length (local_remain_pages P) = num_pools P"
    using rep by (simp_all add: pool_rep_def)
  have h: "local_pools P ! i = p" "p \<noteq> 0" "chain (p_next P) (p_next P p) xs"
      "local_remain_pages P ! i = of_nat (Suc (length xs))" "pool_of (num_pools P) (page_size P) p = i"
    using pool_repD [OF rep i] S by auto
  show "fst (pop_pool i P) = p" by (simp add: pop_pool_def h)
  show "p \<noteq> 0" by (rule h(2))
  have pop: "snd (pop_pool i P) = P\<lparr>local_pools := (local_pools P)[i := p_next P p],
      local_remain_pages := (local_remain_pages P)[i := of_nat (length xs)]\<rparr>"
    using h by (simp add: pop_pool_def)
  show "num_pools (snd (pop_pool i P)) = num_pools P" "page_size (snd (pop_pool i P)) = page_size P"
    by (simp_all add: pop)
  have "mset (p # concat (S[i := xs])) = mset (concat S)"
    using concat_update [of i S xs] i n S by simp
  then have d: "distinct (p # concat (S[i := xs]))"
    using rep by (metis mset_eq_imp_distinct_iff pool_rep_def)
  then show "p \<notin> set (concat (S[i := xs]))" by simp
  have "chain (p_next P) (((local_pools P)[i := p_next P p]) ! j) (S[i := xs] ! j)
      \<and> (local_remain_pages P)[i := of_nat (length xs)] ! j = of_nat (length (S[i := xs] ! j))
      \<and> (\<forall>q\<in>set (S[i := xs] ! j). pool_of (num_pools P) (page_size P) q = j)"
    if j: "j < num_pools P" for j
    using pool_repD [OF rep j] h S i n by (cases "j = i") auto
  then show "pool_rep (snd (pop_pool i P)) (S[i := xs])"
    using rep d by (simp add: pool_rep_def pop)
  show "push_page p (snd (pop_pool i P)) = P"
  proof -
    have "(local_pools P)[i := p] = local_pools P"
      "(local_remain_pages P)[i := of_nat (Suc (length xs))] = local_remain_pages P"
      using h(1,4) list_update_id by metis+
    then show ?thesis
      using h i n by (intro pool.equality) (simp_all add: pop push_page_def Let_def add.commute)
  qed
qed

subsection \<open>The contract of the lists, and its client\<close>

text \<open>
  What the allocator relies on of the lists, without their representation: stacks of distinct
  pages, a page pushed goes on top of its home stack, a pop takes the top.
\<close>

locale page_stacks =
  fixes rep :: "'p \<Rightarrow> ptr list list \<Rightarrow> bool"
    and pop :: "nat \<Rightarrow> 'p \<Rightarrow> ptr \<times> 'p"
    and push :: "ptr \<Rightarrow> 'p \<Rightarrow> 'p"
    and home :: "'p \<Rightarrow> ptr \<Rightarrow> nat"
  assumes rep_distinct: "rep P S \<Longrightarrow> distinct (concat S)"
    and push_top: "rep P S \<Longrightarrow> p \<noteq> 0 \<Longrightarrow> p \<notin> set (concat S) \<Longrightarrow>
      home P p < length S \<and> rep (push p P) (S[home P p := p # S ! home P p])"
    and pop_top: "rep P S \<Longrightarrow> i < length S \<Longrightarrow> S ! i = p # xs \<Longrightarrow>
      \<exists>P'. pop i P = (p, P') \<and> rep P' (S[i := xs]) \<and> p \<noteq> 0"
begin

text \<open>Free pages and pages handed out together are always the pages of the pool, each once.\<close>

abbreviation conserved :: "ptr list \<Rightarrow> 'p \<Rightarrow> ptr list \<Rightarrow> bool" where
  "conserved pages P held \<equiv>
     \<exists>S. rep P S \<and> mset (concat S) + mset held = mset pages \<and> distinct pages \<and> 0 \<notin> set pages"

lemma conserved_disjoint:
  assumes "rep P S" "mset (concat S) + mset held = mset pages" "distinct pages"
  shows "distinct held" "set held \<inter> set (concat S) = {}" "set held \<subseteq> set pages"
proof -
  have m: "mset (concat S @ held) = mset pages" using assms(2) by simp
  then have "distinct (concat S @ held)" using assms(3) by (metis mset_eq_imp_distinct_iff)
  then show "distinct held" "set held \<inter> set (concat S) = {}" by (auto simp del: set_concat)
  show "set held \<subseteq> set pages" using m by (metis Un_upper2 mset_eq_setD set_append)
qed

lemma take_conserved:
  assumes "rep P S" "mset (concat S) + mset held = mset pages" "distinct pages" "0 \<notin> set pages"
    "i < length S" "S ! i \<noteq> []"
  shows "fst (pop i P) \<noteq> 0 \<and> fst (pop i P) \<notin> set held
    \<and> conserved pages (snd (pop i P)) (fst (pop i P) # held)"
proof -
  obtain p xs where S: "S ! i = p # xs" using assms(6) by (cases "S ! i") auto
  obtain P' where P': "pop i P = (p, P')" "rep P' (S[i := xs])" "p \<noteq> 0"
    using pop_top [OF assms(1,5) S] by blast
  have C: "mset (concat S) = add_mset p (mset (concat (S[i := xs])))"
    using concat_update [OF assms(5), of xs] S by simp
  have "mset (concat (S[i := xs])) + mset (p # held) = mset pages"
    using assms(2) unfolding C by simp
  moreover have "p \<in> set (concat S)" using in_concat_nth [OF assms(5), of p] S by simp
  then have "p \<notin> set held" using conserved_disjoint(2) [OF assms(1-3)] by blast
  ultimately show ?thesis using P' assms(3,4) by auto
qed

lemma give_conserved:
  assumes "rep P S" "mset (concat S) + mset held = mset pages" "distinct pages" "0 \<notin> set pages"
    "p \<in> set held"
  shows "p \<noteq> 0 \<and> conserved pages (push p P) (remove1 p held)"
proof -
  note c = conserved_disjoint [OF assms(1-3)]
  have p: "p \<noteq> 0" "p \<notin> set (concat S)" using c assms(4,5) by auto
  note h = push_top [OF assms(1) p]
  have "mset (concat (S[home P p := p # S ! home P p])) = add_mset p (mset (concat S))"
    using concat_update [of "home P p" S "p # S ! home P p"] h by simp
  moreover have H: "mset held = add_mset p (mset (remove1 p held))" using assms(5) by simp
  ultimately have "mset (concat (S[home P p := p # S ! home P p])) + mset (remove1 p held) = mset pages"
    using assms(2) unfolding H by (simp del: mset_remove1)
  then show ?thesis using h p assms(3,4) by blast
qed

end

interpretation lists: page_stacks pool_rep pop_pool push_page "\<lambda>P. pool_of (num_pools P) (page_size P)"
proof unfold_locales
  fix P S p and i :: nat and xs
  show "pool_rep P S \<Longrightarrow> distinct (concat S)" by (simp add: pool_rep_def)
  show "pool_rep P S \<Longrightarrow> p \<noteq> 0 \<Longrightarrow> p \<notin> set (concat S) \<Longrightarrow>
      pool_of (num_pools P) (page_size P) p < length S \<and>
      pool_rep (push_page p P) (S[pool_of (num_pools P) (page_size P) p :=
        p # S ! pool_of (num_pools P) (page_size P) p])"
    using pool_rep_push by blast
  assume "pool_rep P S" "i < length S" "S ! i = p # xs"
  then show "\<exists>P'. pop_pool i P = (p, P') \<and> pool_rep P' (S[i := xs]) \<and> p \<noteq> 0"
    using pool_rep_pop [of P S i p xs] by (metis pool_rep_def prod.collapse)
qed

subsection \<open>Building and destroying the pool\<close>

definition good_page :: "nat \<Rightarrow> ptr \<Rightarrow> bool" where
  "good_page ps p \<longleftrightarrow> p \<noteq> 0 \<and> unat p mod ps = 0"

lemma add_page_push:
  assumes "good_page (page_size P) p"
  shows "add_page p P = Inr ((push_page p P)\<lparr>pages_per_pool :=
    (pages_per_pool P)[pool_of (num_pools P) (page_size P) p :=
       pages_per_pool P ! pool_of (num_pools P) (page_size P) p + 1]\<rparr>)"
  using assms by (simp add: add_page_def good_page_def push_page_def Let_def)

lemma pool_rep_pages_per_pool:
  "pool_rep P S \<Longrightarrow> length xs = num_pools P \<Longrightarrow> pool_rep (P\<lparr>pages_per_pool := xs\<rparr>) S"
  by (simp add: pool_rep_def)

lemma add_pages_rep:
  assumes "pool_rep P S" "local_remain_pages P = pages_per_pool P"
    "\<forall>p\<in>set ps. good_page (page_size P) p" "distinct (ps @ concat S)"
  shows "\<exists>P' S'. add_pages ps P = Inr P' \<and> pool_rep P' S' \<and> local_remain_pages P' = pages_per_pool P'
    \<and> mset (concat S') = mset ps + mset (concat S) \<and> num_pools P' = num_pools P \<and> page_size P' = page_size P"
  using assms
proof (induction ps arbitrary: P S)
  case (Cons p ps)
  let ?i = "pool_of (num_pools P) (page_size P) p"
  let ?P = "(push_page p P)\<lparr>pages_per_pool := (pages_per_pool P)[?i := pages_per_pool P ! ?i + 1]\<rparr>"
  let ?S = "S[?i := p # S ! ?i]"
  have p: "p \<noteq> 0" "p \<notin> set (concat S)" using Cons.prems by (auto simp: good_page_def)
  note r = pool_rep_push [OF Cons.prems(1) p]
  have rep: "pool_rep ?P ?S"
    using Cons.prems(1) by (intro pool_rep_pages_per_pool [OF r(2)]) (simp add: pool_rep_def)
  have eq: "local_remain_pages ?P = pages_per_pool ?P"
    using Cons.prems(2) by (simp add: push_page_def Let_def)
  have m: "mset (concat ?S) = add_mset p (mset (concat S))"
    using concat_update [OF r(1), of "p # S ! ?i"] by simp
  have "distinct (ps @ concat ?S)"
    using Cons.prems(4) m mset_eq_imp_distinct_iff [of "ps @ concat ?S" "(p # ps) @ concat S"] by simp
  then obtain P' S' where "add_pages ps ?P = Inr P'" "pool_rep P' S'"
      "local_remain_pages P' = pages_per_pool P'" "mset (concat S') = mset ps + mset (concat ?S)"
      "num_pools P' = num_pools ?P" "page_size P' = page_size ?P"
    using Cons.IH [OF rep eq] Cons.prems(3) by auto
  moreover have "add_page p P = Inr ?P" using Cons.prems(3) by (intro add_page_push) simp
  ultimately show ?case unfolding m by (intro exI [of _ P'] exI [of _ S']) simp
qed auto

text \<open>
  The constructor: given distinct, non-null, page-aligned pages it succeeds with its assertions
  satisfied; every page is on exactly one list, the one its address selects, and every counter
  is the length of its list.\<close>

lemma MemoryPool_rep:
  assumes "0 < n" "distinct pages" "\<forall>p\<in>set pages. good_page ps p"
  shows "\<exists>P S. MemoryPool n ps pages = Inr P \<and> pool_rep P S \<and> mset (concat S) = mset pages
    \<and> local_remain_pages P = pages_per_pool P \<and> num_pools P = n \<and> page_size P = ps"
proof -
  let ?P = "\<lparr>num_pools = n, page_size = ps, pages_per_pool = replicate n 0, local_pools = replicate n 0,
     local_remain_pages = replicate n 0, p_next = (\<lambda>_. 0)\<rparr>"
  have "concat (replicate n []) = ([] :: ptr list)" by (induction n) auto
  then have "pool_rep ?P (replicate n [])" using assms(1) by (simp add: pool_rep_def)
  from add_pages_rep [OF this, of pages] assms(2,3) \<open>concat (replicate n []) = []\<close>
  obtain P S where "add_pages pages ?P = Inr P" "pool_rep P S" "mset (concat S) = mset pages"
      "local_remain_pages P = pages_per_pool P" "num_pools P = n" "page_size P = ps"
    by auto
  then show ?thesis by (auto simp: MemoryPool_def)
qed

lemma free_pools_chains:
  assumes "length S = length hs" "length rs = length hs"
    "\<forall>i<length hs. chain nxt (hs ! i) (S ! i) \<and> rs ! i = of_nat (length (S ! i)) \<and> length (S ! i) \<le> k"
  shows "free_pools k nxt (zip hs rs) = Some (Inr (concat S))"
  using assms
proof (induction hs arbitrary: S rs)
  case (Cons h hs)
  then obtain xs S' r rs' where S: "S = xs # S'" "rs = r # rs'" by (metis length_Suc_conv)
  have "free_pools k nxt (zip hs rs') = Some (Inr (concat S'))"
    using Cons.prems S by (intro Cons.IH) auto
  moreover have "free_list k nxt h = Some xs" "r = of_nat (length xs)"
    using Cons.prems(3) S by (auto intro!: free_list_chain)
  ultimately show ?case using S by simp
qed simp

lemma concat_length_le: "i < length S \<Longrightarrow> length (S ! i) \<le> length (concat S)"
  by (induction S arbitrary: i) (auto simp: nth_Cons split: nat.split intro: trans_le_add2)

text \<open>
  The destructor of a pool to which all pages have been returned terminates and frees every
  page of the pool exactly once, with its assertions satisfied.\<close>

lemma destroy_rep:
  assumes "pool_rep P S" "local_remain_pages P = pages_per_pool P" "length (concat S) \<le> k"
  shows "destroy k P = Some (Inr (concat S))"
proof -
  have "free_pools k (p_next P) (zip (local_pools P) (local_remain_pages P)) = Some (Inr (concat S))"
    using assms(1,3) le_trans [OF concat_length_le [of _ S] assms(3)]
    by (intro free_pools_chains) (auto simp: pool_rep_def)
  then show ?thesis using assms by (simp add: destroy_def)
qed

text \<open>The two-list pool of three pages, computed.\<close>

definition demo_pool :: pool where
  "demo_pool = \<lparr>num_pools = 2, page_size = 4096, pages_per_pool = [1, 2], local_pools = [0x2000, 0x3000],
     local_remain_pages = [1, 2], p_next = (\<lambda>_. 0)(0x1000 := 0, 0x2000 := 0, 0x3000 := 0x1000)\<rparr>"

lemma all_less_2: "(\<forall>i<2::nat. Q i) \<longleftrightarrow> Q 0 \<and> Q 1"
  by (auto simp: less_2_cases_iff)

lemma replicate_2: "replicate 2 x = [x, x]"
  by (simp add: numeral_2_eq_2)

lemma demo_pool_rep: "pool_rep demo_pool [[0x2000], [0x3000, 0x1000]]"
  by (simp add: pool_rep_def demo_pool_def pool_of_def all_less_2)

subsection \<open>Allocating and returning pages\<close>

text \<open>
  Allocating from a list that has pages takes its first page, and returning that page at once
  restores the pool exactly, with every \<open>next\<close> field and counter.\<close>

lemma allocate_deallocate:
  assumes "pool_rep P S" "S ! (hash mod num_pools P) = p # xs"
  shows "\<exists>P'. allocate (Suc k) hash P = Some (p, P') \<and> p \<noteq> 0
    \<and> pool_rep P' (S[hash mod num_pools P := xs]) \<and> deallocate p P' = P"
proof -
  have i: "hash mod num_pools P < num_pools P" using assms(1) by (simp add: pool_rep_def)
  note r = pool_rep_pop [OF assms(1) i assms(2)]
  have "allocate (Suc k) hash P = Some (p, snd (pop_pool (hash mod num_pools P) P))"
    using r(1,6) by (cases "pop_pool (hash mod num_pools P) P") (simp add: allocate_def)
  then show ?thesis using r deallocate_push by auto
qed

text \<open>Histories of a pool used by one thread at a time: pages are taken from lists that have some,
  and only pages that were handed out come back.\<close>

inductive pool_reach :: "ptr list \<Rightarrow> pool \<Rightarrow> ptr list \<Rightarrow> bool" for pages where
  built: "MemoryPool n ps pages = Inr P \<Longrightarrow> 0 < n \<Longrightarrow> distinct pages \<Longrightarrow> \<forall>p\<in>set pages. good_page ps p \<Longrightarrow>
    pool_reach pages P []"
| taken: "pool_reach pages P held \<Longrightarrow> local_pools P ! (hash mod num_pools P) \<noteq> 0 \<Longrightarrow>
    allocate (Suc k) hash P = Some (p, P') \<Longrightarrow> pool_reach pages P' (p # held)"
| given: "pool_reach pages P held \<Longrightarrow> p \<in> set held \<Longrightarrow> pool_reach pages (deallocate p P) (remove1 p held)"

lemma pool_reach_conserved:
  assumes "pool_reach pages P held"
  shows "\<exists>S. pool_rep P S \<and> mset (concat S) + mset held = mset pages \<and> distinct pages \<and> 0 \<notin> set pages"
  using assms
proof induction
  case (built n ps P)
  then have "0 \<notin> set pages" by (auto simp: good_page_def)
  moreover obtain Q S where "MemoryPool n ps pages = Inr Q" "pool_rep Q S" "mset (concat S) = mset pages"
    using MemoryPool_rep [OF built(2-4)] by blast
  ultimately show ?case using built(1,3) by auto
next
  case (taken P held hash k p P')
  then obtain S where S: "pool_rep P S" "mset (concat S) + mset held = mset pages" "distinct pages"
      "0 \<notin> set pages" by blast
  let ?i = "hash mod num_pools P"
  have i: "?i < num_pools P" "length S = num_pools P" using S(1) by (simp_all add: pool_rep_def)
  have ne: "S ! ?i \<noteq> []" using pool_repD(1) [OF S(1) i(1)] taken.hyps(2) by auto
  have "pop_pool ?i P = (p, P')"
    using taken.hyps(2,3) by (auto simp: allocate_def pop_pool_def Let_def split: if_splits)
  then show ?case using lists.take_conserved [OF S, of ?i] i ne by simp
next
  case (given P held p)
  then obtain S where S: "pool_rep P S" "mset (concat S) + mset held = mset pages" "distinct pages"
      "0 \<notin> set pages" by blast
  from lists.give_conserved [OF S given.hyps(2)] deallocate_push [of p P] show ?case by auto
qed



subsection \<open>The richest pool\<close>

text \<open>The loop's variables after a prefix of the counters: the first largest counter.\<close>

definition richest_inv :: "u64 list \<Rightarrow> bool \<times> u64 \<times> nat \<Rightarrow> bool" where
  "richest_inv cs acc = (case acc of (has, mx, idx) \<Rightarrow>
     (\<forall>j<length cs. cs ! j \<le> mx) \<and> (\<not> has \<longrightarrow> mx = 0)
   \<and> (has \<longrightarrow> 0 < mx \<and> idx < length cs \<and> cs ! idx = mx \<and> (\<forall>j<idx. cs ! j < mx)))"

lemma richest_from_inv:
  "richest_inv pre acc \<Longrightarrow> richest_inv (pre @ cs) (richest_from cs (length pre) acc)"
proof (induction cs arbitrary: pre acc)
  case (Cons c cs)
  obtain has mx idx where acc: "acc = (has, mx, idx)" by (cases acc)
  let ?acc = "if c > mx then (True, c, length pre) else acc"
  have "richest_inv (pre @ [c]) ?acc"
    using Cons.prems unfolding richest_inv_def acc
    by (auto simp: nth_append less_Suc_eq not_less intro: order.strict_trans1 order.trans
        dest: order.strict_implies_order)
  from Cons.IH [OF this] show ?case by (cases "mx < c") (simp_all add: acc)
qed simp

lemma sint_of_nat_u32: "n < 2 ^ 31 \<Longrightarrow> sint (of_nat n :: u32) = int n"
  by (simp add: signed_of_nat signed_take_bit_int_eq_self)

text \<open>
  \<open>get_rough_richest_pool\<close> returns -1 exactly when all counters are zero, and otherwise the first
  pool whose counter is largest.\<close>

lemma richest_pool_spec:
  assumes "length (local_remain_pages P) < 2 ^ 31"
  shows "let cs = local_remain_pages P; r = get_rough_richest_pool P in
    (r = -1 \<longleftrightarrow> (\<forall>j<length cs. cs ! j = 0))
  \<and> (r \<noteq> -1 \<longrightarrow> 0 \<le> r \<and> nat r < length cs
       \<and> (\<forall>j<length cs. cs ! j \<le> cs ! nat r) \<and> (\<forall>j<nat r. cs ! j < cs ! nat r))"
proof -
  have i: "richest_inv (local_remain_pages P) (richest_from (local_remain_pages P) 0 (False, 0, 0))"
    using richest_from_inv [of "[]" "(False, 0, 0)" "local_remain_pages P"] by (simp add: richest_inv_def)
  obtain has mx idx where r: "richest_from (local_remain_pages P) 0 (False, 0, 0) = (has, mx, idx)"
    by (cases "richest_from (local_remain_pages P) 0 (False, 0, 0)")
  show ?thesis
    using i assms unfolding r get_rough_richest_pool_def richest_inv_def Let_def
    by (cases has) (auto simp: sint_of_nat_u32)
qed

lemma richest_unique:
  assumes "i < length (local_remain_pages P)" "0 < local_remain_pages P ! i"
    and n: "length (local_remain_pages P) < 2 ^ 31"
    and "\<forall>j<length (local_remain_pages P). j \<noteq> i \<longrightarrow> local_remain_pages P ! j < local_remain_pages P ! i"
  shows "get_rough_richest_pool P = int i"
proof -
  have inv: "richest_inv (local_remain_pages P) (richest_from (local_remain_pages P) 0 (False, 0, 0))"
    using richest_from_inv [of "[]" "(False, 0, 0)" "local_remain_pages P"] by (simp add: richest_inv_def)
  obtain has mx idx where r: "richest_from (local_remain_pages P) 0 (False, 0, 0) = (has, mx, idx)"
    by (cases "richest_from (local_remain_pages P) 0 (False, 0, 0)")
  have has: has using inv assms(1,2) by (auto simp: r richest_inv_def)
  then have "idx = i" using inv assms by (auto simp: r richest_inv_def not_less) (meson leD)
  then show ?thesis using has assms(1) n by (simp add: get_rough_richest_pool_def r sint_of_nat_u32)
qed

subsection \<open>An empty list traps the allocator\<close>

lemma allocate_spins:
  assumes "i < length (local_remain_pages P)" "length (local_pools P) = length (local_remain_pages P)"
    "local_pools P ! i = 0"
    "\<forall>j<length (local_remain_pages P). j \<noteq> i \<longrightarrow> unat (local_remain_pages P ! j) < 2 ^ 63"
    "2 ^ 63 + k < unat (local_remain_pages P ! i - 1) + 1" "length (local_remain_pages P) < 2 ^ 31"
  shows "allocate_from k i P = None"
  using assms
proof (induction k arbitrary: P)
  case (Suc k)
  let ?c = "local_remain_pages P ! i - 1"
  let ?P = "P\<lparr>local_remain_pages := (local_remain_pages P)[i := ?c]\<rparr>"
  have pop: "pop_pool i P = (0, ?P)" using Suc.prems(3) by (simp add: pop_pool_def)
  have "get_rough_richest_pool ?P = int i"
  proof (rule richest_unique)
    show "i < length (local_remain_pages ?P)" using Suc.prems(1) by simp
    show "length (local_remain_pages ?P) < 2 ^ 31" using Suc.prems(6) by simp
    show "0 < local_remain_pages ?P ! i" using Suc.prems(1,5) by (simp add: word_less_nat_alt)
    show "\<forall>j<length (local_remain_pages ?P). j \<noteq> i \<longrightarrow>
        local_remain_pages ?P ! j < local_remain_pages ?P ! i"
      using Suc.prems(1,4,5) by (force simp: word_less_nat_alt)
  qed
  moreover have "allocate_from k i ?P = None"
  proof (rule Suc.IH)
    have "unat (?c - 1) = unat ?c - 1"
      using Suc.prems(5) by (intro unat_minus_one) auto
    then show "2 ^ 63 + k < unat (local_remain_pages ?P ! i - 1) + 1"
      using Suc.prems(1,5) by simp
  qed (use Suc.prems in auto)
  ultimately show ?case by (simp add: pop)
qed simp

lemma empty_list_traps:
  assumes "pool_rep P S" "S ! (hash mod num_pools P) = []"
    "\<forall>j<num_pools P. length (S ! j) < 2 ^ 63" "num_pools P < 2 ^ 31" "k \<le> 2 ^ 62"
  shows "allocate k hash P = None"
proof -
  let ?i = "hash mod num_pools P"
  have i: "?i < num_pools P" and len: "length (local_pools P) = num_pools P"
      "length (local_remain_pages P) = num_pools P"
    using assms(1) by (simp_all add: pool_rep_def)
  have h: "local_pools P ! ?i = 0" "local_remain_pages P ! ?i = 0"
    using pool_repD(1,2) [OF assms(1) i] assms(2) by simp_all
  have c: "unat (local_remain_pages P ! j) < 2 ^ 63" if "j < num_pools P" for j
  proof -
    have "length (S ! j) < 2 ^ 63" using assms(3) that by blast
    then show ?thesis using pool_repD(2) [OF assms(1) that] by (simp add: unat_of_nat_u64)
  qed
  have "unat (local_remain_pages P ! ?i - 1) = 2 ^ 64 - 1"
    by (simp add: h unsigned_minus_1_eq_mask mask_eq_exp_minus_1)
  then show ?thesis
    unfolding allocate_def using i len h(1) c assms(4,5) by (intro allocate_spins) auto
qed

text \<open>
  C33. An empty list traps the allocator even though other lists have pages: the counter is decremented
  although nothing was taken, wraps to \<open>2^64 - 1\<close>, and makes the empty list the richest. Whatever
  the other lists hold, \<open>allocate\<close> has not returned after \<open>2^62\<close> rounds.\<close>

theorem allocate_trapped:
  assumes "pool_rep P S" "S ! (hash mod num_pools P) = []"
    "\<forall>j<num_pools P. length (S ! j) < 2 ^ 63" "num_pools P < 2 ^ 31" "k \<le> 2 ^ 62"
  shows "allocate k hash P = None"
  using empty_list_traps [OF assms] .

text \<open>A pool whose first list is empty and whose second list has two pages.\<close>

definition starved_pool :: pool where
  "starved_pool = demo_pool\<lparr>local_pools := [0, 0x3000], local_remain_pages := [0, 2]\<rparr>"

theorem allocate_trapped_witness:
  "pool_rep starved_pool [[], [0x3000, 0x1000]] \<and> allocate 1000 0 starved_pool = None"
proof -
  have rep: "pool_rep starved_pool [[], [0x3000, 0x1000]]"
    by (simp add: pool_rep_def starved_pool_def demo_pool_def pool_of_def all_less_2)
  have "allocate 1000 0 starved_pool = None"
    by (rule allocate_trapped [OF rep])
      (simp_all add: starved_pool_def demo_pool_def all_less_2)
  with rep show ?thesis by blast
qed

end
