(* ===== verification/Pool_Concurrency.thy ===== *)
theory Pool_Concurrency
  imports Page_Pool
begin

text \<open>
  The lock-free part of \<open>src/phy_page_pool.h\<close>: the loops of \<open>allocate\<close> and \<open>deallocate\<close> around
  \<open>compare_exchange_weak\<close>, on one list shared by any number of threads. A step is one atomic
  access; a thread is where it is in its loop.
\<close>

subsection \<open>Steps\<close>

datatype pc =
    Idle
  | Pop_loaded ptr        \<comment> \<open>\<open>page\<close> has been loaded from the head\<close>
  | Pop_next ptr ptr      \<comment> \<open>\<open>page->next\<close> has been loaded too\<close>
  | Push_start ptr        \<comment> \<open>\<open>deallocate(page)\<close> has been called\<close>
  | Push_loaded ptr ptr   \<comment> \<open>\<open>expected\<close> has been loaded from the head\<close>
  | Push_stored ptr ptr   \<comment> \<open>\<open>page->next = expected\<close> has been stored\<close>

record cpool =
  c_head :: ptr
  c_next :: "ptr \<Rightarrow> ptr"
  c_pc :: "nat \<Rightarrow> pc"
  c_held :: "nat \<Rightarrow> ptr list"

abbreviation at :: "nat \<Rightarrow> pc \<Rightarrow> cpool \<Rightarrow> cpool" where
  "at t l s \<equiv> s\<lparr>c_pc := (c_pc s)(t := l)\<rparr>"

inductive pop_step :: "nat \<Rightarrow> cpool \<Rightarrow> cpool \<Rightarrow> bool" for t where
  pop_load: "c_pc s t = Idle \<Longrightarrow> c_head s \<noteq> 0 \<Longrightarrow> pop_step t s (at t (Pop_loaded (c_head s)) s)"
| pop_load_next: "c_pc s t = Pop_loaded p \<Longrightarrow> pop_step t s (at t (Pop_next p (c_next s p)) s)"
| pop_cas: "c_pc s t = Pop_next p q \<Longrightarrow> c_head s = p \<Longrightarrow>
    pop_step t s ((at t Idle s)\<lparr>c_head := q, c_held := (c_held s)(t := p # c_held s t)\<rparr>)"
| pop_retry: "c_pc s t = Pop_next p q \<Longrightarrow> pop_step t s (at t Idle s)"

inductive push_step :: "nat \<Rightarrow> cpool \<Rightarrow> cpool \<Rightarrow> bool" for t where
  push_call: "c_pc s t = Idle \<Longrightarrow> p \<in> set (c_held s t) \<Longrightarrow>
    push_step t s ((at t (Push_start p) s)\<lparr>c_held := (c_held s)(t := remove1 p (c_held s t))\<rparr>)"
| push_load: "c_pc s t = Push_start p \<Longrightarrow> push_step t s (at t (Push_loaded p (c_head s)) s)"
| push_store: "c_pc s t = Push_loaded p e \<Longrightarrow>
    push_step t s ((at t (Push_stored p e) s)\<lparr>c_next := (c_next s)(p := e)\<rparr>)"
| push_cas: "c_pc s t = Push_stored p e \<Longrightarrow> c_head s = e \<Longrightarrow>
    push_step t s ((at t Idle s)\<lparr>c_head := p\<rparr>)"
| push_retry: "c_pc s t = Push_stored p e \<Longrightarrow> push_step t s (at t (Push_start p) s)"

inductive cpool_reach :: "cpool \<Rightarrow> cpool \<Rightarrow> bool" for s0 where
  here: "cpool_reach s0 s0"
| pop: "cpool_reach s0 s \<Longrightarrow> pop_step t s s' \<Longrightarrow> cpool_reach s0 s'"
| push: "cpool_reach s0 s \<Longrightarrow> push_step t s s' \<Longrightarrow> cpool_reach s0 s'"

inductive push_reach :: "cpool \<Rightarrow> cpool \<Rightarrow> bool" for s0 where
  here: "push_reach s0 s0"
| push: "push_reach s0 s \<Longrightarrow> push_step t s s' \<Longrightarrow> push_reach s0 s'"

subsection \<open>Returning pages concurrently is safe\<close>

text \<open>The page a thread is returning.\<close>

fun in_flight :: "pc \<Rightarrow> ptr list" where
  "in_flight (Push_start p) = [p]"
| "in_flight (Push_loaded p e) = [p]"
| "in_flight (Push_stored p e) = [p]"
| "in_flight _ = []"

text \<open>The pages a thread owns: those it holds and the one it is returning.\<close>

definition owned :: "cpool \<Rightarrow> nat \<Rightarrow> ptr list" where
  "owned s t = in_flight (c_pc s t) @ c_held s t"

definition push_inv :: "cpool \<Rightarrow> ptr list \<Rightarrow> bool" where
  "push_inv s xs \<longleftrightarrow> chain (c_next s) (c_head s) xs \<and> distinct xs
     \<and> (\<forall>t. distinct (owned s t) \<and> 0 \<notin> set (owned s t) \<and> set (owned s t) \<inter> set xs = {})
     \<and> (\<forall>t u. t \<noteq> u \<longrightarrow> set (owned s t) \<inter> set (owned s u) = {})
     \<and> (\<forall>t p e. c_pc s t = Push_stored p e \<longrightarrow> c_next s p = e)"

lemma owned_simps [simp]:
  "owned (at t l s) u = (if u = t then in_flight l @ c_held s t else owned s u)"
  "owned (s\<lparr>c_head := h\<rparr>) u = owned s u"
  "owned (s\<lparr>c_next := n\<rparr>) u = owned s u"
  by (simp_all add: owned_def)

text \<open>A step that leaves the list alone, and under which every thread keeps the pages it owns, keeps the invariant.\<close>

lemma push_inv_same:
  assumes "push_inv s xs" "\<And>u. mset (owned s' u) = mset (owned s u)"
    and "chain (c_next s') (c_head s') xs" "\<And>u p e. c_pc s' u = Push_stored p e \<Longrightarrow> c_next s' p = e"
  shows "push_inv s' xs"
proof -
  have "set (owned s' u) = set (owned s u)" "distinct (owned s' u) = distinct (owned s u)" for u
    using assms(2) by (metis set_mset_mset, metis mset_eq_imp_distinct_iff)
  then show ?thesis using assms(1,3,4) by (simp add: push_inv_def)
qed

text \<open>The successful exchange: the page moves from the thread to the list.\<close>

lemma push_inv_cas:
  assumes pc: "c_pc s t = Push_stored p (c_head s)" and inv: "push_inv s xs"
  shows "push_inv ((at t Idle s)\<lparr>c_head := p\<rparr>) (p # xs)" (is "push_inv ?s' _")
proof -
  have own: "owned s t = p # owned ?s' t" "\<And>u. u \<noteq> t \<Longrightarrow> owned ?s' u = owned s u"
    using pc by (simp_all add: owned_def)
  note inv' = inv [unfolded push_inv_def]
  have d: "distinct (owned s u)" "0 \<notin> set (owned s u)" "set (owned s u) \<inter> set xs = {}" for u
    using inv' by blast+
  have dd: "u \<noteq> v \<Longrightarrow> set (owned s u) \<inter> set (owned s v) = {}" for u v using inv' by blast
  have p: "p \<notin> set xs" "p \<noteq> 0" "c_next s p = c_head s" using d [of t] own(1) pc inv' by auto
  have sub: "set (owned ?s' u) \<subseteq> set (owned s u)" "distinct (owned ?s' u)" "p \<notin> set (owned ?s' u)" for u
    using d(1) [of t] d(1) [of u] dd [of u t] own(1) own(2) [of u] by (cases "u = t"; auto)+
  show ?thesis
    unfolding push_inv_def
  proof (intro conjI allI impI)
    show "chain (c_next ?s') (c_head ?s') (p # xs)" "distinct (p # xs)" using inv' p by auto
    fix u v
    show "distinct (owned ?s' u)" by (rule sub(2))
    show "0 \<notin> set (owned ?s' u)" "set (owned ?s' u) \<inter> set (p # xs) = {}" using d [of u] sub [of u] by auto
    show "u \<noteq> v \<Longrightarrow> set (owned ?s' u) \<inter> set (owned ?s' v) = {}"
      using dd [of u v] sub(1) [of u] sub(1) [of v] by auto
    fix q e' show "c_pc ?s' u = Push_stored q e' \<Longrightarrow> c_next ?s' q = e'" using inv' by (auto split: if_splits)
  qed
qed

lemma push_step_inv:
  assumes "push_step t s s'" "push_inv s xs"
  shows "\<exists>ys. push_inv s' (ys @ xs)
    \<and> (\<forall>u. mset (owned s' u) + (if u = t then mset ys else {#}) = mset (owned s u))"
proof -
  have keep: ?thesis if "\<And>u. mset (owned s' u) = mset (owned s u)" "chain (c_next s') (c_head s') xs"
    "\<And>u p e. c_pc s' u = Push_stored p e \<Longrightarrow> c_next s' p = e"
    using push_inv_same [OF assms(2) that] that(1) by (intro exI [of _ "[]"]) simp
  have inv: "chain (c_next s) (c_head s) xs" "\<And>u p e. c_pc s u = Push_stored p e \<Longrightarrow> c_next s p = e"
    "\<And>u. set (owned s u) \<inter> set xs = {}" "\<And>u v. u \<noteq> v \<Longrightarrow> set (owned s u) \<inter> set (owned s v) = {}"
    using assms(2) unfolding push_inv_def by blast+
  from assms(1) show ?thesis
  proof cases
    case (push_store p e)
    have p: "p \<in> set (owned s t)" using push_store(2) by (simp add: owned_def)
    have "q \<noteq> p" if "c_pc s u = Push_stored q e'" "u \<noteq> t" for u q e'
      using inv(4) [OF that(2)] that(1) p by (force simp: owned_def)
    then show ?thesis
      using push_store inv(1,2) inv(3) [of t] p
      by (intro keep) (auto simp: owned_def chain_upd split: if_splits)
  next
    case (push_cas p e)
    then show ?thesis
      using push_inv_cas [of s t p] assms(2) by (intro exI [of _ "[p]"]) (auto simp: owned_def)
  qed ((rule keep; use inv(1,2) in \<open>auto simp: owned_def split: if_splits\<close>)+)
qed

text \<open>
  C8. Threads that return pages concurrently never lose or duplicate one: from a list and disjoint
  sets of held pages, after any interleaving of the steps of \<open>deallocate\<close> in any number of threads
  the list is a proper chain that ends in the original list, without repetition, and no page on it
  is still owned by a thread.\<close>

theorem concurrent_deallocate_safe:
  assumes "push_reach s0 s" "push_inv s0 xs"
  shows "\<exists>ys. chain (c_next s) (c_head s) (ys @ xs) \<and> distinct (ys @ xs)
    \<and> (\<forall>t. set (owned s t) \<inter> set (ys @ xs) = {} \<and> set (owned s0 t) \<subseteq> set (owned s t) \<union> set ys)"
proof -
  have "\<exists>ys. push_inv s (ys @ xs) \<and> (\<forall>t. set (owned s0 t) \<subseteq> set (owned s t) \<union> set ys)"
    using assms(1)
  proof induction
    case here
    show ?case using assms(2) by (intro exI [of _ "[]"]) simp
  next
    case (push s t s')
    then obtain ys where ys: "push_inv s (ys @ xs)" "\<forall>t. set (owned s0 t) \<subseteq> set (owned s t) \<union> set ys"
      by blast
    obtain zs where zs: "push_inv s' (zs @ ys @ xs)"
      "\<forall>u. mset (owned s' u) + (if u = t then mset zs else {#}) = mset (owned s u)"
      using push_step_inv [OF push.hyps(2) ys(1)] by blast
    have "set (owned s u) \<subseteq> set (owned s' u) \<union> set zs" for u
      using arg_cong [OF zs(2) [rule_format, of u], of set_mset] by (auto split: if_splits)
    then have "\<forall>u. set (owned s0 u) \<subseteq> set (owned s' u) \<union> set (zs @ ys)"
      using ys(2) by (simp add: subset_iff) blast
    then show ?case using zs(1) by (intro exI [of _ "zs @ ys"]) simp
  qed
  then obtain ys where "push_inv s (ys @ xs)" "\<forall>t. set (owned s0 t) \<subseteq> set (owned s t) \<union> set ys" by blast
  then show ?thesis unfolding push_inv_def by (intro exI [of _ ys]) simp
qed

text \<open>Two free pages, and two pages held by threads 0 and 1.\<close>

definition demo_cpool :: cpool where
  "demo_cpool = \<lparr>c_head = 0x1000, c_next = (\<lambda>_. 0)(0x1000 := 0x2000), c_pc = (\<lambda>_. Idle),
     c_held = (\<lambda>_. [])(0 := [0x3000], 1 := [0x4000])\<rparr>"

lemma demo_push_inv: "push_inv demo_cpool [0x1000, 0x2000]"
  by (auto simp: push_inv_def demo_cpool_def owned_def)

theorem concurrent_deallocate_safe_witness:
  "\<exists>s ys. push_reach demo_cpool s \<and> c_pc s 0 = Push_start 0x3000
    \<and> chain (c_next s) (c_head s) (ys @ [0x1000, 0x2000]) \<and> distinct (ys @ [0x1000, 0x2000])"
proof -
  let ?s = "(at 0 (Push_start 0x3000) demo_cpool)
    \<lparr>c_held := (c_held demo_cpool)(0 := remove1 0x3000 (c_held demo_cpool 0))\<rparr>"
  have "push_step 0 demo_cpool ?s" by (rule push_call) (simp_all add: demo_cpool_def)
  then have r: "push_reach demo_cpool ?s" using push_reach.here push_reach.push by blast
  then show ?thesis using concurrent_deallocate_safe [OF r demo_push_inv] by fastforce
qed

subsection \<open>Concurrent allocation is not\<close>

text \<open>A list of two pages and two idle threads that hold nothing.\<close>

definition aba_start :: cpool where
  "aba_start = \<lparr>c_head = 0x1000, c_next = (\<lambda>_. 0)(0x1000 := 0x2000), c_pc = (\<lambda>_. Idle), c_held = (\<lambda>_. [])\<rparr>"

text \<open>The states of the two threads on these pages.\<close>

definition aba :: "ptr \<Rightarrow> ptr \<Rightarrow> pc \<Rightarrow> pc \<Rightarrow> ptr list \<Rightarrow> ptr list \<Rightarrow> cpool" where
  "aba h n l0 l1 h0 h1 = \<lparr>c_head = h, c_next = (\<lambda>p. if p = 0x1000 then n else 0),
     c_pc = (\<lambda>t. if t = 0 then l0 else if t = 1 then l1 else Idle),
     c_held = (\<lambda>t. if t = 0 then h0 else if t = 1 then h1 else [])\<rparr>"

abbreviation reaches :: "ptr \<Rightarrow> ptr \<Rightarrow> pc \<Rightarrow> pc \<Rightarrow> ptr list \<Rightarrow> ptr list \<Rightarrow> bool" where
  "reaches h n l0 l1 h0 h1 \<equiv> cpool_reach aba_start (aba h n l0 l1 h0 h1)"

lemma aba_simps:
  "c_head (aba h n l0 l1 h0 h1) = h" "c_next (aba h n l0 l1 h0 h1) 0x1000 = n"
  "c_next (aba h n l0 l1 h0 h1) 0x2000 = 0"
  "c_pc (aba h n l0 l1 h0 h1) 0 = l0" "c_pc (aba h n l0 l1 h0 h1) 1 = l1"
  "c_held (aba h n l0 l1 h0 h1) 0 = h0" "c_held (aba h n l0 l1 h0 h1) 1 = h1"
  "at 0 l (aba h n l0 l1 h0 h1) = aba h n l l1 h0 h1"
  "at 1 l (aba h n l0 l1 h0 h1) = aba h n l0 l h0 h1"
  "(aba h n l0 l1 h0 h1)\<lparr>c_held := (c_held (aba h' n' m0 m1 h0 h1))(0 := xs)\<rparr> = aba h n l0 l1 xs h1"
  "(aba h n l0 l1 h0 h1)\<lparr>c_held := (c_held (aba h' n' m0 m1 h0 h1))(1 := xs)\<rparr> = aba h n l0 l1 h0 xs"
  "(aba h n l0 l1 h0 h1)\<lparr>c_next := (c_next (aba h' n' m0 m1 h0' h1'))(0x1000 := q)\<rparr> = aba h q l0 l1 h0 h1"
  "(aba h n l0 l1 h0 h1)\<lparr>c_head := q\<rparr> = aba q n l0 l1 h0 h1"
  by (auto simp: aba_def fun_eq_iff)

lemma reaches_steps:
  "reaches h n Idle l h0 h1 \<Longrightarrow> h \<noteq> 0 \<Longrightarrow> reaches h n (Pop_loaded h) l h0 h1"
  "reaches h n l Idle h0 h1 \<Longrightarrow> h \<noteq> 0 \<Longrightarrow> reaches h n l (Pop_loaded h) h0 h1"
  "reaches h n (Pop_loaded 0x1000) l h0 h1 \<Longrightarrow> reaches h n (Pop_next 0x1000 n) l h0 h1"
  "reaches h n l (Pop_loaded 0x1000) h0 h1 \<Longrightarrow> reaches h n l (Pop_next 0x1000 n) h0 h1"
  "reaches h n (Pop_loaded 0x2000) l h0 h1 \<Longrightarrow> reaches h n (Pop_next 0x2000 0) l h0 h1"
  "reaches h n l (Pop_loaded 0x2000) h0 h1 \<Longrightarrow> reaches h n l (Pop_next 0x2000 0) h0 h1"
  using cpool_reach.pop [OF _ pop_load [of "aba h n Idle l h0 h1" 0]]
    cpool_reach.pop [OF _ pop_load [of "aba h n l Idle h0 h1" 1]]
    cpool_reach.pop [OF _ pop_load_next [of "aba h n (Pop_loaded 0x1000) l h0 h1" 0 "0x1000"]]
    cpool_reach.pop [OF _ pop_load_next [of "aba h n l (Pop_loaded 0x1000) h0 h1" 1 "0x1000"]]
    cpool_reach.pop [OF _ pop_load_next [of "aba h n (Pop_loaded 0x2000) l h0 h1" 0 "0x2000"]]
    cpool_reach.pop [OF _ pop_load_next [of "aba h n l (Pop_loaded 0x2000) h0 h1" 1 "0x2000"]]
  unfolding aba_simps by blast+

lemma reaches_cas:
  "reaches h n (Pop_next h q) l h0 h1 \<Longrightarrow> reaches q n Idle l (h # h0) h1"
  "reaches h n l (Pop_next h q) h0 h1 \<Longrightarrow> reaches q n l Idle h0 (h # h1)"
  using cpool_reach.pop [OF _ pop_cas [of "aba h n (Pop_next h q) l h0 h1" 0 h q]]
    cpool_reach.pop [OF _ pop_cas [of "aba h n l (Pop_next h q) h0 h1" 1 h q]]
  unfolding aba_simps by blast+

lemma reaches_push:
  "reaches h n l Idle h0 h1 \<Longrightarrow> p \<in> set h1 \<Longrightarrow> reaches h n l (Push_start p) h0 (remove1 p h1)"
  "reaches h n l (Push_start p) h0 h1 \<Longrightarrow> reaches h n l (Push_loaded p h) h0 h1"
  "reaches h n l (Push_loaded 0x1000 e) h0 h1 \<Longrightarrow> reaches h e l (Push_stored 0x1000 e) h0 h1"
  "reaches h n l (Push_stored p h) h0 h1 \<Longrightarrow> reaches p n l Idle h0 h1"
  using cpool_reach.push [OF _ push_call [of "aba h n l Idle h0 h1" 1 p]]
    cpool_reach.push [OF _ push_load [of "aba h n l (Push_start p) h0 h1" 1 p]]
    cpool_reach.push [OF _ push_store [of "aba h n l (Push_loaded 0x1000 e) h0 h1" 1 "0x1000" e]]
    cpool_reach.push [OF _ push_cas [of "aba h n l (Push_stored p h) h0 h1" 1 p h]]
  unfolding aba_simps by blast+

text \<open>
  C35. The pop is exposed to ABA: from a list of two pages and two threads that hold nothing, an
  interleaving of \<open>allocate\<close> and \<open>deallocate\<close> reaches a state in which both threads hold the same
  page. Thread 0 reads the head and its successor; thread 1 takes both pages and returns the
  first; the exchange of thread 0 then succeeds and installs the page thread 1 still holds.\<close>

theorem aba_double_allocation:
  "\<exists>s. cpool_reach aba_start s \<and> 0x2000 \<in> set (c_held s 0) \<and> 0x2000 \<in> set (c_held s 1)"
proof -
  have "aba_start = aba 0x1000 0x2000 Idle Idle [] []"
    by (auto simp: aba_start_def aba_def fun_eq_iff)
  then have "reaches 0x1000 0x2000 Idle Idle [] []"
    by (metis cpool_reach.here)
  then have "reaches 0x1000 0x2000 (Pop_next 0x1000 0x2000) Idle [] []"
    by (rule reaches_steps(3) [OF reaches_steps(1)]) simp
  then have "reaches 0x2000 0x2000 (Pop_next 0x1000 0x2000) Idle [] [0x1000]"
    by (rule reaches_cas(2) [OF reaches_steps(4) [OF reaches_steps(2)]]) simp
  then have "reaches 0 0x2000 (Pop_next 0x1000 0x2000) Idle [] [0x2000, 0x1000]"
    by (rule reaches_cas(2) [OF reaches_steps(6) [OF reaches_steps(2)]]) simp
  then have "reaches 0 0x2000 (Pop_next 0x1000 0x2000) (Push_start 0x1000) [] [0x2000]"
    using reaches_push(1) [of 0 "0x2000" "Pop_next 0x1000 0x2000" "[]" "[0x2000, 0x1000]" "0x1000"] by simp
  then have "reaches 0x1000 0 (Pop_next 0x1000 0x2000) Idle [] [0x2000]"
    by (rule reaches_push(4) [OF reaches_push(3) [OF reaches_push(2)]])
  then have "reaches 0x2000 0 Idle Idle [0x1000] [0x2000]"
    by (rule reaches_cas(1))
  then have "reaches 0 0 Idle Idle [0x2000, 0x1000] [0x2000]"
    by (rule reaches_cas(1) [OF reaches_steps(5) [OF reaches_steps(1)]]) simp
  then show ?thesis by (intro exI conjI, assumption) (simp_all add: aba_def)
qed

end
