(* ===== verification/Entry_Print.thy ===== *)
theory Entry_Print
  imports Pte_Bits Module_Interface
begin

text \<open>
  Printing page-table entries (\<open>PTEditor/ptedit.c\<close>, \<open>ptedit_print_entry_line\<close> to
  \<open>ptedit_print_entry_t\<close>): the text the library writes to standard output, as a string.

  The \<open>printf\<close> conversions the code uses are \<open>%d\<close>, \<open>%2d\<close> and \<open>%16p\<close>. A pointer is printed as the
  GNU C library does, in lower-case hexadecimal with the prefix \<open>0x\<close>, or as \<open>(nil)\<close>.
\<close>

subsection \<open>Conversions of \<open>printf\<close>\<close>

definition digit_char :: "nat \<Rightarrow> char" where
  "digit_char d = (if d < 10 then char_of (48 + d) else char_of (87 + d))"

text \<open>The digits of a number in a base of at least two, most significant first; the first argument
  is the number of digits above the last one that may still follow.\<close>

fun digits :: "nat \<Rightarrow> nat \<Rightarrow> nat \<Rightarrow> string" where
  "digits 0 b n = [digit_char (n mod b)]"
| "digits (Suc k) b n = (if n < b then [digit_char n] else digits k b (n div b) @ [digit_char (n mod b)])"

definition pad :: "nat \<Rightarrow> string \<Rightarrow> string" where
  "pad w s = replicate (w - length s) CHR '' '' @ s"

text \<open>\<open>%d\<close> with a minimal width, for the non-negative values that occur, and \<open>%p\<close>.\<close>

definition fmt_d :: "nat \<Rightarrow> nat \<Rightarrow> string" where
  "fmt_d w n = pad w (digits 9 10 n)"

definition fmt_p :: "nat \<Rightarrow> u64 \<Rightarrow> string" where
  "fmt_p w p = pad w (if p = 0 then ''(nil)'' else ''0x'' @ digits 15 16 (unat p))"

subsection \<open>Lines\<close>

definition PTEDIT_COLOR_GREEN :: string where "PTEDIT_COLOR_GREEN = CHR 0x1B # ''[32m''"
definition PTEDIT_COLOR_RESET :: string where "PTEDIT_COLOR_RESET = CHR 0x1B # ''[0m''"

definition PTEDIT_B :: "u64 \<Rightarrow> nat \<Rightarrow> nat" where
  "PTEDIT_B val b = (if val AND push_bit b 1 \<noteq> 0 then 1 else 0)"

text \<open>\<open>(PTEDIT_B(entry, b1) << k) | \<dots> | PTEDIT_B(entry, bk)\<close>, most significant bit first.\<close>

definition bits_value :: "u64 \<Rightarrow> nat list \<Rightarrow> nat" where
  "bits_value entry bs = foldl (\<lambda>acc b. 2 * acc + PTEDIT_B entry b) 0 bs"

text \<open>The macro \<open>PEDIT_PRINT_B\<close>: the formatted value, green when it is not zero, and a bar. The
  format is given by what precedes the number, its width, and what follows it.\<close>

definition PEDIT_PRINT_B :: "string \<times> nat \<times> string \<Rightarrow> nat \<Rightarrow> string" where
  "PEDIT_PRINT_B = (\<lambda>(pre, w, post) v.
     (if v \<noteq> 0 then PTEDIT_COLOR_GREEN @ (pre @ fmt_d w v @ post) @ PTEDIT_COLOR_RESET
      else pre @ fmt_d w v @ post) @ ''|'')"

definition border :: "arch \<Rightarrow> string" where
  "border A = (case A of
     X86_64 \<Rightarrow> ''+--+------------------+-+-+-+-+-+-+-+-+--+--+-+-+-+''
   | AARCH64 \<Rightarrow> ''+--+--+--+---+-+--+------------------+--+-+-+-+--+---+-+'')"

definition heading :: "arch \<Rightarrow> string" where
  "heading A = (case A of
     X86_64 \<Rightarrow> ''|NX|       PFN        |H|?|?|?|G|S|D|A|UC|WT|U|W|P|''
   | AARCH64 \<Rightarrow> ''| ?| ?|XN|PXN|C| ?|        PFN       |NG|A|S|P|NS|MAI|T|'')"

text \<open>The cells of a row before and after the frame number: the format and the bits shown.\<close>

definition cells_left :: "arch \<Rightarrow> ((string \<times> nat \<times> string) \<times> nat list) list" where
  "cells_left A = (case A of
     X86_64 \<Rightarrow> [(('' '', 0, ''''), [bit_pos PTEDIT_PAGE_BIT_NX])]
   | AARCH64 \<Rightarrow>
       [(('''', 2, ''''), [63, 62, 61, 60, 59]), (('''', 2, ''''), [58, 57, 56, 55]),
        (('' '', 0, ''''), [54]), (('' '', 0, '' ''), [53]), (('''', 0, ''''), [52]),
        (('''', 2, ''''), [51, 50, 49, 48])])"

definition cells_right :: "arch \<Rightarrow> ((string \<times> nat \<times> string) \<times> nat list) list" where
  "cells_right A = (case A of
     X86_64 \<Rightarrow>
       [(('''', 0, ''''), [bit_pos PTEDIT_PAGE_BIT_PAT_LARGE]), (('''', 0, ''''), [bit_pos PTEDIT_PAGE_BIT_SOFTW3]),
        (('''', 0, ''''), [bit_pos PTEDIT_PAGE_BIT_SOFTW2]), (('''', 0, ''''), [bit_pos PTEDIT_PAGE_BIT_SOFTW1]),
        (('''', 0, ''''), [bit_pos PTEDIT_PAGE_BIT_GLOBAL]), (('''', 0, ''''), [bit_pos PTEDIT_PAGE_BIT_PSE]),
        (('''', 0, ''''), [bit_pos PTEDIT_PAGE_BIT_DIRTY]), (('''', 0, ''''), [bit_pos PTEDIT_PAGE_BIT_ACCESSED]),
        (('' '', 0, ''''), [bit_pos PTEDIT_PAGE_BIT_PCD]), (('' '', 0, ''''), [bit_pos PTEDIT_PAGE_BIT_PWT]),
        (('''', 0, ''''), [bit_pos PTEDIT_PAGE_BIT_USER]), (('''', 0, ''''), [bit_pos PTEDIT_PAGE_BIT_RW]),
        (('''', 0, ''''), [bit_pos PTEDIT_PAGE_BIT_PRESENT])]
   | AARCH64 \<Rightarrow>
       [(('' '', 0, ''''), [11]), (('''', 0, ''''), [10]), (('''', 0, ''''), [9, 8]),
        (('''', 0, ''''), [7, 6]), (('' '', 0, ''''), [5]), (('' '', 0, '' ''), [4, 3, 2]),
        (('''', 0, ''''), [1, 0])])"

definition print_cells :: "u64 \<Rightarrow> ((string \<times> nat \<times> string) \<times> nat list) list \<Rightarrow> string" where
  "print_cells entry cs = concat (map (\<lambda>(f, bs). PEDIT_PRINT_B f (bits_value entry bs)) cs)"

text \<open>\<open>(entry >> 12) & ((1ull << 40) - 1)\<close>, or 36 bits on AArch64.\<close>

definition printed_pfn :: "arch \<Rightarrow> u64 \<Rightarrow> u64" where
  "printed_pfn A entry = drop_bit 12 entry AND (push_bit (pfn_bits A) 1 - 1)"

definition row :: "arch \<Rightarrow> u64 \<Rightarrow> string" where
  "row A entry =
     ''|'' @ print_cells entry (cells_left A)
       @ '' '' @ fmt_p 16 (printed_pfn A entry) @ '' |''
       @ print_cells entry (cells_right A)"

definition ptedit_print_entry_line :: "arch \<Rightarrow> u64 \<Rightarrow> int \<Rightarrow> string" where
  "ptedit_print_entry_line A entry line =
     (if line = 0 \<or> line = 3 then border A @ [CHR 0x0A]
      else if line = 1 then heading A @ [CHR 0x0A]
      else if line = 2 then row A entry @ [CHR 0x0A]
      else [])"

definition ptedit_print_entry :: "arch \<Rightarrow> u64 \<Rightarrow> string" where
  "ptedit_print_entry A entry = concat (map (ptedit_print_entry_line A entry) [0..3])"

definition print_level :: "arch \<Rightarrow> ptedit_entry_t \<Rightarrow> u64 \<times> string \<times> u64 \<Rightarrow> string" where
  "print_level A entry = (\<lambda>(msk, name, e).
     if test_mask (e_valid entry) msk then name @ '' of address'' @ [CHR 0x0A] @ ptedit_print_entry A e
     else [])"

definition ptedit_print_entry_t :: "arch \<Rightarrow> ptedit_entry_t \<Rightarrow> string" where
  "ptedit_print_entry_t A entry = concat (map (print_level A entry)
     [(PTEDIT_VALID_MASK_PGD, ''PGD'', e_pgd entry), (PTEDIT_VALID_MASK_P4D, ''P4D'', e_p4d entry),
      (PTEDIT_VALID_MASK_PUD, ''PUD'', e_pud entry), (PTEDIT_VALID_MASK_PMD, ''PMD'', e_pmd entry),
      (PTEDIT_VALID_MASK_PTE, ''PTE'', e_pte entry)])"

subsection \<open>Numbers are printed faithfully\<close>

definition digit_val :: "char \<Rightarrow> nat" where
  "digit_val c = (if of_char c < (58::nat) then of_char c - 48 else of_char c - 87)"

definition digits_val :: "nat \<Rightarrow> string \<Rightarrow> nat" where
  "digits_val b s = foldl (\<lambda>acc c. acc * b + digit_val c) 0 s"

lemma digit_val_char [simp]: "d < 16 \<Longrightarrow> digit_val (digit_char d) = d"
  by (simp add: digit_val_def digit_char_def)

lemma digits_val_digits:
  assumes "2 \<le> b" "b \<le> 16" "n < b ^ Suc k"
  shows "digits_val b (digits k b n) = n"
  using assms(3)
proof (induction k arbitrary: n)
  case 0
  with assms(1,2) show ?case by (simp add: digits_val_def)
next
  case (Suc k)
  then have "n div b < b ^ Suc k" by (simp add: less_mult_imp_div_less mult.commute)
  moreover have "n mod b < 16" "n < b \<Longrightarrow> n < 16"
    using assms(1,2) by (auto intro: less_le_trans [OF mod_less_divisor])
  ultimately show ?case
    using Suc.IH [of "n div b"] by (simp add: digits_val_def div_mult_mod_eq)
qed

lemma digits_inj:
  "2 \<le> b \<Longrightarrow> b \<le> 16 \<Longrightarrow> n < b ^ Suc k \<Longrightarrow> m < b ^ Suc k \<Longrightarrow> digits k b n = digits k b m \<longleftrightarrow> n = m"
  by (metis digits_val_digits)

text \<open>No digit is a blank, a bar, the escape character or a parenthesis.\<close>

definition plain_char :: "char \<Rightarrow> bool" where
  "plain_char c \<longleftrightarrow> c \<notin> {CHR '' '', CHR ''|'', CHR 0x1B, CHR ''('', CHR ''+''}"

lemma of_char_digit_char: "d < 16 \<Longrightarrow> of_char (digit_char d) = (if d < 10 then 48 + d else 87 + d)"
  by (simp add: digit_char_def)

lemma digit_char_plain [simp]: "d < 16 \<Longrightarrow> plain_char (digit_char d)"
  using of_char_digit_char [of d]
  by (auto simp: plain_char_def split: if_splits dest: arg_cong [where f = "of_char :: _ \<Rightarrow> nat"])

lemma digits_plain: "2 \<le> b \<Longrightarrow> b \<le> 16 \<Longrightarrow> c \<in> set (digits k b n) \<Longrightarrow> plain_char c"
proof (induction k arbitrary: n)
  case 0
  then have "n mod b < 16" by (auto intro: less_le_trans [OF mod_less_divisor])
  with 0 show ?case by simp
next
  case (Suc k)
  then have "n mod b < 16" by (auto intro: less_le_trans [OF mod_less_divisor])
  with Suc show ?case by (auto split: if_splits)
qed

lemma length_digits: "2 \<le> b \<Longrightarrow> n < b ^ Suc j \<Longrightarrow> length (digits k b n) \<le> Suc j"
proof (induction k arbitrary: n j)
  case (Suc k)
  show ?case
  proof (cases "n < b")
    case False
    with Suc.prems obtain i where i: "j = Suc i" by (cases j) auto
    with Suc.prems have "n div b < b ^ Suc i" by (simp add: less_mult_imp_div_less mult.commute)
    from Suc.IH [OF Suc.prems(1) this] False i show ?thesis by simp
  qed simp
qed simp

lemma digits_not_empty [simp]: "digits k b n \<noteq> []"
  by (cases k) auto

lemma dropWhile_pad: "s \<noteq> [] \<Longrightarrow> hd s \<noteq> CHR '' '' \<Longrightarrow> dropWhile (\<lambda>c. c = CHR '' '') (pad w s) = s"
  unfolding pad_def by (subst dropWhile_append2) (auto simp: neq_Nil_conv)

lemma pad_inj:
  "s \<noteq> [] \<Longrightarrow> hd s \<noteq> CHR '' '' \<Longrightarrow> t \<noteq> [] \<Longrightarrow> hd t \<noteq> CHR '' '' \<Longrightarrow> pad w s = pad w t \<longleftrightarrow> s = t"
  by (metis dropWhile_pad)

lemma digits_hd: "2 \<le> b \<Longrightarrow> b \<le> 16 \<Longrightarrow> hd (digits k b n) \<noteq> CHR '' ''"
  using digits_plain [of b "hd (digits k b n)" k n] by (auto simp: plain_char_def)

lemma fmt_d_inj: "n < 10 ^ 10 \<Longrightarrow> m < 10 ^ 10 \<Longrightarrow> fmt_d w n = fmt_d w m \<longleftrightarrow> n = m"
  unfolding fmt_d_def by (subst pad_inj) (simp_all add: digits_hd digits_inj)

lemma fmt_p_inj: "fmt_p w p = fmt_p w q \<longleftrightarrow> p = q"
proof -
  have "unat (x::u64) < 16 ^ Suc 15" for x using unsigned_less [of x] by simp
  then show ?thesis
    unfolding fmt_p_def by (subst pad_inj) (auto simp: digits_inj word_unat_eq_iff)
qed

lemma set_pad: "set (pad w s) \<subseteq> insert (CHR '' '') (set s)"
  by (auto simp: pad_def)

lemma fmt_d_chars: "c \<in> set (fmt_d w n) \<Longrightarrow> c = CHR '' '' \<or> plain_char c"
  using set_pad [of w "digits 9 10 n"] digits_plain [of 10 c 9 n] by (auto simp: fmt_d_def)

lemma fmt_p_chars: "c \<in> set (fmt_p w p) \<Longrightarrow> c \<notin> {CHR ''|'', CHR 0x1B}"
  using set_pad [of w "if p = 0 then ''(nil)'' else ''0x'' @ digits 15 16 (unat p)"]
    digits_plain [of 16 c 15 "unat p"]
  by (auto simp: fmt_p_def plain_char_def split: if_splits)

lemma length_pad: "length s \<le> w \<Longrightarrow> length (pad w s) = w"
  by (simp add: pad_def)
subsection \<open>A row shows what the entry holds\<close>

lemma split_at_bar:
  "CHR ''|'' \<notin> set x \<Longrightarrow> CHR ''|'' \<notin> set y \<Longrightarrow>
   x @ CHR ''|'' # s = y @ CHR ''|'' # t \<longleftrightarrow> x = y \<and> s = t"
proof (induction x arbitrary: y)
  case Nil
  then show ?case by (cases y) auto
next
  case (Cons a x)
  then show ?case by (cases y) auto
qed

text \<open>The formats in use: blanks around a number.\<close>

definition plain_fmt :: "string \<times> nat \<times> string \<Rightarrow> bool" where
  "plain_fmt = (\<lambda>(pre, w, post). set pre \<union> set post \<subseteq> {CHR '' ''})"

definition cell_text :: "string \<times> nat \<times> string \<Rightarrow> nat \<Rightarrow> string" where
  "cell_text = (\<lambda>(pre, w, post) v. pre @ fmt_d w v @ post)"

lemma PEDIT_PRINT_B_eq:
  "PEDIT_PRINT_B f v =
     (if v \<noteq> 0 then PTEDIT_COLOR_GREEN @ cell_text f v @ PTEDIT_COLOR_RESET else cell_text f v) @ ''|''"
  by (cases f) (simp add: PEDIT_PRINT_B_def cell_text_def)

lemma cell_text_inj:
  "n < 10 ^ 10 \<Longrightarrow> m < 10 ^ 10 \<Longrightarrow> cell_text f n = cell_text f m \<longleftrightarrow> n = m"
  by (cases f) (simp add: cell_text_def fmt_d_inj)

lemma cell_text_chars:
  "plain_fmt f \<Longrightarrow> c \<in> set (cell_text f v) \<Longrightarrow> c \<notin> {CHR ''|'', CHR 0x1B, CHR ''+''}"
  by (cases f) (auto simp: cell_text_def plain_fmt_def plain_char_def dest: fmt_d_chars)

lemma cell_text_hd: "plain_fmt f \<Longrightarrow> cell_text f v \<noteq> CHR 0x1B # s"
  using cell_text_chars [of f "CHR 0x1B" v] by auto

lemma print_cell_inj:
  assumes "plain_fmt f" "n < 10 ^ 10" "m < 10 ^ 10"
  shows "PEDIT_PRINT_B f n @ s = PEDIT_PRINT_B f m @ t \<longleftrightarrow> n = m \<and> s = t"
proof -
  let ?body = "\<lambda>v. if v \<noteq> 0 then PTEDIT_COLOR_GREEN @ cell_text f v @ PTEDIT_COLOR_RESET else cell_text f v"
  have bar: "CHR ''|'' \<notin> set (?body v)" for v
    using cell_text_chars [OF assms(1), of "CHR ''|''" v]
    by (auto simp: PTEDIT_COLOR_GREEN_def PTEDIT_COLOR_RESET_def)
  have body: "?body n = ?body m \<longleftrightarrow> n = m"
    using cell_text_inj [OF assms(2,3), of f] cell_text_hd [OF assms(1)]
    by (auto simp: PTEDIT_COLOR_GREEN_def cell_text_hd [OF assms(1), symmetric])
  show ?thesis
    unfolding PEDIT_PRINT_B_eq using split_at_bar [OF bar bar, of n s m t] body by simp
qed

lemma PTEDIT_B_eq: "PTEDIT_B x b = of_bool (bit x b)"
  by (simp add: PTEDIT_B_def push_bit_eq_mult and_exp_eq_0_iff_not_bit)

lemma bits_value_snoc: "bits_value e (bs @ [b]) = 2 * bits_value e bs + of_bool (bit e b)"
  by (simp add: bits_value_def PTEDIT_B_eq)

lemma bits_value_eq_iff: "bits_value e bs = bits_value e' bs \<longleftrightarrow> (\<forall>b\<in>set bs. bit e b = bit e' b)"
proof (induction bs rule: rev_induct)
  case (snoc b bs)
  have "2 * x + of_bool P = 2 * y + of_bool Q \<longleftrightarrow> x = y \<and> P = Q" for x y :: nat and P Q
    by (cases P; cases Q) (simp_all, presburger+)
  with snoc show ?case by (auto simp: bits_value_snoc)
qed (simp add: bits_value_def)

lemma bits_value_less: "bits_value e bs < 2 ^ length bs"
proof (induction bs rule: rev_induct)
  case (snoc b bs)
  then show ?case by (cases "bit e b") (auto simp: bits_value_snoc)
qed (simp add: bits_value_def)

definition plain_cells :: "((string \<times> nat \<times> string) \<times> nat list) list \<Rightarrow> bool" where
  "plain_cells cs \<longleftrightarrow> (\<forall>(f, bs)\<in>set cs. plain_fmt f \<and> length bs \<le> 5)"

definition cells_bits :: "((string \<times> nat \<times> string) \<times> nat list) list \<Rightarrow> nat list" where
  "cells_bits cs = concat (map snd cs)"

lemma bits_value_small: "length bs \<le> 5 \<Longrightarrow> bits_value e bs < 32"
  using bits_value_less [of e bs] power_increasing [of "length bs" 5 "2::nat"] by simp

lemma print_cells_inj:
  "plain_cells cs \<Longrightarrow> print_cells e cs @ s = print_cells e' cs @ t \<longleftrightarrow>
   (\<forall>b\<in>set (cells_bits cs). bit e b = bit e' b) \<and> s = t"
proof (induction cs)
  case (Cons c cs)
  obtain f bs where c: "c = (f, bs)" by (cases c)
  with Cons.prems have f: "plain_fmt f" "length bs \<le> 5" and cs: "plain_cells cs"
    by (auto simp: plain_cells_def)
  have small: "bits_value x bs < 10 ^ 10" for x
    using bits_value_small [OF f(2), of x] by simp
  show ?case
    using print_cell_inj [OF f(1) small small, of e "print_cells e cs @ s" e' "print_cells e' cs @ t"]
      Cons.IH [OF cs]
    by (auto simp: print_cells_def cells_bits_def c bits_value_eq_iff)
qed (simp add: print_cells_def cells_bits_def)

lemma plain_cells [simp]: "plain_cells (cells_left A)" "plain_cells (cells_right A)"
  by (cases A; simp add: plain_cells_def cells_left_def cells_right_def plain_fmt_def)+

lemma bit_printed_pfn: "bit (printed_pfn A e) n \<longleftrightarrow> n < pfn_bits A \<and> bit e (12 + n)"
  by (auto simp: printed_pfn_def bit_and_iff bit_drop_bit_eq push_bit_eq_mult mask_eq_exp_minus_1 [symmetric]
      bit_mask_iff pfn_bits_def split: arch.splits)

lemma printed_pfn_eq_iff:
  "printed_pfn A e = printed_pfn A e' \<longleftrightarrow> (\<forall>n. 12 \<le> n \<longrightarrow> n < 12 + pfn_bits A \<longrightarrow> bit e n = bit e' n)"
proof -
  have "printed_pfn A e = printed_pfn A e' \<longleftrightarrow> (\<forall>n. n < pfn_bits A \<longrightarrow> bit e (12 + n) = bit e' (12 + n))"
    by (metis bit_printed_pfn bit_eqI)
  also have "\<dots> \<longleftrightarrow> (\<forall>n. 12 \<le> n \<longrightarrow> n < 12 + pfn_bits A \<longrightarrow> bit e n = bit e' n)"
    by (metis add_less_cancel_left le_add1 le_add_diff_inverse)
  finally show ?thesis .
qed

lemma row_eq_iff:
  "row A e = row A e' \<longleftrightarrow>
   (\<forall>b \<in> set (cells_bits (cells_left A)) \<union> set (cells_bits (cells_right A)). bit e b = bit e' b)
   \<and> printed_pfn A e = printed_pfn A e'"
proof -
  let ?rest = "\<lambda>e. '' '' @ fmt_p 16 (printed_pfn A e) @ '' |'' @ print_cells e (cells_right A)"
  have bar: "CHR ''|'' \<notin> set ('' '' @ fmt_p 16 p @ '' '')" for p
    using fmt_p_chars [of "CHR ''|''" 16 p] by auto
  have "?rest e = ?rest e' \<longleftrightarrow> printed_pfn A e = printed_pfn A e'
      \<and> print_cells e (cells_right A) = print_cells e' (cells_right A)"
    using split_at_bar [OF bar bar, of "printed_pfn A e" "print_cells e (cells_right A)"
        "printed_pfn A e'" "print_cells e' (cells_right A)"]
    by (simp add: fmt_p_inj)
  then show ?thesis
    using print_cells_inj [of "cells_left A" e "?rest e" e' "?rest e'"]
      print_cells_inj [of "cells_right A" e "[]" e' "[]"]
    by (auto simp: row_def)
qed

lemma print_entry_eq_iff: "ptedit_print_entry A e = ptedit_print_entry A e' \<longleftrightarrow> row A e = row A e'"
  by (simp add: ptedit_print_entry_def ptedit_print_entry_line_def upto.simps)

lemma shown_bits_x86:
  "n \<in> set (cells_bits (cells_left X86_64)) \<union> set (cells_bits (cells_right X86_64))
     \<or> 12 \<le> n \<and> n < 12 + pfn_bits X86_64 \<longleftrightarrow> n < 52 \<or> n = 63"
  by (simp add: cells_bits_def cells_left_def cells_right_def pfn_bits_def) presburger

lemma shown_bits_arm:
  "n \<in> set (cells_bits (cells_left AARCH64)) \<union> set (cells_bits (cells_right AARCH64))
     \<or> 12 \<le> n \<and> n < 12 + pfn_bits AARCH64 \<longleftrightarrow> n < 64"
  by (simp add: cells_bits_def cells_left_def cells_right_def pfn_bits_def) presburger

lemma row_shows:
  "row A e = row A e' \<longleftrightarrow> (\<forall>n. n \<in> set (cells_bits (cells_left A)) \<union> set (cells_bits (cells_right A))
     \<or> 12 \<le> n \<and> n < 12 + pfn_bits A \<longrightarrow> bit e n = bit e' n)"
  unfolding row_eq_iff printed_pfn_eq_iff by blast

lemma and_mask_eq_iff: "(x AND m :: u64) = y AND m \<longleftrightarrow> (\<forall>n. bit m n \<longrightarrow> bit x n = bit y n)"
proof
  assume eq: "x AND m = y AND m"
  show "\<forall>n. bit m n \<longrightarrow> bit x n = bit y n"
  proof (intro allI impI)
    fix n assume "bit m n"
    moreover have "bit (x AND m) n = bit (y AND m) n" by (simp only: eq)
    ultimately show "bit x n = bit y n" by (simp add: bit_and_iff)
  qed
qed (rule bit_eqI, auto simp: bit_and_iff)

text \<open>
  C39. What \<open>ptedit_print_entry\<close> prints determines the entry: on AArch64 two entries with the same
  printout are equal; on x86-64 they agree on every bit but 52 to 62, which the table leaves out
  (among them the protection key).\<close>

theorem print_entry_determines:
  "(ptedit_print_entry AARCH64 e = ptedit_print_entry AARCH64 e' \<longleftrightarrow> e = e')
   \<and> (ptedit_print_entry X86_64 e = ptedit_print_entry X86_64 e' \<longleftrightarrow>
        e AND 0x800fffffffffffff = e' AND 0x800fffffffffffff)"
proof -
  have m: "bit (0x800fffffffffffff :: u64) n \<longleftrightarrow> n < 52 \<or> n = 63" for n
  proof -
    have "(0x800fffffffffffff :: u64) = mask 52 OR push_bit 63 1" by (simp add: mask_eq_exp_minus_1)
    then show ?thesis by (simp only: bit_or_iff bit_mask_iff bit_push_bit_one) auto
  qed
  have "e AND 0x800fffffffffffff = e' AND 0x800fffffffffffff \<longleftrightarrow>
      (\<forall>n. n < 52 \<or> n = 63 \<longrightarrow> bit e n = bit e' n)"
    by (simp only: and_mask_eq_iff m)
  moreover have "e = e' \<longleftrightarrow> (\<forall>n. n < 64 \<longrightarrow> bit e n = bit e' n)" by (simp add: bit_eq_iff)
  ultimately show ?thesis
    by (simp only: print_entry_eq_iff row_shows shown_bits_x86 shown_bits_arm)
qed

subsection \<open>The table is aligned\<close>

text \<open>The text without the escape sequences that select a colour: from the escape character to the
  letter \<open>m\<close>.\<close>

primrec visible :: "bool \<Rightarrow> string \<Rightarrow> string" where
  "visible esc [] = []"
| "visible esc (c # cs) =
     (if esc then visible (c \<noteq> CHR ''m'') cs
      else if c = CHR 0x1B then visible True cs else c # visible False cs)"

lemma visible_append: "CHR 0x1B \<notin> set x \<Longrightarrow> visible False (x @ s) = x @ visible False s"
  by (induction x) auto

lemma visible_colors:
  "visible False (PTEDIT_COLOR_GREEN @ s) = visible False s"
  "visible False (PTEDIT_COLOR_RESET @ s) = visible False s"
  by (simp_all add: PTEDIT_COLOR_GREEN_def PTEDIT_COLOR_RESET_def)

lemma visible_cell:
  assumes "plain_fmt f"
  shows "visible False (PEDIT_PRINT_B f v @ s) = cell_text f v @ ''|'' @ visible False s"
proof -
  have esc: "CHR 0x1B \<notin> set (cell_text f v)"
    using cell_text_chars [OF assms, of "CHR 0x1B" v] by blast
  show ?thesis
    using visible_append [OF esc] by (cases "v = 0") (simp_all add: PEDIT_PRINT_B_eq visible_colors)
qed

definition cell_width :: "string \<times> nat \<times> string \<Rightarrow> nat" where
  "cell_width = (\<lambda>(pre, w, post). length pre + max w 1 + length post)"

lemma length_fmt_d: "n < 10 ^ Suc (w - 1) \<Longrightarrow> length (fmt_d w n) = max w 1"
  using length_digits [of 10 n "w - 1" 9] digits_not_empty [of 9 10 n]
  by (cases w) (auto simp: fmt_d_def pad_def le_Suc_eq)

lemma length_cell_text:
  "v < 10 ^ Suc (fst (snd f) - 1) \<Longrightarrow> length (cell_text f v) = cell_width f"
  by (cases f) (simp add: cell_text_def cell_width_def length_fmt_d)

lemma bars_plain:
  "CHR ''|'' \<notin> set x \<Longrightarrow> map (\<lambda>c. c = CHR ''|'') x = replicate (length x) False"
  by (induction x) auto

lemma bars_text:
  "CHR ''|'' \<notin> set x \<Longrightarrow> CHR 0x1B \<notin> set x \<Longrightarrow>
   map (\<lambda>c. c = CHR ''|'') (visible False (x @ s)) =
   replicate (length x) False @ map (\<lambda>c. c = CHR ''|'') (visible False s)"
  by (simp add: visible_append bars_plain)

text \<open>Where the bars are in a list of cells: each cell is as wide as its format says.\<close>

definition fitting_cells :: "((string \<times> nat \<times> string) \<times> nat list) list \<Rightarrow> bool" where
  "fitting_cells cs \<longleftrightarrow> (\<forall>(f, bs)\<in>set cs. 2 ^ length bs \<le> (10::nat) ^ Suc (fst (snd f) - 1))"

definition cells_bars :: "((string \<times> nat \<times> string) \<times> nat list) list \<Rightarrow> bool list" where
  "cells_bars cs = concat (map (\<lambda>(f, bs). replicate (cell_width f) False @ [True]) cs)"

lemma bars_cells:
  "plain_cells cs \<Longrightarrow> fitting_cells cs \<Longrightarrow>
   map (\<lambda>c. c = CHR ''|'') (visible False (print_cells e cs @ s)) =
   cells_bars cs @ map (\<lambda>c. c = CHR ''|'') (visible False s)"
proof (induction cs)
  case (Cons c cs)
  obtain f bs where c: "c = (f, bs)" by (cases c)
  with Cons.prems have f: "plain_fmt f" and cs: "plain_cells cs" "fitting_cells cs"
    and fit: "2 ^ length bs \<le> (10::nat) ^ Suc (fst (snd f) - 1)"
    by (auto simp: plain_cells_def fitting_cells_def)
  have "CHR ''|'' \<notin> set (cell_text f (bits_value e bs))"
    using cell_text_chars [OF f, of "CHR ''|''" "bits_value e bs"] by blast
  then have "map (\<lambda>c. c = CHR ''|'') (cell_text f (bits_value e bs)) = replicate (cell_width f) False"
    using length_cell_text [of "bits_value e bs" f] bits_value_less [of e bs] fit
    by (simp add: bars_plain)
  with Cons.IH [OF cs] show ?case
    by (simp add: print_cells_def cells_bars_def c visible_cell [OF f])
qed (simp add: print_cells_def cells_bars_def)

lemma fitting_cells [simp]: "fitting_cells (cells_left A)" "fitting_cells (cells_right A)"
  by (cases A; simp add: fitting_cells_def cells_left_def cells_right_def)+

lemma length_fmt_p_pfn: "length (fmt_p 16 (printed_pfn A e)) = 16"
proof -
  have "unat (printed_pfn A e) < 2 ^ 40"
  proof -
    have "printed_pfn A e = take_bit 40 (printed_pfn A e)"
      by (rule bit_eqI) (auto simp: bit_take_bit_iff bit_printed_pfn pfn_bits_def split: arch.splits)
    then show ?thesis by (metis unsigned_take_bit_eq take_bit_nat_less_exp)
  qed
  then have "length (digits 15 16 (unat (printed_pfn A e))) \<le> Suc 9"
    by (intro length_digits) simp_all
  then show ?thesis by (simp add: fmt_p_def length_pad)
qed

text \<open>
  The printed table is aligned: without the colour codes, the bars of the heading and of the row
  of any entry stand exactly where the border line has its crosses, on both architectures.\<close>

lemma print_rows_aligned:
  "map (\<lambda>c. c = CHR ''|'') (visible False (row A entry)) = map (\<lambda>c. c = CHR ''+'') (border A)
   \<and> map (\<lambda>c. c = CHR ''|'') (heading A) = map (\<lambda>c. c = CHR ''+'') (border A)"
proof
  let ?pfn = "'' '' @ fmt_p 16 (printed_pfn A entry) @ '' ''"
  have "CHR ''|'' \<notin> set ?pfn" "CHR 0x1B \<notin> set ?pfn"
    using fmt_p_chars [of _ 16 "printed_pfn A entry"] by auto
  note pfn = bars_text [OF this]
  have "map (\<lambda>c. c = CHR ''|'') (visible False (?pfn @ s)) =
      replicate 18 False @ map (\<lambda>c. c = CHR ''|'') (visible False s)" for s
    using pfn [of s] by (simp add: length_fmt_p_pfn)
  from this [of "''|'' @ print_cells entry (cells_right A)"]
  have "map (\<lambda>c. c = CHR ''|'') (visible False (row A entry)) =
      [True] @ cells_bars (cells_left A) @ replicate 18 False @ [True] @ cells_bars (cells_right A)"
    using bars_cells [of "cells_right A" entry "[]"] by (simp add: row_def bars_cells)
  also have "\<dots> = map (\<lambda>c. c = CHR ''+'') (border A)"
    by (cases A) (simp_all add: border_def cells_bars_def cells_left_def cells_right_def cell_width_def
        numeral_eq_Suc)
  finally show "map (\<lambda>c. c = CHR ''|'') (visible False (row A entry)) = map (\<lambda>c. c = CHR ''+'') (border A)" .
  show "map (\<lambda>c. c = CHR ''|'') (heading A) = map (\<lambda>c. c = CHR ''+'') (border A)"
    by (cases A) (simp_all add: heading_def border_def)
qed

end
