(* ===== verification/Win_Driver.thy ===== *)
theory Win_Driver
  imports Page_Walk
begin

text \<open>
  The Windows driver (\<open>PTEditor/driver/PTEdit/Driver.c\<close>) and the branches of the library
  (\<open>PTEditor/ptedit.c\<close>) that talk to it.

  The Windows kernel is the record \<open>nt\<close>, an argument of every definition; what is used of its
  documentation are the assumptions of the locale \<open>nt_kernel\<close>. The calls of \<open>DbgPrint\<close> only write
  to the debugger and are left out. A result \<open>None\<close> of the dispatch routine is an access outside
  the system buffer.
\<close>

subsection \<open>The kernel, a parameter\<close>

type_synonym eprocess = nat

text \<open>
  \<open>nt_phys_of\<close> is the physical address behind a kernel virtual address, \<open>nt_copied\<close> the number of
  bytes \<open>MmCopyMemory\<close> transfers from a physical range, \<open>nt_attach\<close> and \<open>nt_detach\<close> the value of
  CR3 after \<open>KeStackAttachProcess\<close> and, given the value before it, after \<open>KeUnstackDetachProcess\<close>.
  \<open>nt_pool\<close> is what a new system buffer holds beyond the caller's input.
\<close>

record nt =
  nt_lookup :: "u64 \<Rightarrow> eprocess option"
  nt_current_pid :: u64
  nt_virt_for_phys :: "u64 \<Rightarrow> u64"
  nt_phys_of :: "u64 \<Rightarrow> u64"
  nt_copied :: "u64 \<Rightarrow> nat \<Rightarrow> nat"
  nt_attach :: "eprocess \<Rightarrow> u64 \<Rightarrow> u64"
  nt_detach :: "u64 \<Rightarrow> u64 \<Rightarrow> u64"
  nt_ncpus :: nat
  nt_this_cpu :: nat
  nt_pool :: "nat \<Rightarrow> u8"
  nt_create_device :: int
  nt_create_link :: int

text \<open>Physical memory, CR3 of the executing CPU, the PAT register of every CPU, the \<open>invlpg\<close>
  instructions executed (CPU and address), and the references held on process objects.\<close>

record wstate =
  w_phys :: mem
  w_cr3 :: u64
  w_pat :: "nat \<Rightarrow> u64"
  w_invlpg :: "(nat \<times> u64) list"
  w_refs :: "eprocess \<Rightarrow> nat"

subsection \<open>The driver\<close>

datatype handler = H_unset | H_pass_thru | H_device_ctl

record driver =
  d_unload :: bool
  d_major :: "handler list"
  d_device :: bool
  d_link :: bool

definition IRP_MJ_CREATE :: nat where "IRP_MJ_CREATE = 0x00"
definition IRP_MJ_CLOSE :: nat where "IRP_MJ_CLOSE = 0x02"
definition IRP_MJ_DEVICE_CONTROL :: nat where "IRP_MJ_DEVICE_CONTROL = 0x0e"
definition IRP_MJ_CLEANUP :: nat where "IRP_MJ_CLEANUP = 0x12"
definition IRP_MJ_MAXIMUM_FUNCTION :: nat where "IRP_MJ_MAXIMUM_FUNCTION = 0x1b"

definition STATUS_SUCCESS :: int where "STATUS_SUCCESS = 0"
definition STATUS_INVALID_PARAMETER :: int where "STATUS_INVALID_PARAMETER = 0xC000000D - 2 ^ 32"

definition Unload :: "driver \<Rightarrow> driver" where
  "Unload d = d\<lparr>d_link := False, d_device := False\<rparr>"

fun set_major :: "nat \<Rightarrow> handler list \<Rightarrow> handler list" where
  "set_major 0 hs = hs"
| "set_major (Suc i) hs = (set_major i hs)[i := H_pass_thru]"

definition DriverEntry :: "nt \<Rightarrow> driver \<Rightarrow> int \<times> driver" where
  "DriverEntry N d0 =
     (let d = d0\<lparr>d_unload := True\<rparr> in
      if nt_create_device N < 0 then (nt_create_device N, d)
      else let d1 = d\<lparr>d_device := True\<rparr> in
      if nt_create_link N < 0 then (nt_create_link N, d1\<lparr>d_device := False\<rparr>)
      else let hs = set_major IRP_MJ_MAXIMUM_FUNCTION (d_major d1)
           in (nt_create_link N,
               d1\<lparr>d_link := True, d_major := hs[IRP_MJ_DEVICE_CONTROL := H_device_ctl]\<rparr>))"

definition DispatchPassThru :: "nat \<Rightarrow> int" where
  "DispatchPassThru major =
     (if major = IRP_MJ_CREATE \<or> major = IRP_MJ_CLOSE \<or> major = IRP_MJ_CLEANUP then STATUS_SUCCESS
      else STATUS_INVALID_PARAMETER)"

datatype win_ctl =
    WIN_WRITE_PAGE | WIN_READ_PAGE | WIN_GET_CR3 | WIN_SET_CR3 | WIN_FLUSH_TLB
  | WIN_READ_PHYS_VAL | WIN_WRITE_PHYS_VAL | WIN_GET_PAT | WIN_SET_PAT | WIN_OTHER

text \<open>The system buffer: \<open>*((SIZE_T*)(buffer + off))\<close> as a read and as a store.\<close>

definition word_of_bytes :: "u8 list \<Rightarrow> u64" where
  "word_of_bytes bs = word_rcat (rev bs)"

definition bytes_of_word :: "u64 \<Rightarrow> u8 list" where
  "bytes_of_word v = map (\<lambda>i. ucast (drop_bit (8 * i) v)) [0..<8]"

definition buf_get :: "u8 list \<Rightarrow> nat \<Rightarrow> u64 option" where
  "buf_get buf off = (if off + 8 \<le> length buf then Some (word_of_bytes (take 8 (drop off buf))) else None)"

text \<open>Copying bytes to the start of the buffer.\<close>

definition buf_put :: "u8 list \<Rightarrow> u8 list \<Rightarrow> u8 list option" where
  "buf_put buf bs = (if length bs \<le> length buf then Some (bs @ drop (length bs) buf) else None)"

text \<open>Storing bytes at a kernel virtual address.\<close>

fun nt_write :: "nt \<Rightarrow> u64 \<Rightarrow> u8 list \<Rightarrow> mem \<Rightarrow> mem" where
  "nt_write N va [] m = m"
| "nt_write N va (b # bs) m = nt_write N (va + 1) bs (m(nt_phys_of N va := b))"

text \<open>\<open>invalidate_tlb\<close> and \<open>set_pat\<close>, run on every CPU by \<open>KeIpiGenericCall\<close>.\<close>

definition win_invalidate_tlb :: "nat \<Rightarrow> u64 \<Rightarrow> wstate \<Rightarrow> wstate" where
  "win_invalidate_tlb cpu addr w = w\<lparr>w_invlpg := w_invlpg w @ [(cpu, addr)]\<rparr>"

definition win_set_pat :: "nat \<Rightarrow> u64 \<Rightarrow> wstate \<Rightarrow> wstate" where
  "win_set_pat cpu pat w = w\<lparr>w_pat := (w_pat w)(cpu := pat)\<rparr>"

definition KeIpiGenericCall :: "nt \<Rightarrow> (nat \<Rightarrow> u64 \<Rightarrow> wstate \<Rightarrow> wstate) \<Rightarrow> u64 \<Rightarrow> wstate \<Rightarrow> wstate" where
  "KeIpiGenericCall N f arg w = fold (\<lambda>cpu. f cpu arg) [0..<nt_ncpus N] w"

text \<open>\<open>PsLookupProcessByProcessId\<close> takes a reference on the process it returns.\<close>

definition PsLookup :: "nt \<Rightarrow> u64 \<Rightarrow> wstate \<Rightarrow> eprocess option \<times> wstate" where
  "PsLookup N pid w =
     (case nt_lookup N pid of
        None \<Rightarrow> (None, w)
      | Some p \<Rightarrow> (Some p, w\<lparr>w_refs := (w_refs w)(p := w_refs w p + 1)\<rparr>))"

definition flush_tlb :: "nt \<Rightarrow> u8 list \<Rightarrow> wstate \<Rightarrow> (nat \<times> u8 list \<times> wstate) option" where
  "flush_tlb N buf w =
     do { addr \<leftarrow> buf_get buf 0; Some (0, buf, KeIpiGenericCall N win_invalidate_tlb addr w) }"

text \<open>The number of bytes returned, the buffer and the state. \<open>SET_CR3\<close> runs on into \<open>FLUSH_TLB\<close>:
  its case has no \<open>break\<close>.\<close>

fun dispatch_ctl :: "nt \<Rightarrow> win_ctl \<Rightarrow> u8 list \<Rightarrow> wstate \<Rightarrow> (nat \<times> u8 list \<times> wstate) option" where
  "dispatch_ctl N WIN_WRITE_PAGE buf w =
     do {
       paddr \<leftarrow> buf_get buf 4096;
       let vaddr = nt_virt_for_phys N paddr;
       Some (0, buf, if vaddr \<noteq> 0 then w\<lparr>w_phys := nt_write N vaddr (take 4096 buf) (w_phys w)\<rparr> else w)
     }"
| "dispatch_ctl N WIN_READ_PAGE buf w =
     do {
       paddr \<leftarrow> buf_get buf 0;
       buf' \<leftarrow> buf_put buf (read_bytes (w_phys w) paddr (nt_copied N paddr 4096));
       Some (4096, buf', w)
     }"
| "dispatch_ctl N WIN_GET_CR3 buf w =
     do {
       pid \<leftarrow> buf_get buf 0;
       let (process, w1) = PsLookup N pid w;
       (cr3, w2) \<leftarrow> (case process of
          Some p \<Rightarrow> let cr3 = nt_attach N p (w_cr3 w1) in Some (cr3, w1\<lparr>w_cr3 := nt_detach N (w_cr3 w1) cr3\<rparr>)
        | None \<Rightarrow> Some (0, w1));
       buf' \<leftarrow> buf_put buf (bytes_of_word cr3);
       Some (8, buf', w2)
     }"
| "dispatch_ctl N WIN_SET_CR3 buf w =
     do {
       pid \<leftarrow> buf_get buf 0;
       let (process, w1) = PsLookup N pid w;
       w2 \<leftarrow> (case process of
          Some p \<Rightarrow> do { root \<leftarrow> buf_get buf 8; Some (w1\<lparr>w_cr3 := nt_detach N (w_cr3 w1) root\<rparr>) }
        | None \<Rightarrow> Some w1);
       flush_tlb N buf w2
     }"
| "dispatch_ctl N WIN_FLUSH_TLB buf w = flush_tlb N buf w"
| "dispatch_ctl N WIN_READ_PHYS_VAL buf w =
     do {
       paddr \<leftarrow> buf_get buf 0;
       buf' \<leftarrow> buf_put buf (read_bytes (w_phys w) paddr (nt_copied N paddr 8));
       Some (8, buf', w)
     }"
| "dispatch_ctl N WIN_WRITE_PHYS_VAL buf w =
     do {
       val \<leftarrow> buf_get buf 8;
       paddr \<leftarrow> buf_get buf 0;
       let vaddr = nt_virt_for_phys N paddr;
       Some (0, buf, if vaddr \<noteq> 0 then w\<lparr>w_phys := nt_write N vaddr (bytes_of_word val) (w_phys w)\<rparr> else w)
     }"
| "dispatch_ctl N WIN_GET_PAT buf w =
     do { buf' \<leftarrow> buf_put buf (bytes_of_word (w_pat w (nt_this_cpu N))); Some (8, buf', w) }"
| "dispatch_ctl N WIN_SET_PAT buf w =
     do { pat \<leftarrow> buf_get buf 0; Some (0, buf, KeIpiGenericCall N win_set_pat pat w) }"
| "dispatch_ctl N WIN_OTHER buf w = Some (0, buf, w)"

definition DispatchDeviceCtl :: "nt \<Rightarrow> win_ctl \<Rightarrow> u8 list \<Rightarrow> wstate \<Rightarrow> (int \<times> nat \<times> u8 list \<times> wstate) option" where
  "DispatchDeviceCtl N c buf w =
     map_option (Pair (if c = WIN_OTHER then STATUS_INVALID_PARAMETER else STATUS_SUCCESS)) (dispatch_ctl N c buf w)"

subsection \<open>The library on Windows\<close>

text \<open>\<open>DeviceIoControl\<close> with buffered transfer: the system buffer is as long as the longer of the
  two buffers and starts with the input; as many bytes as the driver returned are copied back.\<close>

definition system_buffer :: "nt \<Rightarrow> u8 list \<Rightarrow> u8 list \<Rightarrow> u8 list" where
  "system_buffer N inb outb = inb @ map (nt_pool N) [length inb..<max (length inb) (length outb)]"

definition DeviceIoControl :: "nt \<Rightarrow> win_ctl \<Rightarrow> u8 list \<Rightarrow> u8 list \<Rightarrow> wstate \<Rightarrow> (u8 list \<times> wstate) option" where
  "DeviceIoControl N c inb outb w =
     do {
       (status, n, buf, w') \<leftarrow> DispatchDeviceCtl N c (system_buffer N inb outb) w;
       let k = min n (length outb);
       Some (if status < 0 then outb else take k buf @ drop k outb, w')
     }"

definition win_phys_read :: "nt \<Rightarrow> u64 \<Rightarrow> wstate \<Rightarrow> (u64 \<times> wstate) option" where
  "win_phys_read N addr w =
     map_option (\<lambda>(val, w'). (word_of_bytes val, w'))
       (DeviceIoControl N WIN_READ_PHYS_VAL (bytes_of_word addr) (bytes_of_word 0) w)"

definition win_phys_write :: "nt \<Rightarrow> u64 \<Rightarrow> u64 \<Rightarrow> wstate \<Rightarrow> wstate option" where
  "win_phys_write N addr val w =
     (let info = bytes_of_word addr @ bytes_of_word val
      in map_option snd (DeviceIoControl N WIN_WRITE_PHYS_VAL info info w))"

definition win_read_physical_page :: "nt \<Rightarrow> u64 \<Rightarrow> u64 \<Rightarrow> u8 list \<Rightarrow> wstate \<Rightarrow> (u8 list \<times> wstate) option" where
  "win_read_physical_page N pagesize pfn buffer w =
     map_option (\<lambda>(out, w'). (out @ drop 4096 buffer, w'))
       (DeviceIoControl N WIN_READ_PAGE (bytes_of_word (pfn * pagesize)) (take 4096 buffer) w)"

definition win_write_physical_page :: "nt \<Rightarrow> u64 \<Rightarrow> u64 \<Rightarrow> u8 list \<Rightarrow> wstate \<Rightarrow> wstate option" where
  "win_write_physical_page N pagesize pfn content w =
     (if pagesize \<noteq> 4096 then Some w
      else let page = take 4096 content @ bytes_of_word (pfn * pagesize)
           in map_option snd (DeviceIoControl N WIN_WRITE_PAGE page page w))"

definition win_get_paging_root :: "nt \<Rightarrow> u64 \<Rightarrow> wstate \<Rightarrow> (u64 \<times> wstate) option" where
  "win_get_paging_root N pid w =
     (let pid' = (if pid = 0 then nt_current_pid N else pid)
      in map_option (\<lambda>(cr3, w'). (word_of_bytes cr3 AND NOT 0xfff, w'))
           (DeviceIoControl N WIN_GET_CR3 (bytes_of_word pid') (bytes_of_word 0) w))"

definition win_set_paging_root :: "nt \<Rightarrow> u64 \<Rightarrow> u64 \<Rightarrow> wstate \<Rightarrow> wstate option" where
  "win_set_paging_root N pid root w =
     (let pid' = (if pid = 0 then nt_current_pid N else pid);
          info = bytes_of_word pid' @ bytes_of_word root
      in map_option snd (DeviceIoControl N WIN_SET_CR3 info info w))"

definition win_invalidate :: "nt \<Rightarrow> u64 \<Rightarrow> wstate \<Rightarrow> wstate option" where
  "win_invalidate N addr w =
     map_option snd (DeviceIoControl N WIN_FLUSH_TLB (bytes_of_word addr) (bytes_of_word addr) w)"

definition win_get_mts :: "nt \<Rightarrow> wstate \<Rightarrow> (u64 \<times> wstate) option" where
  "win_get_mts N w =
     map_option (\<lambda>(mt, w'). (word_of_bytes mt, w'))
       (DeviceIoControl N WIN_GET_PAT (bytes_of_word 0) (bytes_of_word 0) w)"

text \<open>The code passes the command \<open>GET_PAT\<close> here.\<close>

definition win_set_mts :: "nt \<Rightarrow> u64 \<Rightarrow> wstate \<Rightarrow> wstate option" where
  "win_set_mts N mts w =
     map_option snd (DeviceIoControl N WIN_GET_PAT (bytes_of_word mts) (bytes_of_word mts) w)"

text \<open>The walk and the update of the library with these accessors: the same code as on Linux
  (\<open>walk_tables\<close> and \<open>write_tables\<close>), with the process's own root taken from the driver.\<close>

definition win_deref :: "nt \<Rightarrow> wstate \<Rightarrow> mem \<Rightarrow> u64 \<Rightarrow> u64 option" where
  "win_deref N w m a = map_option fst (win_phys_read N a (w\<lparr>w_phys := m\<rparr>))"

definition win_pset :: "nt \<Rightarrow> wstate \<Rightarrow> u64 \<Rightarrow> u64 \<Rightarrow> mem \<Rightarrow> mem option" where
  "win_pset N w a v m = map_option w_phys (win_phys_write N a v (w\<lparr>w_phys := m\<rparr>))"

definition win_walk_root :: "nt \<Rightarrow> lib \<Rightarrow> u64 \<Rightarrow> wstate \<Rightarrow> (u64 \<times> wstate) option" where
  "win_walk_root N L pid w =
     (if pid = 0 then Some (ptedit_paging_root L AND NOT 1, w)
      else map_option (\<lambda>(root, w'). (root AND NOT 1, w')) (win_get_paging_root N pid w))"

definition win_resolve :: "nt \<Rightarrow> lib \<Rightarrow> u64 \<Rightarrow> u64 \<Rightarrow> wstate \<Rightarrow> (ptedit_entry_t \<times> wstate) option" where
  "win_resolve N L addr pid w =
     do {
       (root, w1) \<leftarrow> win_walk_root N L pid w;
       if root = 0 then Some (empty_entry addr pid, w1)
       else do {
         e \<leftarrow> walk_tables X86_64 L (win_deref N w1 (w_phys w1)) addr root (empty_entry addr pid);
         Some (e, w1)
       }
     }"

definition win_update :: "nt \<Rightarrow> lib \<Rightarrow> u64 \<Rightarrow> u64 \<Rightarrow> ptedit_entry_t \<Rightarrow> wstate \<Rightarrow> wstate option" where
  "win_update N L addr pid vm w =
     do {
       (current, w1) \<leftarrow> win_resolve N L addr pid w;
       (root, w2) \<leftarrow> win_walk_root N L pid w1;
       w3 \<leftarrow> (if root = 0 then Some w2
              else do {
                m \<leftarrow> write_tables X86_64 L (win_pset N w2) addr root vm current (w_phys w2);
                win_invalidate N addr (w2\<lparr>w_phys := m\<rparr>)
              });
       win_invalidate N addr w3
     }"

subsection \<open>Buffers\<close>

lemma length_bytes_of_word [simp]: "length (bytes_of_word v) = 8"
  by (simp add: bytes_of_word_def)

lemma word_of_bytes_of_word [simp]: "word_of_bytes (bytes_of_word v) = v"
proof -
  have "read_bytes (write_bytes (\<lambda>_. 0) 0 (bytes_of_word v)) 0 (length (bytes_of_word v)) = bytes_of_word v"
    by (rule read_write_bytes_same) simp
  then have "word_of_bytes (bytes_of_word v) = load64 (store64 (\<lambda>_. 0) 0 v) 0"
    by (simp add: word_of_bytes_def load64_def store64_def bytes_of_word_def [symmetric])
  then show ?thesis by (simp add: load64_store64_same)
qed

lemma word_of_read_bytes [simp]: "word_of_bytes (read_bytes m a 8) = load64 m a"
  by (simp add: word_of_bytes_def load64_def)

lemma write_bytes_of_word: "write_bytes m a (bytes_of_word v) = store64 m a v"
  by (simp add: bytes_of_word_def store64_def)

lemma buf_get_first [simp]: "buf_get (bytes_of_word v @ rest) 0 = Some v"
  by (simp add: buf_get_def)

lemma buf_get_second [simp]: "buf_get (bytes_of_word u @ bytes_of_word v) 8 = Some v"
  by (simp add: buf_get_def)

lemma buf_get_only [simp]: "buf_get (bytes_of_word v) 0 = Some v"
  using buf_get_first [of v "[]"] by simp

lemma system_buffer_only [simp]: "length outb \<le> length inb \<Longrightarrow> system_buffer N inb outb = inb"
  by (simp add: system_buffer_def)

lemma length_system_buffer [simp]: "length (system_buffer N inb outb) = max (length inb) (length outb)"
  by (simp add: system_buffer_def)

lemma buf_get_system_buffer [simp]: "buf_get (system_buffer N (bytes_of_word v) outb) 0 = Some v"
  by (simp add: system_buffer_def)

text \<open>The kernel maps the \<open>n\<close> physical bytes at \<open>pa\<close> and lets them be read.\<close>

definition nt_mapped :: "nt \<Rightarrow> u64 \<Rightarrow> nat \<Rightarrow> bool" where
  "nt_mapped N pa n \<longleftrightarrow> nt_virt_for_phys N pa \<noteq> 0 \<and> nt_copied N pa n = n \<and>
     (\<forall>i<n. nt_phys_of N (nt_virt_for_phys N pa + of_nat i) = pa + of_nat i)"

lemma write_bytes_Cons:
  assumes "Suc (length bs) < 2 ^ 64"
  shows "write_bytes (m(a := b)) (a + 1) bs = write_bytes m a (b # bs)"
proof
  fix x
  show "write_bytes (m(a := b)) (a + 1) bs x = write_bytes m a (b # bs) x"
  proof (cases "x = a")
    case True
    have "unat (- 1 :: u64) = 2 ^ 64 - 1"
      by (simp add: unsigned_minus_1_eq_mask mask_eq_exp_minus_1)
    with True assms show ?thesis by (simp add: write_bytes_def)
  next
    case False
    then have "x - a \<noteq> 0" by simp
    then have "unat (x - a) = Suc (unat (x - (a + 1)))"
      using unat_minus_one [of "x - a"] unat_gt_0 [of "x - a"] by (simp add: diff_diff_eq)
    with False show ?thesis by (simp add: write_bytes_def)
  qed
qed

lemma nt_write_eq:
  assumes "\<forall>i<length bs. nt_phys_of N (va + of_nat i) = pa + of_nat i" "length bs < 2 ^ 64"
  shows "nt_write N va bs m = write_bytes m pa bs"
  using assms
proof (induction bs arbitrary: va pa m)
  case Nil
  then show ?case by (simp add: write_bytes_def)
next
  case (Cons b bs)
  have "nt_phys_of N (va + 1 + of_nat i) = pa + 1 + of_nat i" if "i < length bs" for i
    using Cons.prems(1) [rule_format, of "Suc i"] that by (simp add: ac_simps)
  moreover have "nt_phys_of N va = pa"
    using Cons.prems(1) [rule_format, of 0] by simp
  ultimately have "nt_write N va (b # bs) m = write_bytes (m(pa := b)) (pa + 1) bs"
    using Cons.IH Cons.prems(2) by simp
  also have "\<dots> = write_bytes m pa (b # bs)"
    using Cons.prems(2) by (intro write_bytes_Cons) simp
  finally show ?case .
qed

lemma nt_write_mapped:
  "nt_mapped N pa (length bs) \<Longrightarrow> length bs < 2 ^ 64 \<Longrightarrow>
   nt_write N (nt_virt_for_phys N pa) bs m = write_bytes m pa bs"
  by (intro nt_write_eq) (simp_all add: nt_mapped_def)

subsection \<open>Physical values and pages\<close>

lemma win_phys_read_eq:
  "nt_mapped N a 8 \<Longrightarrow> win_phys_read N a w = Some (load64 (w_phys w) a, w)"
  by (simp add: win_phys_read_def DeviceIoControl_def DispatchDeviceCtl_def STATUS_SUCCESS_def
      buf_put_def nt_mapped_def)

lemma win_phys_write_eq:
  "nt_mapped N a 8 \<Longrightarrow> win_phys_write N a v w = Some (w\<lparr>w_phys := store64 (w_phys w) a v\<rparr>)"
  using nt_write_mapped [of N a "bytes_of_word v"]
  by (simp add: win_phys_write_def DeviceIoControl_def DispatchDeviceCtl_def STATUS_SUCCESS_def Let_def
      write_bytes_of_word) (simp add: nt_mapped_def)

interpretation via_driver: phys_access "win_deref N w" "win_pset N w" "\<lambda>a. nt_mapped N a 8" for N w
  by unfold_locales (simp_all add: win_deref_def win_pset_def win_phys_read_eq win_phys_write_eq)

lemma ipi_invalidate:
  "KeIpiGenericCall N win_invalidate_tlb a w =
     w\<lparr>w_invlpg := w_invlpg w @ map (\<lambda>cpu. (cpu, a)) [0..<nt_ncpus N]\<rparr>"
proof -
  have "fold (\<lambda>cpu. win_invalidate_tlb cpu a) cs w = w\<lparr>w_invlpg := w_invlpg w @ map (\<lambda>cpu. (cpu, a)) cs\<rparr>" for cs
    by (induction cs arbitrary: w) (simp_all add: win_invalidate_tlb_def)
  then show ?thesis by (simp add: KeIpiGenericCall_def)
qed

lemma ipi_set_pat:
  "KeIpiGenericCall N win_set_pat v w = w\<lparr>w_pat := (\<lambda>cpu. if cpu < nt_ncpus N then v else w_pat w cpu)\<rparr>"
proof -
  have "fold (\<lambda>cpu. win_set_pat cpu v) cs w = w\<lparr>w_pat := (\<lambda>cpu. if cpu \<in> set cs then v else w_pat w cpu)\<rparr>" for cs
    by (induction cs arbitrary: w) (auto simp: win_set_pat_def fun_eq_iff)
  then show ?thesis by (simp add: KeIpiGenericCall_def)
qed

lemma win_invalidate_eq:
  "win_invalidate N a w = Some (w\<lparr>w_invlpg := w_invlpg w @ map (\<lambda>cpu. (cpu, a)) [0..<nt_ncpus N]\<rparr>)"
  by (simp add: win_invalidate_def DeviceIoControl_def DispatchDeviceCtl_def STATUS_SUCCESS_def
      flush_tlb_def ipi_invalidate)

subsection \<open>Roots\<close>

text \<open>What the driver relies on of \<open>KeUnstackDetachProcess\<close>: it goes back to the address space the
  thread had before \<open>KeStackAttachProcess\<close>.\<close>

locale nt_kernel =
  fixes N :: nt
  assumes detach: "nt_detach N before current = before"
begin

lemma get_cr3_eq:
  "win_get_paging_root N pid w =
     (case nt_lookup N (if pid = 0 then nt_current_pid N else pid) of
        None \<Rightarrow> Some (0, w)
      | Some p \<Rightarrow> Some (nt_attach N p (w_cr3 w) AND NOT 0xfff, w\<lparr>w_refs := (w_refs w)(p := w_refs w p + 1)\<rparr>))"
  by (simp add: win_get_paging_root_def DeviceIoControl_def DispatchDeviceCtl_def STATUS_SUCCESS_def
      PsLookup_def buf_put_def detach Let_def split: option.split)

lemma set_cr3_eq:
  "win_set_paging_root N pid root w =
     (let pid' = (if pid = 0 then nt_current_pid N else pid) in
      Some (w\<lparr>w_refs := (case nt_lookup N pid' of None \<Rightarrow> w_refs w
                         | Some p \<Rightarrow> (w_refs w)(p := w_refs w p + 1)),
              w_invlpg := w_invlpg w @ map (\<lambda>cpu. (cpu, pid')) [0..<nt_ncpus N]\<rparr>))"
  by (simp add: win_set_paging_root_def DeviceIoControl_def DispatchDeviceCtl_def STATUS_SUCCESS_def
      PsLookup_def flush_tlb_def ipi_invalidate detach Let_def split: option.split)

end

text \<open>The root the walk starts from.\<close>

definition win_root :: "nt \<Rightarrow> lib \<Rightarrow> u64 \<Rightarrow> wstate \<Rightarrow> u64" where
  "win_root N L pid w =
     (if pid = 0 then ptedit_paging_root L
      else case nt_lookup N pid of None \<Rightarrow> 0 | Some p \<Rightarrow> nt_attach N p (w_cr3 w) AND NOT 0xfff) AND NOT 1"

lemma win_root_cong: "w_cr3 w' = w_cr3 w \<Longrightarrow> win_root N L pid w' = win_root N L pid w"
  by (simp add: win_root_def cong: option.case_cong)

context nt_kernel
begin

lemma walk_root:
  "\<exists>refs. win_walk_root N L pid w = Some (win_root N L pid w, w\<lparr>w_refs := refs\<rparr>)"
  by (cases "pid = 0"; cases "nt_lookup N pid")
    (auto simp: win_walk_root_def win_root_def get_cr3_eq intro: exI [of _ "w_refs w"])

lemma resolve_eq:
  assumes "lib_x86 L" "win_root N L pid w \<noteq> 0"
    "accessible (\<lambda>x. nt_mapped N x 8) (w_phys w) (win_root N L pid w) a"
    "narrow_walk (w_phys w) (win_root N L pid w) a"
  shows "\<exists>refs. win_resolve N L a pid w =
    Some (user_entry (w_phys w) (win_root N L pid w) a pid, w\<lparr>w_refs := refs\<rparr>)"
proof -
  obtain refs where r: "win_walk_root N L pid w = Some (win_root N L pid w, w\<lparr>w_refs := refs\<rparr>)"
    using walk_root by blast
  then show ?thesis
    using via_driver.walk_tables_eq [OF assms(1,3,4), where w = "w\<lparr>w_refs := refs\<rparr>" and pid = pid] assms(2)
    by (auto simp: win_resolve_def)
qed

lemma update_eq:
  assumes "lib_x86 L" "win_root N L pid w \<noteq> 0"
    "accessible (\<lambda>x. nt_mapped N x 8) (w_phys w) (win_root N L pid w) a"
    "narrow_walk (w_phys w) (win_root N L pid w) a"
    "e_valid vm = PTEDIT_VALID_MASK_PTE" "reaches_pte (w_phys w) (win_root N L pid w) a"
  shows "\<exists>refs inv. win_update N L a pid vm w = Some (w\<lparr>w_refs := refs,
    w_phys := store64 (w_phys w) (pte_slot (w_phys w) (win_root N L pid w) a) (e_pte vm), w_invlpg := inv\<rparr>)"
proof -
  obtain refs where e: "win_resolve N L a pid w =
      Some (user_entry (w_phys w) (win_root N L pid w) a pid, w\<lparr>w_refs := refs\<rparr>)"
    using resolve_eq [OF assms(1-4)] by blast
  obtain refs' where r: "win_walk_root N L pid (w\<lparr>w_refs := refs\<rparr>) =
      Some (win_root N L pid w, w\<lparr>w_refs := refs'\<rparr>)"
    using walk_root [of L pid "w\<lparr>w_refs := refs\<rparr>"] win_root_cong [of "w\<lparr>w_refs := refs\<rparr>" w] by auto
  show ?thesis
    using via_driver.write_pte_tables [OF assms(1,3,4,5,6), where w = "w\<lparr>w_refs := refs'\<rparr>" and pid = pid] assms(2)
    by (simp add: win_update_def e r win_invalidate_eq) blast
qed

end

text \<open>
  C23. On Windows, too, what one update writes the next resolve reads: with the driver's accessors
  to physical memory the library's update stores the page-table entry, the address translates
  through it, and resolving the address again returns it, for the caller's own and for any other
  process.\<close>

theorem win_resolve_after_update:
  assumes "nt_kernel N" "lib_x86 L" "win_root N L pid w \<noteq> 0"
    "accessible (\<lambda>x. nt_mapped N x 8) (w_phys w) (win_root N L pid w) a"
    "narrow_walk (w_phys w) (win_root N L pid w) a"
    "e_valid vm = PTEDIT_VALID_MASK_PTE" "reaches_pte (w_phys w) (win_root N L pid w) a"
    "pte_separate (w_phys w) (win_root N L pid w) a"
  shows "\<exists>w' e w''. win_update N L a pid vm w = Some w' \<and> win_resolve N L a pid w' = Some (e, w'')
    \<and> e_pte e = e_pte vm \<and> bit (e_valid e) 4
    \<and> translate (w_phys w') (win_root N L pid w') a =
        (if bit (e_pte vm) 0 then Some (table_base (e_pte vm) OR take_bit 12 a) else None)"
proof -
  define root where "root = win_root N L pid w"
  define m where "m = store64 (w_phys w) (pte_slot (w_phys w) root a) (e_pte vm)"
  obtain refs inv where u: "win_update N L a pid vm w = Some (w\<lparr>w_refs := refs, w_phys := m, w_invlpg := inv\<rparr>)"
    using nt_kernel.update_eq [OF assms(1-7)] by (auto simp: m_def root_def)
  let ?w = "w\<lparr>w_refs := refs, w_phys := m, w_invlpg := inv\<rparr>"
  have root: "win_root N L pid ?w = root" unfolding root_def by (rule win_root_cong) simp
  note w = write_pte [OF assms(8) [folded root_def], of "e_pte vm", folded m_def]
  have reach: "reaches_pte m root a" using assms(7) w(3) by (simp add: root_def)
  have acc: "accessible (\<lambda>x. nt_mapped N x 8) m root a" "narrow_walk m root a"
    using accessible_write [OF assms(8)] assms(4,5) by (simp_all add: m_def root_def)
  obtain refs' where r: "win_resolve N L a pid ?w = Some (user_entry m root a pid, ?w\<lparr>w_refs := refs'\<rparr>)"
    using nt_kernel.resolve_eq [OF assms(1,2), of pid ?w a] assms(3) acc by (auto simp: root root_def [symmetric])
  have "e_pte (user_entry m root a pid) = e_pte vm" "bit (e_valid (user_entry m root a pid)) 4"
    using reach w(2) by (simp_all add: user_entry_def reaches_pte_def Let_def)
  then show ?thesis
    using u r translate_reaches [OF reach] w(2) root by fastforce
qed

subsection \<open>A concrete kernel\<close>

text \<open>Physical memory mapped at the start of the upper half, two processes, two CPUs.\<close>

definition demo_nt :: nt where
  "demo_nt = \<lparr>nt_lookup = (\<lambda>pid. if pid = 4 then Some 1 else if pid = 8 then Some 2 else None),
     nt_current_pid = 4, nt_virt_for_phys = (\<lambda>pa. pa + 0xffff800000000000),
     nt_phys_of = (\<lambda>va. va - 0xffff800000000000), nt_copied = (\<lambda>_ n. n),
     nt_attach = (\<lambda>p _. if p = 1 then demo_root else 0x9000), nt_detach = (\<lambda>before _. before),
     nt_ncpus = 2, nt_this_cpu = 0, nt_pool = (\<lambda>_. 0xcc), nt_create_device = 0, nt_create_link = 0\<rparr>"

interpretation demo_nt: nt_kernel demo_nt
  by unfold_locales (simp add: demo_nt_def)

definition demo_wstate :: wstate where
  "demo_wstate = \<lparr>w_phys = demo_mem, w_cr3 = demo_root, w_pat = (\<lambda>_. 0x0007040600070406), w_invlpg = [],
     w_refs = (\<lambda>_. 0)\<rparr>"

lemma demo_mapped: "a \<noteq> 0x800000000000 \<Longrightarrow> nt_mapped demo_nt a n"
proof -
  assume a: "a \<noteq> 0x800000000000"
  have "a + 0xffff800000000000 \<noteq> (0::u64)"
  proof
    assume "a + 0xffff800000000000 = 0"
    then have "a = - (0xffff800000000000 :: u64)" by (rule add_eq_0_iff2 [THEN iffD1])
    with a show False by simp
  qed
  then show ?thesis by (simp add: nt_mapped_def demo_nt_def)
qed

theorem win_resolve_after_update_witness:
  "\<exists>w' e w''. win_update demo_nt demo_lib demo_addr 4 demo_entry demo_wstate = Some w'
     \<and> win_resolve demo_nt demo_lib demo_addr 4 w' = Some (e, w'')
     \<and> e_pte e = e_pte demo_entry \<and> bit (e_valid e) 4"
proof -
  have root: "win_root demo_nt demo_lib 4 demo_wstate = demo_root"
    by (simp add: win_root_def demo_nt_def demo_root_def)
  have x86: "lib_x86 demo_lib" using demo_user_ready by (simp add: user_ready_def)
  have acc: "accessible (\<lambda>x. nt_mapped demo_nt x 8) demo_mem demo_root demo_addr"
    by (intro demo_accessible demo_mapped) auto
  have "win_root demo_nt demo_lib 4 demo_wstate \<noteq> 0" unfolding root by (simp add: demo_root_def)
  then show ?thesis
    using win_resolve_after_update [OF demo_nt.nt_kernel_axioms x86, of 4 demo_wstate demo_addr demo_entry]
      acc demo_narrow demo_reaches demo_separate
    unfolding root by (simp add: demo_wstate_def demo_entry_def) blast
qed

subsection \<open>What the driver does not do\<close>

text \<open>
  \<open>ptedit_set_mts\<close> has no effect on Windows: it sends the command that reads the PAT. The
  driver's own command for the purpose would program every CPU.\<close>

lemma win_set_mts_ineffective:
  "win_set_mts N mts w = Some w
   \<and> (\<exists>out w'. DeviceIoControl N WIN_SET_PAT (bytes_of_word mts) (bytes_of_word mts) w = Some (out, w')
        \<and> (\<forall>cpu. w_pat w' cpu = (if cpu < nt_ncpus N then mts else w_pat w cpu)))"
  by (simp add: win_set_mts_def DeviceIoControl_def DispatchDeviceCtl_def STATUS_SUCCESS_def buf_put_def
      ipi_set_pat)

text \<open>
  \<open>ptedit_set_paging_root\<close> does not change the root of any process on Windows: the new value is
  in CR3 only until the thread leaves the process again. What remains of the call is one more
  reference on the process, which nothing releases, and, because the case runs on into the next
  one, an invalidation on every CPU of the page at the address that equals the process id.\<close>

lemma win_set_root_effect:
  assumes "nt_kernel N"
  shows "let pid' = (if pid = 0 then nt_current_pid N else pid) in
    \<exists>w'. win_set_paging_root N pid root w = Some w'
      \<and> w_cr3 w' = w_cr3 w \<and> w_phys w' = w_phys w
      \<and> map_option fst (win_get_paging_root N q w') = map_option fst (win_get_paging_root N q w)
      \<and> (\<forall>p. w_refs w' p = w_refs w p + (if nt_lookup N pid' = Some p then 1 else 0))
      \<and> w_invlpg w' = w_invlpg w @ map (\<lambda>cpu. (cpu, pid')) [0..<nt_ncpus N]"
  using nt_kernel.set_cr3_eq [OF assms, of pid root w]
  by (auto simp: Let_def nt_kernel.get_cr3_eq [OF assms] split: option.split)

text \<open>The bytes of the system buffer a command touches, when every copy is complete. The second
  word of \<open>SET_CR3\<close> is only read when the process exists.\<close>

fun ctl_needs :: "nt \<Rightarrow> u8 list \<Rightarrow> win_ctl \<Rightarrow> nat" where
  "ctl_needs N buf WIN_WRITE_PAGE = 4104"
| "ctl_needs N buf WIN_READ_PAGE = 4096"
| "ctl_needs N buf WIN_SET_CR3 = (if nt_lookup N (word_of_bytes (take 8 buf)) = None then 8 else 16)"
| "ctl_needs N buf WIN_WRITE_PHYS_VAL = 16"
| "ctl_needs N buf WIN_OTHER = 0"
| "ctl_needs N buf _ = 8"

lemmas ctl_simps = DispatchDeviceCtl_def buf_put_def flush_tlb_def PsLookup_def Let_def



text \<open>
  The library's own calls stay inside their buffers, whatever the driver copies and whichever
  processes exist: each of them returns, with a page buffer of 4096 bytes.\<close>

lemma win_library_in_bounds:
  assumes "\<forall>a n. nt_copied N a n \<le> n" "length buffer = 4096"
  shows "win_phys_read N a w \<noteq> None \<and> win_phys_write N a v w \<noteq> None
    \<and> win_read_physical_page N 4096 pfn buffer w \<noteq> None
    \<and> win_write_physical_page N 4096 pfn buffer w \<noteq> None
    \<and> win_get_paging_root N pid w \<noteq> None \<and> win_set_paging_root N pid v w \<noteq> None
    \<and> win_invalidate N a w \<noteq> None \<and> win_get_mts N w \<noteq> None \<and> win_set_mts N v w \<noteq> None"
proof (intro conjI)
  note io = DeviceIoControl_def ctl_simps
  have c: "nt_copied N x 8 \<le> 8" "nt_copied N x 4096 \<le> 4096" for x using assms(1) by simp_all
  show "win_phys_read N a w \<noteq> None" "win_phys_write N a v w \<noteq> None" "win_get_mts N w \<noteq> None"
    "win_set_mts N v w \<noteq> None" "win_invalidate N a w \<noteq> None"
    by (simp_all add: win_phys_read_def win_phys_write_def win_get_mts_def win_set_mts_def win_invalidate_eq io c)
  show "win_read_physical_page N 4096 pfn buffer w \<noteq> None"
    using c assms(2) by (simp add: win_read_physical_page_def io)
  show "win_write_physical_page N 4096 pfn buffer w \<noteq> None"
    using assms(2) by (simp add: win_write_physical_page_def io buf_get_def)
  show "win_get_paging_root N pid w \<noteq> None" "win_set_paging_root N pid v w \<noteq> None"
    by (simp_all add: win_get_paging_root_def win_set_paging_root_def io split: option.split)
qed

subsection \<open>Pages\<close>

lemma win_page_roundtrip:
  assumes "nt_mapped N (pfn * 4096) 4096" "length content = 4096" "length buffer = 4096"
  shows "\<exists>w'. win_write_physical_page N 4096 pfn content w = Some w'
    \<and> win_read_physical_page N 4096 pfn buffer w' = Some (content, w')"
proof -
  define w1 where "w1 = w\<lparr>w_phys := write_bytes (w_phys w) (pfn * 4096) content\<rparr>"
  have m: "nt_virt_for_phys N (pfn * 4096) \<noteq> 0" "nt_copied N (pfn * 4096) 4096 = 4096"
    using assms(1) by (simp_all add: nt_mapped_def)
  have "win_write_physical_page N 4096 pfn content w = Some w1"
    using assms(2) m nt_write_mapped [of N "pfn * 4096" content "w_phys w"] assms(1)
    by (simp add: win_write_physical_page_def DeviceIoControl_def ctl_simps buf_get_def STATUS_SUCCESS_def w1_def)
  moreover have "read_bytes (w_phys w1) (pfn * 4096) 4096 = content"
    using read_write_bytes_same [of content "w_phys w" "pfn * 4096"] assms(2) by (simp add: w1_def)
  then have "win_read_physical_page N 4096 pfn buffer w1 = Some (content, w1)"
    using assms(2,3) m
    by (simp add: win_read_physical_page_def DeviceIoControl_def ctl_simps STATUS_SUCCESS_def)
  ultimately show ?thesis by blast
qed

subsection \<open>Loading the driver\<close>

lemma length_set_major [simp]: "length (set_major n hs) = length hs"
  by (induction n) simp_all

lemma nth_set_major: "i < length hs \<Longrightarrow> set_major n hs ! i = (if i < n then H_pass_thru else hs ! i)"
proof (induction n)
  case (Suc n)
  then show ?case by (cases "i = n") auto
qed simp

text \<open>
  \<open>DriverEntry\<close> either fails and leaves neither device nor link behind, or leaves both, with the
  control routine installed for device control and the pass-through routine for every other
  function but the last of the table, which the loop does not reach. \<open>Unload\<close> removes both.\<close>

lemma driver_entry_outcomes:
  assumes "\<not> d_device d" "\<not> d_link d" "length (d_major d) = IRP_MJ_MAXIMUM_FUNCTION + 1"
  shows "let (status, d') = DriverEntry N d in
    (status < 0 \<longrightarrow> \<not> d_device d' \<and> \<not> d_link d' \<and> d_major d' = d_major d)
  \<and> (0 \<le> status \<longrightarrow> d_device d' \<and> d_link d' \<and> d_unload d'
      \<and> (\<forall>i \<le> IRP_MJ_MAXIMUM_FUNCTION. d_major d' ! i =
           (if i = IRP_MJ_DEVICE_CONTROL then H_device_ctl
            else if i < IRP_MJ_MAXIMUM_FUNCTION then H_pass_thru else d_major d ! i))
      \<and> \<not> d_device (Unload d') \<and> \<not> d_link (Unload d'))"
  using assms
  by (auto simp: DriverEntry_def Let_def Unload_def nth_list_update nth_set_major
      IRP_MJ_DEVICE_CONTROL_def IRP_MJ_MAXIMUM_FUNCTION_def)

definition demo_driver :: driver where
  "demo_driver = \<lparr>d_unload = False, d_major = replicate 28 H_unset, d_device = False, d_link = False\<rparr>"

end
