(* ===== verification/Memmap.thy ===== *)
theory Memmap
  imports Pt_Library Entry_Print
begin

text \<open>
  Two of the tools that come with PTEditor: \<open>PTEditor/demos/memmap.c\<close>, which lists everything a
  process has mapped, and \<open>PTEditor/demos/virt2phys.c\<close>, which computes a physical address.

  The listing walks all four levels of the page tables (three on AArch64) by reading whole table
  pages. Its output is a list of items, which \<open>render\<close> turns into the text printed.
\<close>

subsection \<open>Tests on entries\<close>

definition is_present :: "arch \<Rightarrow> u64 \<Rightarrow> bool" where
  "is_present A entry =
     (case A of X86_64 \<Rightarrow> entry AND push_bit (bit_pos PTEDIT_PAGE_BIT_PRESENT) 1 \<noteq> 0 | AARCH64 \<Rightarrow> entry AND 3 = 3)"

definition is_normal_page :: "arch \<Rightarrow> u64 \<Rightarrow> bool" where
  "is_normal_page A entry =
     (case A of X86_64 \<Rightarrow> entry AND push_bit (bit_pos PTEDIT_PAGE_BIT_PSE) 1 = 0 | AARCH64 \<Rightarrow> True)"

definition FIRST_LEVEL_ENTRIES :: "arch \<Rightarrow> nat" where
  "FIRST_LEVEL_ENTRIES A = (case A of X86_64 \<Rightarrow> 256 | AARCH64 \<Rightarrow> 512)"

subsection \<open>Listing a process\<close>

text \<open>A dumped entry with its prefix, the line of a 4 KiB page, the line of a 2 MiB page.\<close>

datatype item = Dump string u64 | Page u64 | Large u64

fun render :: "arch \<Rightarrow> item \<Rightarrow> string" where
  "render A (Dump type entry) =
     concat (map (\<lambda>i. type @ ptedit_print_entry_line A entry i) [0..3])"
| "render A (Page va) = ''            -> '' @ digits 15 16 (unat va) @ [CHR 0x0A]"
| "render A (Large va) = ''        -> '' @ digits 15 16 (unat va) @ [CHR 0x0A]"

text \<open>The arrays \<open>pdpt\<close>, \<open>pd\<close> and \<open>pt\<close> as bytes, what has been printed, and \<open>mem_usage\<close>.\<close>

record memmap =
  mm_pdpt :: "u8 list"
  mm_pd :: "u8 list"
  mm_pt :: "u8 list"
  mm_out :: "item list"
  mm_usage :: u64

definition page_entry :: "u8 list \<Rightarrow> nat \<Rightarrow> u64" where
  "page_entry page i = word_rcat (rev (take 8 (drop (8 * i) page)))"

text \<open>\<open>ptedit_read_physical_page\<close> into a buffer; reading leaves the state as it is.\<close>

definition read_table :: "os \<Rightarrow> lib \<Rightarrow> kstate \<Rightarrow> u64 \<Rightarrow> u8 list \<Rightarrow> u8 list" where
  "read_table W L s pfn buffer = fst (ptedit_read_physical_page W L pfn buffer s)"

definition page_va :: "arch \<Rightarrow> nat \<Rightarrow> nat \<Rightarrow> nat \<Rightarrow> nat \<Rightarrow> u64" where
  "page_va A pml4i pdpti pdi pti =
     (case A of
        X86_64 \<Rightarrow> push_bit 12 (of_nat pti) OR push_bit 21 (of_nat pdi) OR push_bit 30 (of_nat pdpti)
                  OR push_bit 39 (of_nat pml4i)
      | AARCH64 \<Rightarrow> push_bit 12 (of_nat pti) OR push_bit 21 (of_nat pdi) OR push_bit 30 (of_nat pml4i))"

definition large_va :: "nat \<Rightarrow> nat \<Rightarrow> nat \<Rightarrow> u64" where
  "large_va pml4i pdpti pdi =
     push_bit 21 (of_nat pdi) OR push_bit 30 (of_nat pdpti) OR push_bit 39 (of_nat pml4i)"

definition pt_step :: "arch \<Rightarrow> nat \<Rightarrow> nat \<Rightarrow> nat \<Rightarrow> nat \<Rightarrow> memmap \<Rightarrow> memmap" where
  "pt_step A pml4i pdpti pdi pti st =
     (let pt_entry = page_entry (mm_pt st) pti in
      if \<not> is_present A pt_entry then st
      else st\<lparr>mm_out := mm_out st @ [Dump ''        PT  '' pt_entry, Page (page_va A pml4i pdpti pdi pti)],
              mm_usage := mm_usage st + 4096\<rparr>)"

definition pd_step :: "os \<Rightarrow> lib \<Rightarrow> kstate \<Rightarrow> nat \<Rightarrow> nat \<Rightarrow> nat \<Rightarrow> memmap \<Rightarrow> memmap" where
  "pd_step W L s pml4i pdpti pdi st =
     (let A = os_arch W; pd_entry = page_entry (mm_pd st) pdi in
      if \<not> is_present A pd_entry then st
      else let st1 = st\<lparr>mm_out := mm_out st @ [Dump ''    PD  '' pd_entry]\<rparr> in
      if is_normal_page A pd_entry
      then fold (pt_step A pml4i pdpti pdi) [0..<512]
             (st1\<lparr>mm_pt := read_table W L s (ptedit_get_pfn A pd_entry) (mm_pt st1)\<rparr>)
      else st1\<lparr>mm_out := mm_out st1 @ [Large (large_va pml4i pdpti pdi)],
               mm_usage := mm_usage st1 + 2 * 1024 * 1024\<rparr>)"

definition pd_loop :: "os \<Rightarrow> lib \<Rightarrow> kstate \<Rightarrow> nat \<Rightarrow> nat \<Rightarrow> u64 \<Rightarrow> memmap \<Rightarrow> memmap" where
  "pd_loop W L s pml4i pdpti pdpt_entry st =
     fold (pd_step W L s pml4i pdpti) [0..<512]
       (st\<lparr>mm_pd := read_table W L s (ptedit_get_pfn (os_arch W) pdpt_entry) (mm_pd st)\<rparr>)"

definition pdpt_step :: "os \<Rightarrow> lib \<Rightarrow> kstate \<Rightarrow> nat \<Rightarrow> nat \<Rightarrow> memmap \<Rightarrow> memmap" where
  "pdpt_step W L s pml4i pdpti st =
     (let pdpt_entry = page_entry (mm_pdpt st) pdpti in
      if \<not> is_present (os_arch W) pdpt_entry then st
      else pd_loop W L s pml4i pdpti pdpt_entry (st\<lparr>mm_out := mm_out st @ [Dump ''PDPT'' pdpt_entry]\<rparr>))"

definition pml4_step :: "os \<Rightarrow> lib \<Rightarrow> kstate \<Rightarrow> u8 list \<Rightarrow> nat \<Rightarrow> memmap \<Rightarrow> memmap" where
  "pml4_step W L s pml4 pml4i st =
     (let A = os_arch W; pml4_entry = page_entry pml4 pml4i in
      if \<not> is_present A pml4_entry then st
      else let st1 = st\<lparr>mm_out := mm_out st @ [Dump [] pml4_entry]\<rparr> in
      case A of
        X86_64 \<Rightarrow> fold (pdpt_step W L s pml4i) [0..<512]
          (st1\<lparr>mm_pdpt := read_table W L s (ptedit_get_pfn A pml4_entry) (mm_pdpt st1)\<rparr>)
      | AARCH64 \<Rightarrow> pd_loop W L s pml4i 0 pml4_entry st1)"

text \<open>The listing of the process \<open>pid\<close>, after a successful \<open>ptedit_init\<close>; the arrays start with
  whatever the stack holds.\<close>

definition memmap_dump :: "os \<Rightarrow> lib \<Rightarrow> u32 \<Rightarrow> u8 list \<Rightarrow> kstate \<Rightarrow> memmap \<times> kstate" where
  "memmap_dump W L pid stack s0 =
     (let (root, s) = ptedit_get_paging_root W L pid s0;
          pagesize = word_of_int (ptedit_get_pagesize W L s);
          pml4 = read_table W L s (root div pagesize) stack
      in (fold (pml4_step W L s pml4) [0..<FIRST_LEVEL_ENTRIES (os_arch W)]
            \<lparr>mm_pdpt = stack, mm_pd = stack, mm_pt = stack, mm_out = [], mm_usage = 0\<rparr>, s))"

definition memmap_text :: "os \<Rightarrow> memmap \<Rightarrow> string" where
  "memmap_text W st =
     concat (map (render (os_arch W)) (mm_out st))
     @ ''Used memory: '' @ digits 19 10 (unat (mm_usage st div 1024)) @ '' KB'' @ [CHR 0x0A]"

subsection \<open>Computing a physical address\<close>

text \<open>\<open>virt2phys.c\<close>: the number computed from the resolved entry of the address, and the run
  of the tool from the call of \<open>ptedit_resolve\<close> on.\<close>

definition entry_phys :: "arch \<Rightarrow> ptedit_entry_t \<Rightarrow> u64 \<Rightarrow> u64" where
  "entry_phys A entry target =
     (if is_normal_page A (e_pmd entry)
      then push_bit 12 (ptedit_get_pfn A (e_pte entry)) OR (target AND 0xfff)
      else push_bit 21 (ptedit_get_pfn A (e_pmd entry)) OR (target AND 0x1fffff))"

definition virt2phys :: "os \<Rightarrow> lib \<Rightarrow> u64 \<Rightarrow> kstate \<Rightarrow> (u64 \<times> kstate) option" where
  "virt2phys W L target s =
     do {
       (entry, s1) \<leftarrow> ptedit_resolve W L target 0 s;
       Some (entry_phys (os_arch W) entry target, s1)
     }"
subsection \<open>What the loops print\<close>

lemma read_page_state: "snd (ptedit_read_physical_page W L pfn buffer s) = s"
  by (auto simp: ptedit_read_physical_page_def lib_ioctl_def Let_def split: ioctl_out.split)

lemma page_entry_read:
  assumes "i < 512"
  shows "page_entry (read_bytes m base 4096) i = load64 m (base + 8 * of_nat i)"
proof -
  have "take 8 (drop (8 * i) (read_bytes m base 4096)) = read_bytes m (base + 8 * of_nat i) 8"
    using assms by (intro nth_equalityI) (auto simp: ac_simps)
  then show ?thesis by (simp add: page_entry_def load64_def)
qed

text \<open>A loop whose steps keep an invariant, print a fixed list and add a fixed amount each.\<close>

lemma fold_items:
  assumes "\<And>i st. I st \<Longrightarrow> i \<in> set xs \<Longrightarrow>
      I (step i st) \<and> mm_out (step i st) = mm_out st @ f i \<and> mm_usage (step i st) = mm_usage st + g i"
    and "I st"
  shows "I (fold step xs st) \<and> mm_out (fold step xs st) = mm_out st @ concat (map f xs)
    \<and> mm_usage (fold step xs st) = mm_usage st + sum_list (map g xs)"
  using assms
proof (induction xs arbitrary: st)
  case (Cons x xs)
  from Cons.prems have 1: "I (step x st)" "mm_out (step x st) = mm_out st @ f x"
      "mm_usage (step x st) = mm_usage st + g x" by auto
  have "I (fold step xs (step x st)) \<and> mm_out (fold step xs (step x st)) = mm_out (step x st) @ concat (map f xs)
    \<and> mm_usage (fold step xs (step x st)) = mm_usage (step x st) + sum_list (map g xs)"
    using Cons.prems(1) 1(1) by (intro Cons.IH) auto
  with 1 show ?case by (simp add: add.assoc)
qed simp

text \<open>The items and the amounts of each level, read from memory.\<close>

definition pt_items :: "mem \<Rightarrow> u64 \<Rightarrow> nat \<Rightarrow> nat \<Rightarrow> nat \<Rightarrow> nat \<Rightarrow> item list" where
  "pt_items m base i3 i2 i1 i0 =
     (let e = load64 m (base + 8 * of_nat i0) in
      if bit e 0 then [Dump ''        PT  '' e, Page (page_va X86_64 i3 i2 i1 i0)] else [])"

definition pd_items :: "mem \<Rightarrow> u64 \<Rightarrow> nat \<Rightarrow> nat \<Rightarrow> nat \<Rightarrow> item list" where
  "pd_items m base i3 i2 i1 =
     (let e = load64 m (base + 8 * of_nat i1) in
      if \<not> bit e 0 then []
      else Dump ''    PD  '' e #
        (if \<not> bit e 7 then concat (map (pt_items m (table_base e) i3 i2 i1) [0..<512])
         else [Large (large_va i3 i2 i1)]))"

definition pdpt_items :: "mem \<Rightarrow> u64 \<Rightarrow> nat \<Rightarrow> nat \<Rightarrow> item list" where
  "pdpt_items m base i3 i2 =
     (let e = load64 m (base + 8 * of_nat i2) in
      if bit e 0 then Dump ''PDPT'' e # concat (map (pd_items m (table_base e) i3 i2) [0..<512]) else [])"

definition pml4_items :: "mem \<Rightarrow> u64 \<Rightarrow> nat \<Rightarrow> item list" where
  "pml4_items m base i3 =
     (let e = load64 m (base + 8 * of_nat i3) in
      if bit e 0 then Dump [] e # concat (map (pdpt_items m (table_base e) i3) [0..<512]) else [])"

fun item_size :: "item \<Rightarrow> u64" where
  "item_size (Page _) = 4096"
| "item_size (Large _) = 2097152"
| "item_size (Dump _ _) = 0"

abbreviation items_size :: "item list \<Rightarrow> u64" where
  "items_size xs \<equiv> sum_list (map item_size xs)"

lemma items_size_concat: "items_size (concat xss) = sum_list (map (\<lambda>xs. items_size xs) xss)"
  by (induction xss) simp_all

text \<open>All tables can be read.\<close>

definition tables_readable :: "os \<Rightarrow> lib \<Rightarrow> kstate \<Rightarrow> bool" where
  "tables_readable W L s \<longleftrightarrow> os_arch W = X86_64 \<and>
     (\<forall>pfn buffer. unat pfn < 2 ^ 40 \<longrightarrow> read_table W L s pfn buffer = read_bytes (phys s) (pfn * 4096) 4096)"

lemma present_bit: "is_present X86_64 e = bit e 0" "is_normal_page X86_64 e = (\<not> bit e 7)"
  unfolding is_present_def is_normal_page_def arch.case bit_pos.simps
  by (simp_all only: and_push_bit_one_iff) simp_all

lemma read_table_of:
  assumes "tables_readable W L s"
  shows "read_table W L s (ptedit_get_pfn X86_64 e) buffer = read_bytes (phys s) (table_base e) 4096"
proof -
  have pfn: "ptedit_get_pfn X86_64 e = field 12 40 e"
    by (simp add: ptedit_get_pfn_field pfn_bits_def)
  moreover have "unat (field 12 40 e) < 2 ^ 40" using field_less [of 40 12 e] by simp
  ultimately show ?thesis
    using assms by (simp add: tables_readable_def table_base_def push_bit_eq_mult)
qed

text \<open>Each loop prints its items and adds up their sizes, and leaves the arrays of the levels above
  alone.\<close>

lemma pt_loop:
  assumes "mm_pt st = read_bytes m base 4096"
  shows "let st' = fold (pt_step X86_64 i3 i2 i1) [0..<512] st;
             items = concat (map (pt_items m base i3 i2 i1) [0..<512])
         in mm_pd st' = mm_pd st \<and> mm_pdpt st' = mm_pdpt st
          \<and> mm_out st' = mm_out st @ items \<and> mm_usage st' = mm_usage st + items_size items"
proof -
  let ?I = "\<lambda>x. mm_pt x = read_bytes m base 4096 \<and> mm_pd x = mm_pd st \<and> mm_pdpt x = mm_pdpt st"
  have "?I (pt_step X86_64 i3 i2 i1 i x)
      \<and> mm_out (pt_step X86_64 i3 i2 i1 i x) = mm_out x @ pt_items m base i3 i2 i1 i
      \<and> mm_usage (pt_step X86_64 i3 i2 i1 i x) = mm_usage x + items_size (pt_items m base i3 i2 i1 i)"
    if "?I x" "i \<in> set [0..<512]" for i x
    using that by (simp add: pt_step_def pt_items_def present_bit page_entry_read Let_def)
  from fold_items [of ?I "[0..<512]" "pt_step X86_64 i3 i2 i1" "pt_items m base i3 i2 i1", OF this]
  show ?thesis using assms by (simp add: Let_def items_size_concat comp_def)
qed

lemma pd_loop:
  assumes R: "tables_readable W L s"
  shows "let st' = pd_loop W L s i3 i2 e st;
             items = concat (map (pd_items (phys s) (table_base e) i3 i2) [0..<512])
         in mm_pdpt st' = mm_pdpt st \<and> mm_out st' = mm_out st @ items
          \<and> mm_usage st' = mm_usage st + items_size items"
proof -
  have A: "os_arch W = X86_64" using R by (simp add: tables_readable_def)
  let ?page = "read_bytes (phys s) (table_base e) 4096"
  let ?f = "pd_items (phys s) (table_base e) i3 i2"
  let ?I = "\<lambda>x. mm_pd x = ?page \<and> mm_pdpt x = mm_pdpt st"
  have step: "?I (pd_step W L s i3 i2 i x) \<and> mm_out (pd_step W L s i3 i2 i x) = mm_out x @ ?f i
      \<and> mm_usage (pd_step W L s i3 i2 i x) = mm_usage x + items_size (?f i)"
    if x: "?I x" "i \<in> set [0..<512]" for i x
  proof -
    define d where "d = load64 (phys s) (table_base e + 8 * of_nat i)"
    have d: "page_entry (mm_pd x) i = d" using x by (simp add: page_entry_read d_def)
    define y where "y = x\<lparr>mm_out := mm_out x @ [Dump ''    PD  '' d],
      mm_pt := read_bytes (phys s) (table_base d) 4096\<rparr>"
    note pt = pt_loop [of y "phys s" "table_base d" i3 i2 i]
    show ?thesis
      using x pt unfolding pd_step_def pd_items_def d d_def [symmetric] Let_def
      by (simp add: A present_bit read_table_of [OF R] y_def [symmetric]) (simp add: y_def add.assoc)
  qed
  from fold_items [of ?I "[0..<512]" "pd_step W L s i3 i2" ?f, OF step]
  show ?thesis
    by (simp add: pd_loop_def A read_table_of [OF R] Let_def items_size_concat comp_def)
qed

lemma pdpt_loop:
  assumes R: "tables_readable W L s" and "mm_pdpt st = read_bytes (phys s) base 4096"
  shows "let st' = fold (pdpt_step W L s i3) [0..<512] st;
             items = concat (map (pdpt_items (phys s) base i3) [0..<512])
         in mm_out st' = mm_out st @ items \<and> mm_usage st' = mm_usage st + items_size items"
proof -
  have A: "os_arch W = X86_64" using R by (simp add: tables_readable_def)
  let ?f = "pdpt_items (phys s) base i3"
  let ?I = "\<lambda>x. mm_pdpt x = read_bytes (phys s) base 4096"
  have step: "?I (pdpt_step W L s i3 i x) \<and> mm_out (pdpt_step W L s i3 i x) = mm_out x @ ?f i
      \<and> mm_usage (pdpt_step W L s i3 i x) = mm_usage x + items_size (?f i)"
    if x: "?I x" "i \<in> set [0..<512]" for i x
    using x pd_loop [OF R, of i3 i "load64 (phys s) (base + 8 * of_nat i)"
        "x\<lparr>mm_out := mm_out x @ [Dump ''PDPT'' (load64 (phys s) (base + 8 * of_nat i))]\<rparr>"]
    by (simp add: pdpt_step_def pdpt_items_def A present_bit page_entry_read Let_def)
  from fold_items [of ?I "[0..<512]" "pdpt_step W L s i3" ?f, OF step]
  show ?thesis using assms(2) by (simp add: Let_def items_size_concat comp_def)
qed

lemma pml4_loop:
  assumes R: "tables_readable W L s"
  shows "let st' = fold (pml4_step W L s (read_bytes (phys s) root 4096)) [0..<256] st;
             items = concat (map (pml4_items (phys s) root) [0..<256])
         in mm_out st' = mm_out st @ items \<and> mm_usage st' = mm_usage st + items_size items"
proof -
  have A: "os_arch W = X86_64" using R by (simp add: tables_readable_def)
  let ?f = "pml4_items (phys s) root" and ?step = "pml4_step W L s (read_bytes (phys s) root 4096)"
  have step: "True \<and> mm_out (?step i x) = mm_out x @ ?f i
      \<and> mm_usage (?step i x) = mm_usage x + items_size (?f i)"
    if "True" "i \<in> set [0..<256]" for i x
  proof -
    define e where "e = load64 (phys s) (root + 8 * of_nat i)"
    have e: "page_entry (read_bytes (phys s) root 4096) i = e"
      using that by (simp add: page_entry_read e_def)
    define y where "y = x\<lparr>mm_out := mm_out x @ [Dump [] e], mm_pdpt := read_bytes (phys s) (table_base e) 4096\<rparr>"
    have y: "mm_pdpt y = read_bytes (phys s) (table_base e) 4096" by (simp add: y_def)
    show ?thesis
      using pdpt_loop [OF R y, of i] unfolding pml4_step_def pml4_items_def e e_def [symmetric] Let_def
      by (simp add: A present_bit read_table_of [OF R] y_def [symmetric]) (simp add: y_def)
  qed
  from fold_items [of "\<lambda>_. True" "[0..<256]" ?step ?f, OF step]
  show ?thesis by (simp add: Let_def items_size_concat comp_def)
qed

subsection \<open>Addresses and their indices\<close>

definition join_va :: "u64 \<Rightarrow> u64 \<Rightarrow> u64 \<Rightarrow> u64 \<Rightarrow> u64" where
  "join_va w3 w2 w1 w0 = push_bit 12 w0 OR push_bit 21 w1 OR push_bit 30 w2 OR push_bit 39 w3"

lemma bit_join_va:
  "bit (join_va w3 w2 w1 w0) n \<longleftrightarrow> n < 64 \<and>
     (12 \<le> n \<and> bit w0 (n - 12) \<or> 21 \<le> n \<and> bit w1 (n - 21) \<or> 30 \<le> n \<and> bit w2 (n - 30)
      \<or> 39 \<le> n \<and> bit w3 (n - 39))"
  by (auto simp: join_va_def bit_or_iff bit_push_bit_iff)

definition index9 :: "u64 \<Rightarrow> bool" where
  "index9 w \<longleftrightarrow> unat w < 512"

lemma index9_bit: "index9 w \<Longrightarrow> bit w n \<Longrightarrow> n < 9"
  using small_bits [of w n 9] by (simp add: index9_def)

lemma index9_high [simp]:
  assumes "index9 w"
  shows "\<not> bit w (9 + n)" "\<not> bit w (18 + n)" "\<not> bit w (27 + n)"
  using index9_bit [OF assms] by fastforce+

lemma join_va_fields:
  assumes "index9 w3" "index9 w2" "index9 w1" "index9 w0"
  shows "field 12 9 (join_va w3 w2 w1 w0) = w0" "field 21 9 (join_va w3 w2 w1 w0) = w1"
    "field 30 9 (join_va w3 w2 w1 w0) = w2" "field 39 9 (join_va w3 w2 w1 w0) = w3"
  using assms
  by (auto intro!: bit_eqI simp: bit_field bit_join_va dest: index9_bit)

lemma join_va_small:
  assumes "unat w3 < 256" "index9 w2" "index9 w1" "index9 w0"
  shows "unat (join_va w3 w2 w1 w0) < 2 ^ 47" "take_bit 12 (join_va w3 w2 w1 w0) = 0"
proof -
  have w3: "bit w3 n \<Longrightarrow> n < 8" for n using small_bits [of w3 n 8] assms(1) by simp
  have "take_bit 47 (join_va w3 w2 w1 w0) = join_va w3 w2 w1 w0"
    using assms by (intro bit_eqI) (auto simp: bit_take_bit_iff bit_join_va dest: index9_bit w3)
  then show "unat (join_va w3 w2 w1 w0) < 2 ^ 47"
    by (metis unsigned_take_bit_eq take_bit_nat_less_exp)
  show "take_bit 12 (join_va w3 w2 w1 w0) = 0"
    by (rule bit_eqI) (auto simp: bit_take_bit_iff bit_join_va)
qed

lemma join_va_of_fields:
  assumes "unat a < 2 ^ 47" "take_bit 12 a = 0"
  shows "join_va (field 39 9 a) (field 30 9 a) (field 21 9 a) (field 12 9 a) = a"
proof (rule bit_eqI)
  fix n
  have hi: "bit a n \<Longrightarrow> n < 47" using small_bits [of a n 47] assms(1) by simp
  have lo: "bit a n \<Longrightarrow> 12 \<le> n" using assms(2) by (metis bit_0_eq bit_take_bit_iff bot_apply bot_bool_def not_le)
  show "bit (join_va (field 39 9 a) (field 30 9 a) (field 21 9 a) (field 12 9 a)) n = bit a n"
  proof (cases "12 \<le> n \<and> n < 47")
    case True
    then consider "12 \<le> n" "n < 21" | "21 \<le> n" "n < 30" | "30 \<le> n" "n < 39" | "39 \<le> n" "n < 47"
      by linarith
    then show ?thesis by cases (auto simp: bit_join_va bit_field)
  next
    case False
    with hi lo have "\<not> bit a n" by auto
    then show ?thesis by (auto simp: bit_join_va bit_field)
  qed
qed

lemma index9_field [simp]: "index9 (field off 9 a)"
  using field_less [of 9 off a] by (simp add: index9_def)

lemma index9_of_nat [simp]: "i < 512 \<Longrightarrow> index9 (of_nat i)"
  by (simp add: index9_def unat_of_nat_u64)

lemma page_va_join: "page_va X86_64 i3 i2 i1 i0 = join_va (of_nat i3) (of_nat i2) (of_nat i1) (of_nat i0)"
  by (simp add: page_va_def join_va_def)

lemma large_va_join: "large_va i3 i2 i1 = join_va (of_nat i3) (of_nat i2) (of_nat i1) 0"
  by (simp add: large_va_def join_va_def)

lemma slots_join:
  assumes "index9 w3" "index9 w2" "index9 w1" "index9 w0"
  defines "a \<equiv> join_va w3 w2 w1 w0"
  shows "pgd_slot root a = root + 8 * w3"
    and "pud_slot m root a = table_base (load64 m (pgd_slot root a)) + 8 * w2"
    and "pmd_slot m root a = table_base (load64 m (pud_slot m root a)) + 8 * w1"
    and "pte_slot m root a = table_base (load64 m (pmd_slot m root a)) + 8 * w0"
  using join_va_fields [OF assms(1-4)]
  by (simp_all add: a_def pgd_slot_def pud_slot_def pmd_slot_def pte_slot_def slot_def)

text \<open>What the listing takes for a 4 KiB page and for a 2 MiB page.\<close>

definition page_listed :: "mem \<Rightarrow> u64 \<Rightarrow> u64 \<Rightarrow> bool" where
  "page_listed m root a \<longleftrightarrow> bit (load64 m (pgd_slot root a)) 0 \<and> bit (load64 m (pud_slot m root a)) 0
     \<and> bit (load64 m (pmd_slot m root a)) 0 \<and> \<not> bit (load64 m (pmd_slot m root a)) 7
     \<and> bit (load64 m (pte_slot m root a)) 0"

definition large_listed :: "mem \<Rightarrow> u64 \<Rightarrow> u64 \<Rightarrow> bool" where
  "large_listed m root a \<longleftrightarrow> bit (load64 m (pgd_slot root a)) 0 \<and> bit (load64 m (pud_slot m root a)) 0
     \<and> bit (load64 m (pmd_slot m root a)) 0 \<and> bit (load64 m (pmd_slot m root a)) 7"

lemma Page_in_pt: "Page va \<in> set (pt_items m base i3 i2 i1 i0) \<longleftrightarrow>
    bit (load64 m (base + 8 * of_nat i0)) 0 \<and> va = page_va X86_64 i3 i2 i1 i0"
  by (auto simp: pt_items_def Let_def)

lemma Large_in_pt: "Large va \<notin> set (pt_items m base i3 i2 i1 i0)"
  by (simp add: pt_items_def Let_def)

lemma in_pd:
  fixes m base i1
  defines "e \<equiv> load64 m (base + 8 * of_nat i1)"
  shows "Page va \<in> set (pd_items m base i3 i2 i1) \<longleftrightarrow> bit e 0 \<and> \<not> bit e 7 \<and>
      (\<exists>i0<512. Page va \<in> set (pt_items m (table_base e) i3 i2 i1 i0))"
    and "Large va \<in> set (pd_items m base i3 i2 i1) \<longleftrightarrow> bit e 0 \<and> bit e 7 \<and> va = large_va i3 i2 i1"
  by (auto simp: pd_items_def e_def Let_def Large_in_pt)

lemma in_pdpt:
  fixes m base i2
  defines "e \<equiv> load64 m (base + 8 * of_nat i2)"
  shows "x \<in> {Page va, Large va} \<Longrightarrow> x \<in> set (pdpt_items m base i3 i2) \<longleftrightarrow>
      bit e 0 \<and> (\<exists>i1<512. x \<in> set (pd_items m (table_base e) i3 i2 i1))"
  by (auto simp: pdpt_items_def e_def Let_def)

lemma in_pml4:
  fixes m root i3
  defines "e \<equiv> load64 m (root + 8 * of_nat i3)"
  shows "x \<in> {Page va, Large va} \<Longrightarrow> x \<in> set (pml4_items m root i3) \<longleftrightarrow>
      bit e 0 \<and> (\<exists>i2<512. x \<in> set (pdpt_items m (table_base e) i3 i2))"
  by (auto simp: pml4_items_def e_def Let_def)

lemma index9_0: "index9 0"
  by (simp add: index9_def)

text \<open>The same by indices.\<close>

definition page_at :: "mem \<Rightarrow> u64 \<Rightarrow> nat \<Rightarrow> nat \<Rightarrow> nat \<Rightarrow> nat \<Rightarrow> bool" where
  "page_at m root i3 i2 i1 i0 \<longleftrightarrow>
    (let e3 = load64 m (root + 8 * of_nat i3); e2 = load64 m (table_base e3 + 8 * of_nat i2);
         e1 = load64 m (table_base e2 + 8 * of_nat i1); e0 = load64 m (table_base e1 + 8 * of_nat i0)
     in bit e3 0 \<and> bit e2 0 \<and> bit e1 0 \<and> \<not> bit e1 7 \<and> bit e0 0)"

definition large_at :: "mem \<Rightarrow> u64 \<Rightarrow> nat \<Rightarrow> nat \<Rightarrow> nat \<Rightarrow> bool" where
  "large_at m root i3 i2 i1 \<longleftrightarrow>
    (let e3 = load64 m (root + 8 * of_nat i3); e2 = load64 m (table_base e3 + 8 * of_nat i2);
         e1 = load64 m (table_base e2 + 8 * of_nat i1)
     in bit e3 0 \<and> bit e2 0 \<and> bit e1 0 \<and> bit e1 7)"

lemma page_at_iff:
  assumes "i3 < 512" "i2 < 512" "i1 < 512" "i0 < 512"
  shows "page_listed m root (page_va X86_64 i3 i2 i1 i0) \<longleftrightarrow> page_at m root i3 i2 i1 i0"
  using slots_join [of "of_nat i3" "of_nat i2" "of_nat i1" "of_nat i0"] assms
  by (simp add: page_listed_def page_at_def page_va_join Let_def)

lemma large_at_iff:
  assumes "i3 < 512" "i2 < 512" "i1 < 512"
  shows "large_listed m root (large_va i3 i2 i1) \<longleftrightarrow> large_at m root i3 i2 i1"
  using slots_join [OF _ _ _ index9_0, of "of_nat i3" "of_nat i2" "of_nat i1"] assms
  by (simp add: large_listed_def large_at_def large_va_join Let_def)

lemma items_at:
  "Page va \<in> set (concat (map (pml4_items m root) [0..<256])) \<longleftrightarrow>
     (\<exists>i3<256. \<exists>i2<512. \<exists>i1<512. \<exists>i0<512. page_at m root i3 i2 i1 i0 \<and> va = page_va X86_64 i3 i2 i1 i0)"
  "Large va \<in> set (concat (map (pml4_items m root) [0..<256])) \<longleftrightarrow>
     (\<exists>i3<256. \<exists>i2<512. \<exists>i1<512. large_at m root i3 i2 i1 \<and> va = large_va i3 i2 i1)"
  by (simp_all add: in_pml4 in_pdpt in_pd Page_in_pt page_at_def large_at_def Let_def Bex_def)
    blast+

lemma nat_field: "\<exists>i<512. of_nat i = field off 9 a"
  using field_less [of 9 off a] by (intro exI [of _ "unat (field off 9 a)"]) simp

lemma unsigned_take_bit_less: "unat (take_bit n (a::u64)) < 2 ^ n"
  by (simp add: unsigned_take_bit_eq)

lemma top_index: "unat a < 2 ^ 47 \<Longrightarrow> unat (field 39 9 a) < 256"
proof -
  assume "unat a < 2 ^ 47"
  then have "bit a n \<Longrightarrow> n < 47" for n using small_bits [of a n 47] by simp
  then have "field 39 9 a = take_bit 8 (field 39 9 a)"
    by (intro bit_eqI) (force simp: bit_take_bit_iff bit_field)
  then show ?thesis using unsigned_take_bit_less [of 8 "field 39 9 a"] by simp
qed

lemma fields_of_va:
  assumes "unat a < 2 ^ 47"
  shows "\<exists>i3<256. \<exists>i2<512. \<exists>i1<512. \<exists>i0<512. of_nat i3 = field 39 9 a \<and> of_nat i2 = field 30 9 a
    \<and> of_nat i1 = field 21 9 a \<and> of_nat i0 = field 12 9 a"
proof -
  obtain i2 i1 i0 where "i2 < 512" "i1 < 512" "i0 < 512" "of_nat i2 = field 30 9 a"
      "of_nat i1 = field 21 9 a" "of_nat i0 = field 12 9 a"
    using nat_field by metis
  moreover have "unat (field 39 9 a) < 256" "of_nat (unat (field 39 9 a)) = field 39 9 a"
    using top_index [OF assms] by simp_all
  ultimately show ?thesis by blast
qed

lemma Page_in_items:
  "Page va \<in> set (concat (map (pml4_items m root) [0..<256])) \<longleftrightarrow>
     unat va < 2 ^ 47 \<and> take_bit 12 va = 0 \<and> page_listed m root va" (is "?in \<longleftrightarrow> ?va")
proof
  assume ?in
  then obtain i3 i2 i1 i0 where i: "i3 < 256" "i2 < 512" "i1 < 512" "i0 < 512"
      "page_at m root i3 i2 i1 i0" and va: "va = page_va X86_64 i3 i2 i1 i0"
    unfolding items_at by blast
  then have "page_listed m root va" using page_at_iff by simp
  moreover have "unat va < 2 ^ 47" "take_bit 12 va = 0"
    using join_va_small [of "of_nat i3" "of_nat i2" "of_nat i1" "of_nat i0"] i
    by (simp_all add: va page_va_join unat_of_nat_u64)
  ultimately show ?va by simp
next
  assume va: ?va
  then obtain i3 i2 i1 i0 where i: "i3 < 256" "i2 < 512" "i1 < 512" "i0 < 512" "of_nat i3 = field 39 9 va"
      "of_nat i2 = field 30 9 va" "of_nat i1 = field 21 9 va" "of_nat i0 = field 12 9 va"
    using fields_of_va by blast
  then have "va = page_va X86_64 i3 i2 i1 i0"
    using join_va_of_fields [of va] va by (simp add: page_va_join)
  moreover from this have "page_at m root i3 i2 i1 i0"
    using va i page_at_iff [of i3 i2 i1 i0 m root] by simp
  ultimately show ?in unfolding items_at using i by blast
qed

lemma Large_in_items:
  "Large va \<in> set (concat (map (pml4_items m root) [0..<256])) \<longleftrightarrow>
     unat va < 2 ^ 47 \<and> take_bit 21 va = 0 \<and> large_listed m root va" (is "?in \<longleftrightarrow> ?va")
proof
  assume ?in
  then obtain i3 i2 i1 where i: "i3 < 256" "i2 < 512" "i1 < 512"
      "large_at m root i3 i2 i1" and va: "va = large_va i3 i2 i1"
    unfolding items_at by blast
  then have "large_listed m root va" using large_at_iff by simp
  moreover have "unat va < 2 ^ 47"
    using join_va_small [of "of_nat i3" "of_nat i2" "of_nat i1" 0] i
    by (simp add: va large_va_join unat_of_nat_u64 index9_0)
  moreover have "take_bit 21 va = 0"
    unfolding va large_va_join by (rule bit_eqI) (auto simp: bit_take_bit_iff bit_join_va)
  ultimately show ?va by simp
next
  assume va: ?va
  then obtain i3 i2 i1 where i: "i3 < 256" "i2 < 512" "i1 < 512" "of_nat i3 = field 39 9 va"
      "of_nat i2 = field 30 9 va" "of_nat i1 = field 21 9 va"
    using fields_of_va by blast
  have bits: "\<not> bit (take_bit 21 va) n" for n using va by simp
  have "take_bit 12 va = 0" "field 12 9 va = 0"
    using bits by (auto intro!: bit_eqI simp: bit_take_bit_iff bit_field)
  then have "va = large_va i3 i2 i1"
    using join_va_of_fields [of va] va i by (simp add: large_va_join)
  moreover from this have "large_at m root i3 i2 i1"
    using va i large_at_iff [of i3 i2 i1 m root] by simp
  ultimately show ?in unfolding items_at using i by blast
qed

subsection \<open>The listing is complete and correct\<close>

lemma read_table_log [simp]: "read_table W L (log_events es s) pfn buffer = read_table W L s pfn buffer"
  by (auto simp: read_table_def ptedit_read_physical_page_def lib_ioctl_def Let_def split: ioctl_out.split)

lemma tables_readable_log [simp]: "tables_readable W L (log_events es s) = tables_readable W L s"
  by (simp add: tables_readable_def)

lemma root_pfn:
  fixes root :: u64
  assumes "take_bit 12 root = 0" "unat root < 2 ^ 52"
  shows "root div 4096 * 4096 = root" "unat (root div 4096) < 2 ^ 40"
proof -
  have d: "root div 4096 = drop_bit 12 root" by (simp add: drop_bit_eq_div)
  have "push_bit 12 (drop_bit 12 root) = root" using bits_ident [of 12 root] assms(1) by simp
  then show "root div 4096 * 4096 = root" by (simp add: d push_bit_eq_mult)
  have "unat (root div 4096) = unat root div 4096" by (simp add: unat_div)
  then show "unat (root div 4096) < 2 ^ 40"
    using assms(2) by (simp add: less_mult_imp_div_less)
qed

lemma memmap_dump_items:
  assumes R: "tables_readable W L s" and O: "dev_open W L s"
    and "get_mm (os_kernel W) (int_to_size pid) \<noteq> None"
    and root: "take_bit 12 (kernel_root W pid s) = 0" "unat (kernel_root W pid s) < 2 ^ 52"
  shows "let st = fst (memmap_dump W L pid stack s);
             items = concat (map (pml4_items (phys s) (kernel_root W pid s)) [0..<256])
         in mm_out st = items \<and> mm_usage st = items_size items"
proof -
  obtain es where g: "ptedit_get_paging_root W L pid s = (kernel_root W pid s, log_events es s)"
    using assms(3) by (auto simp: get_paging_root_eq O kernel_root_def)
  let ?s = "log_events es s"
  have "dev_open W L ?s" using O by (simp add: dev_open_def)
  then have ps: "word_of_int (ptedit_get_pagesize W L ?s) = (4096::u64)"
    by (simp add: ptedit_get_pagesize_def lib_ioctl_open real_page_size_def)
  have A: "os_arch W = X86_64" using R by (simp add: tables_readable_def)
  have "read_table W L s (kernel_root W pid s div 4096) stack = read_bytes (phys s) (kernel_root W pid s) 4096"
    using R root_pfn [OF root] by (simp add: tables_readable_def)
  then have "fst (memmap_dump W L pid stack s) =
      fold (pml4_step W L ?s (read_bytes (phys ?s) (kernel_root W pid s) 4096)) [0..<256]
        \<lparr>mm_pdpt = stack, mm_pd = stack, mm_pt = stack, mm_out = [], mm_usage = 0\<rparr>"
    by (simp add: memmap_dump_def g ps A FIRST_LEVEL_ENTRIES_def)
  then show ?thesis
    using pml4_loop [of W L ?s "kernel_root W pid s"
        "\<lparr>mm_pdpt = stack, mm_pd = stack, mm_pt = stack, mm_out = [], mm_usage = 0\<rparr>"] R
    by (simp add: Let_def)
qed

text \<open>No present second-level entry of the lower half maps a 1 GiB page.\<close>

definition no_gib_pages :: "mem \<Rightarrow> u64 \<Rightarrow> bool" where
  "no_gib_pages m root \<longleftrightarrow> (\<forall>a. unat a < 2 ^ 47 \<longrightarrow> bit (load64 m (pgd_slot root a)) 0 \<longrightarrow>
     bit (load64 m (pud_slot m root a)) 0 \<longrightarrow> \<not> bit (load64 m (pud_slot m root a)) 7)"

lemma listed_translate:
  assumes "no_gib_pages m root" "unat a < 2 ^ 47"
  shows "page_listed m root a \<longleftrightarrow> reaches_pte m root a \<and> translate m root a \<noteq> None"
    and "large_listed m root a \<longleftrightarrow> \<not> reaches_pte m root a \<and> translate m root a \<noteq> None"
  using assms unfolding no_gib_pages_def
  by (auto simp: page_listed_def large_listed_def reaches_pte_def translate_def Let_def)

text \<open>
  The listing of \<open>memmap\<close> is complete and correct: without 1 GiB pages, the 4 KiB pages it prints
  are exactly the page addresses of the lower half whose walk reaches the page table and that are
  mapped, the 2 MiB pages exactly the mapped large pages, and the memory usage is the sum of their
  sizes.\<close>

lemma memmap_lists_mappings:
  assumes "tables_readable W L s" "dev_open W L s" "get_mm (os_kernel W) (int_to_size pid) \<noteq> None"
    and "take_bit 12 (kernel_root W pid s) = 0" "unat (kernel_root W pid s) < 2 ^ 52"
    and "no_gib_pages (phys s) (kernel_root W pid s)"
  shows "let st = fst (memmap_dump W L pid stack s); m = phys s; root = kernel_root W pid s in
    (\<forall>va. Page va \<in> set (mm_out st) \<longleftrightarrow>
       unat va < 2 ^ 47 \<and> take_bit 12 va = 0 \<and> reaches_pte m root va \<and> translate m root va \<noteq> None)
  \<and> (\<forall>va. Large va \<in> set (mm_out st) \<longleftrightarrow>
       unat va < 2 ^ 47 \<and> take_bit 21 va = 0 \<and> \<not> reaches_pte m root va \<and> translate m root va \<noteq> None)
  \<and> mm_usage st = items_size (mm_out st)"
proof -
  note d = memmap_dump_items [OF assms(1-5), of stack, unfolded Let_def]
  show ?thesis
    unfolding Let_def d [THEN conjunct1] d [THEN conjunct2] Page_in_items Large_in_items
    using listed_translate [OF assms(6)] by auto
qed

lemma demo_load_aligned:
  assumes "take_bit 3 p = 0"
  shows "load64 demo_mem p =
    (if p = 0x1008 then 0x2067 else if p = 0x2010 then 0x3067 else if p = 0x3018 then 0x4067
     else if p = 0x4020 then 0x5067 else 0)"
proof -
  have z: "load64 (\<lambda>_. 0) p = 0" by (rule bit_eqI) (simp add: bit_load64)
  have al: "take_bit 3 (0x1008::u64) = 0" "take_bit 3 (0x2010::u64) = 0" "take_bit 3 (0x3018::u64) = 0"
      "take_bit 3 (0x4020::u64) = 0" by simp_all
  show ?thesis
    using apart_aligned8 [OF al(1) assms] apart_aligned8 [OF al(2) assms]
      apart_aligned8 [OF al(3) assms] apart_aligned8 [OF al(4) assms]
    by (auto simp: demo_mem_def load64_store64_same load64_store64_apart z apart_def)
qed

definition demo_os_all :: os where
  "demo_os_all = demo_os\<lparr>os_umem_ok := \<lambda>_ _. True\<rparr>"

subsection \<open>Physical addresses\<close>

lemma low_masks: "(a::u64) AND 0xfff = take_bit 12 a" "(a::u64) AND 0x1fffff = take_bit 21 a"
  by (simp_all add: take_bit_eq_mask mask_eq_exp_minus_1)

lemma entry_phys_small:
  "\<not> bit (e_pmd e) 7 \<Longrightarrow> entry_phys X86_64 e a = table_base (e_pte e) OR take_bit 12 a"
  by (simp add: entry_phys_def present_bit low_masks table_base_def ptedit_get_pfn_field pfn_bits_def)

text \<open>A frame number shifted as if it counted 2 MiB frames is right only for frame 0: each group
  of nine bits would have to equal the group above it.\<close>

lemma shifted_frame:
  fixes w :: u64
  shows "push_bit 21 (field 12 40 w) = push_bit 21 (field 21 31 w) \<longleftrightarrow> field 12 40 w = 0"
proof
  assume eq: "push_bit 21 (field 12 40 w) = push_bit 21 (field 21 31 w)"
  have shift: "bit w (n + 12) \<longleftrightarrow> n < 31 \<and> bit w (n + 21)" if "n < 40" for n
  proof -
    have "bit (push_bit 21 (field 12 40 w)) (n + 21) = bit (push_bit 21 (field 21 31 w)) (n + 21)"
      using eq by simp
    then show ?thesis using that by (auto simp: bit_simps bit_field ac_simps)
  qed
  have "\<not> bit w (n + 12)" if "n < 40" for n
    using that
  proof (induction "40 - n" arbitrary: n rule: less_induct)
    case less
    show ?case using less.hyps [of "n + 9"] less.prems shift [of n] by (auto simp: ac_simps)
  qed
  then show "field 12 40 w = 0" by (intro bit_word_eqI) (auto simp: bit_field ac_simps)
next
  assume "field 12 40 w = 0"
  then have "\<not> bit (field 12 40 w) n" for n by simp
  then have "\<not> bit w (n + 12)" if "n < 40" for n using that by (auto simp: bit_field ac_simps)
  from this [of "n + 9" for n] have "field 21 31 w = 0"
    by (intro bit_word_eqI) (auto simp: bit_field ac_simps)
  then show "push_bit 21 (field 12 40 w) = push_bit 21 (field 21 31 w)"
    using \<open>field 12 40 w = 0\<close> by simp
qed

lemma or_low_cancel:
  fixes x y a :: u64
  assumes "x OR take_bit n a = y OR take_bit n a" "take_bit n x = 0" "take_bit n y = 0"
  shows "x = y"
proof (rule bit_word_eqI)
  fix k
  have "bit (x OR take_bit n a) k = bit (y OR take_bit n a) k"
    "bit (take_bit n x) k = bit (take_bit n y) k" using assms by simp_all
  then show "bit x k = bit y k" by (cases "k < n") (simp_all add: bit_simps)
qed

lemma entry_phys_large:
  assumes "bit (e_pmd e) 7"
  shows "entry_phys X86_64 e a = push_bit 21 (field 21 31 (e_pmd e)) OR take_bit 21 a
    \<longleftrightarrow> ptedit_get_pfn X86_64 (e_pmd e) = 0"
  using or_low_cancel [of "push_bit 21 (field 12 40 (e_pmd e))" 21 a "push_bit 21 (field 21 31 (e_pmd e))"]
    shifted_frame [of "e_pmd e"] assms
  by (auto simp: entry_phys_def present_bit low_masks ptedit_get_pfn_field pfn_bits_def take_bit_push_bit)

text \<open>
  The number \<open>virt2phys\<close> prints for a mapped address, from an entry whose lower two levels are those of the tables: on a
  4 KiB page the physical address; for a 2 MiB page the frame number, which counts 4 KiB frames, is shifted by 21
  bits, so that the number is right only for a frame number 0.\<close>

lemma entry_phys_correct:
  assumes "translate m r a = Some pa" "\<not> bit (load64 m (pud_slot m r a)) 7"
    and "e_pmd e = load64 m (pmd_slot m r a)" "reaches_pte m r a \<Longrightarrow> e_pte e = load64 m (pte_slot m r a)"
  shows "entry_phys X86_64 e a = pa \<longleftrightarrow> reaches_pte m r a \<or> ptedit_get_pfn X86_64 (load64 m (pmd_slot m r a)) = 0"
proof (cases "bit (e_pmd e) 7")
  case True
  then show ?thesis
    using entry_phys_large [OF True, of a] assms(1-3)
    by (auto simp: translate_def reaches_pte_def Let_def split: if_splits)
next
  case False
  then have "reaches_pte m r a" using assms(1-3) by (auto simp: translate_def reaches_pte_def Let_def split: if_splits)
  then show ?thesis
    using entry_phys_small [OF False, of a] assms(1,4) by (auto simp: translate_reaches split: if_splits)
qed

lemma virt2phys_correct:
  assumes "user_ready W L a 0 s"
    and "\<not> bit (load64 (phys s) (pud_slot (phys s) (root_of W L 0 s) a)) 7"
    and "translate (phys s) (root_of W L 0 s) a = Some pa"
  shows "\<exists>n es. virt2phys W L a s = Some (n, log_events es s)
    \<and> (n = pa \<longleftrightarrow> reaches_pte (phys s) (root_of W L 0 s) a
         \<or> ptedit_get_pfn X86_64 (load64 (phys s) (pmd_slot (phys s) (root_of W L 0 s) a)) = 0)"
proof -
  let ?m = "phys s" let ?r = "root_of W L 0 s"
  let ?e = "user_entry ?m ?r a (int_to_size 0)"
  have A: "os_arch W = X86_64" using assms(1) by (simp add: user_ready_def)
  have v: "virt2phys W L a s = Some (entry_phys X86_64 ?e a, log_events (root_events W L 0 s) s)"
    by (simp add: virt2phys_def user_resolve [OF assms(1)] A)
  have "bit (load64 ?m (pgd_slot ?r a)) 0" "bit (load64 ?m (pud_slot ?m ?r a)) 0" "bit (load64 ?m (pmd_slot ?m ?r a)) 0"
    using assms(2,3) by (auto simp: translate_def Let_def split: if_splits)
  then have "e_pmd ?e = load64 ?m (pmd_slot ?m ?r a)" "reaches_pte ?m ?r a \<Longrightarrow> e_pte ?e = load64 ?m (pte_slot ?m ?r a)"
    by (simp_all add: user_entry_def reaches_pte_def Let_def)
  from entry_phys_correct [OF assms(3,2) this] show ?thesis using v by blast
qed

lemma virt2phys_kernel:
  assumes "kernel_ready W L a 0 s" "os_arch W = X86_64"
    and "\<not> bit (load64 (phys s) (pud_slot (phys s) (kernel_root W 0 s) a)) 7"
    and "translate (phys s) (kernel_root W 0 s) a = Some pa"
  shows "\<exists>n es. virt2phys W L a s = Some (n, log_events es s)
    \<and> (n = pa \<longleftrightarrow> reaches_pte (phys s) (kernel_root W 0 s) a
         \<or> ptedit_get_pfn X86_64 (load64 (phys s) (pmd_slot (phys s) (kernel_root W 0 s) a)) = 0)"
proof -
  let ?m = "phys s" let ?r = "kernel_root W 0 s"
  let ?e = "resolved_entry ?m ?r (empty_entry a (int_to_size 0))"
  obtain es where "virt2phys W L a s = Some (entry_phys X86_64 ?e a, log_events es s)"
    using kernel_resolve [OF assms(1)] by (auto simp: virt2phys_def assms(2))
  moreover have "bit (load64 ?m (pgd_slot ?r a)) 0" "bit (load64 ?m (pud_slot ?m ?r a)) 0" "bit (load64 ?m (pmd_slot ?m ?r a)) 0"
    using assms(3,4) by (auto simp: translate_def Let_def split: if_splits)
  then have "e_pmd ?e = load64 ?m (pmd_slot ?m ?r a)" "reaches_pte ?m ?r a \<Longrightarrow> e_pte ?e = load64 ?m (pte_slot ?m ?r a)"
    using assms(3) by (simp_all add: resolved_entry_def empty_entry_def walk_valid_bits Let_def)
  from entry_phys_correct [OF assms(4,3) this] show ?thesis using calculation by blast
qed

end
