(* ===== verification/Demos.thy ===== *)
theory Demos
  imports User_Mmap
begin

text \<open>
  Two programs that exercise the whole library: \<open>PTEditor/example.c\<close>, which redirects a page of its own
  process to another frame and back, and \<open>PTEditor/demos/performance.c\<close>, which compares the three
  resolvers.

  The addresses \<open>mmap\<close> returns are arguments, and so is what the kernel's demand paging does to memory
  when a new page is first touched. Messages are left out, except that each comparison that
  ends in \<open>OK!\<close> or \<open>Fail!\<close> is a truth value of the result. The definitions start after \<open>ptedit_init\<close>;
  \<open>Programs\<close> has the programs from their first statement on.
\<close>

subsection \<open>Memory as the process sees it\<close>

definition user_load :: "os \<Rightarrow> u64 \<Rightarrow> kstate \<Rightarrow> u8 option" where
  "user_load W va s = map_option (phys s) (translate (phys s) (kernel_root W 0 s) va)"

definition user_memset :: "os \<Rightarrow> u64 \<Rightarrow> u8 \<Rightarrow> nat \<Rightarrow> kstate \<Rightarrow> kstate option" where
  "user_memset W va c n s =
     map_option (\<lambda>m. s\<lparr>phys := m\<rparr>) (user_write (kernel_root W 0 s) va (replicate n c) (phys s))"

text \<open>The first byte behind \<open>ptedit_pmap\<close>: the mapping shows physical memory, if there is one.\<close>

definition pmap_load :: "os \<Rightarrow> lib \<Rightarrow> u64 \<Rightarrow> u64 \<Rightarrow> kstate \<Rightarrow> u8 option" where
  "pmap_load W L physical len s =
     (let ps = int_to_size (ptedit_pagesize L) in
      if mmap_umem W L (len + physical mod ps) ((physical div ps) * ps) = MAP_FAILED then None
      else Some (phys s physical))"

subsection \<open>\<open>example.c\<close>\<close>

text \<open>From the point where the two frame numbers are known: the entry of \<open>address\<close> gets the frame of
  \<open>target\<close>, and at the end its own again.\<close>

definition example_swap ::
  "os \<Rightarrow> lib \<Rightarrow> u64 \<Rightarrow> ptedit_entry_t \<Rightarrow> u64 \<Rightarrow> u8 list \<Rightarrow> kstate \<Rightarrow> (bool list \<times> kstate) option" where
  "example_swap W L address vm target_pfn page0 s5 =
     do {
       let address_pfn = ptedit_get_pfn (os_arch W) (e_pte vm);
       (_, s6) \<leftarrow> ptedit_update W L address 0
         (vm\<lparr>e_pte := ptedit_set_pfn (os_arch W) (e_pte vm) target_pfn, e_valid := PTEDIT_VALID_MASK_PTE\<rparr>) s5;
       c2 \<leftarrow> user_load W address s6;
       let (page, s7) = ptedit_read_physical_page W L address_pfn page0 s6;
       let pagesize = word_of_int (ptedit_get_pagesize W L s7);
       c4 \<leftarrow> pmap_load W L (address_pfn * pagesize) pagesize s7;
       let s8 = ptedit_write_physical_page W L target_pfn (replicate (unat pagesize) 67) s7;
       let s9 = ptedit_full_serializing_barrier W L s8;
       c5 \<leftarrow> user_load W address s9;
       s10 \<leftarrow> ptedit_pte_set_pfn W L address 0 address_pfn s9;
       Some ([c2 = 66, page ! 0 = 65, c4 = 65, c5 = 67], s10)
     }"

definition example_main ::
  "os \<Rightarrow> lib \<Rightarrow> u64 \<Rightarrow> u64 \<Rightarrow> (mem \<Rightarrow> mem) \<Rightarrow> u8 list \<Rightarrow> kstate \<Rightarrow> (bool list \<times> kstate) option" where
  "example_main W L address target touch page0 s =
     do {
       (vm, s1) \<leftarrow> ptedit_resolve W L address 0 s;
       if e_pgd vm = 0 then Some ([], ptedit_cleanup W L s1)
       else do {
         s2 \<leftarrow> user_memset W address 65 4096 s1;
         s4 \<leftarrow> user_memset W target 66 4096 (s2\<lparr>phys := touch (phys s2)\<rparr>);
         c1 \<leftarrow> user_load W address s4;
         (target_pfn, s5) \<leftarrow> ptedit_pte_get_pfn W L target 0 s4;
         (checks, s10) \<leftarrow> example_swap W L address vm target_pfn page0 s5;
         Some ((c1 = 65) # checks, ptedit_cleanup W L s10)
       }
     }"

subsection \<open>\<open>performance.c\<close>\<close>

text \<open>The differences are collected in an \<open>int\<close>: \<open>diff |= e1->pgd ^ e2->pgd\<close> keeps the low 32 bits.\<close>

definition level_diff :: "ptedit_entry_t \<Rightarrow> ptedit_entry_t \<Rightarrow> u64 \<times> u64 \<times> u64 \<Rightarrow> u32 \<Rightarrow> u32" where
  "level_diff e1 e2 = (\<lambda>(msk, x1, x2) diff.
     if test_mask (e_valid e1) msk \<and> test_mask (e_valid e2) msk
     then size_to_int (int_to_size diff OR (x1 XOR x2)) else diff)"

definition is_same :: "ptedit_entry_t \<Rightarrow> ptedit_entry_t \<Rightarrow> bool" where
  "is_same e1 e2 =
     (fold (level_diff e1 e2)
        [(PTEDIT_VALID_MASK_PGD, e_pgd e1, e_pgd e2), (PTEDIT_VALID_MASK_P4D, e_p4d e1, e_p4d e2),
         (PTEDIT_VALID_MASK_PUD, e_pud e1, e_pud e2), (PTEDIT_VALID_MASK_PMD, e_pmd e1, e_pmd e2),
         (PTEDIT_VALID_MASK_PTE, e_pte e1, e_pte e2)] 0 = 0)"

definition REPEAT :: nat where "REPEAT = 10000"

text \<open>\<open>for(i = 0; i < REPEAT; i++) entry = ptedit_resolve(&target, 0)\<close>, at least once.\<close>

fun resolve_times :: "os \<Rightarrow> lib \<Rightarrow> u64 \<Rightarrow> nat \<Rightarrow> ptedit_entry_t \<Rightarrow> kstate \<Rightarrow> (ptedit_entry_t \<times> kstate) option" where
  "resolve_times W L target 0 entry s = Some (entry, s)"
| "resolve_times W L target (Suc n) entry s =
     do { (entry', s') \<leftarrow> ptedit_resolve W L target 0 s; resolve_times W L target n entry' s' }"

text \<open>Each resolver in turn, and the two comparisons with the kernel's result.\<close>

definition performance_main ::
  "os \<Rightarrow> lib \<Rightarrow> u64 \<Rightarrow> ptedit_entry_t \<Rightarrow> kstate \<Rightarrow> (bool \<times> bool \<times> kstate) option" where
  "performance_main W L target uninit s =
     do {
       let (L1, s1) = ptedit_use_implementation W L PTEDIT_IMPL_KERNEL s;
       (entry, s2) \<leftarrow> resolve_times W L1 target REPEAT uninit s1;
       let (L2, s3) = ptedit_use_implementation W L1 PTEDIT_IMPL_USER s2;
       (entry_us, s4) \<leftarrow> resolve_times W L2 target REPEAT uninit s3;
       let same_map = is_same entry entry_us;
       let (L3, s5) = ptedit_use_implementation W L2 PTEDIT_IMPL_USER_PREAD s4;
       (entry_us', s6) \<leftarrow> resolve_times W L3 target REPEAT entry_us s5;
       Some (same_map, is_same entry entry_us', ptedit_cleanup W L3 s6)
     }"

subsection \<open>Comparing entries\<close>

lemma level_diff_zero:
  "level_diff e1 e2 (msk, x1, x2) d = 0 \<longleftrightarrow>
     d = 0 \<and> (test_mask (e_valid e1) msk \<longrightarrow> test_mask (e_valid e2) msk \<longrightarrow> take_bit 32 x1 = take_bit 32 x2)"
proof -
  have "size_to_int (int_to_size d OR (x1 XOR x2)) = 0 \<longleftrightarrow> d = 0 \<and> take_bit 32 x1 = take_bit 32 x2"
  proof -
    have d: "bit d n \<Longrightarrow> n < 32" for n using bit_imp_le_length [of d n] by simp
    have "bit (size_to_int (int_to_size d OR (x1 XOR x2))) n \<longleftrightarrow> bit d n \<or> n < 32 \<and> bit x1 n \<noteq> bit x2 n" for n
      by (auto simp: bit_size_to_int bit_or_iff bit_xor_iff bit_int_to_size min_def dest: d)
    then have "size_to_int (int_to_size d OR (x1 XOR x2)) = 0 \<longleftrightarrow>
        (\<forall>n. \<not> bit d n) \<and> (\<forall>n<32. bit x1 n = bit x2 n)"
      using d by (auto simp: bit_eq_iff)
    also have "(\<forall>n<32. bit x1 n = bit x2 n) \<longleftrightarrow> take_bit 32 x1 = take_bit 32 x2"
    proof
      assume "take_bit 32 x1 = take_bit 32 x2"
      then have "bit (take_bit 32 x1) n = bit (take_bit 32 x2) n" for n by simp
      then show "\<forall>n<32. bit x1 n = bit x2 n" by (auto simp: bit_take_bit_iff)
    qed (rule bit_eqI, auto simp: bit_take_bit_iff)
    also have "(\<forall>n. \<not> bit d n) \<longleftrightarrow> d = 0" by (auto intro: bit_eqI)
    finally show ?thesis .
  qed
  then show ?thesis by (simp add: level_diff_def)
qed

text \<open>
  \<open>is_same\<close> compares the low 32 bits of the levels both entries have, and nothing else: in the upper
  halves, where the frame number continues and the no-execute bit is, differences go unnoticed.\<close>

lemma is_same_iff:
  "is_same e1 e2 \<longleftrightarrow>
     (\<forall>(k, x1, x2) \<in> {(0, e_pgd e1, e_pgd e2), (1, e_p4d e1, e_p4d e2), (2, e_pud e1, e_pud e2),
         (3, e_pmd e1, e_pmd e2), (4, e_pte e1, e_pte e2)}.
       bit (e_valid e1) k \<and> bit (e_valid e2) k \<longrightarrow> take_bit 32 x1 = take_bit 32 x2)"
  by (auto simp: is_same_def level_diff_zero test_mask_bits)

text \<open>Resolving often gives the same result as resolving once.\<close>

lemma resolve_times_eq:
  assumes "\<And>es. \<exists>es'. ptedit_resolve W L a 0 (log_events es s) = Some (e, log_events es' s)"
  shows "\<exists>es'. resolve_times W L a (Suc n) e0 (log_events es s) = Some (e, log_events es' s)"
proof (induction n arbitrary: e0 es)
  case 0
  then show ?case using assms [of es] by auto
next
  case (Suc n)
  obtain es1 where "ptedit_resolve W L a 0 (log_events es s) = Some (e, log_events es1 s)"
    using assms by blast
  with Suc.IH [of e es1] show ?case by simp
qed

lemma kernel_resolve_log:
  assumes "kernel_ready W L a pid s"
  shows "\<exists>es'. ptedit_resolve W L a pid (log_events es s)
    = Some (resolved_entry (phys s) (kernel_root W pid s) (empty_entry a (int_to_size pid)), log_events es' s)"
proof -
  have "kernel_ready W L a pid (log_events es s)" using assms by (simp add: kernel_ready_def)
  then show ?thesis using kernel_resolve [of W L a pid "log_events es s"] by auto
qed

lemma user_resolve_log:
  assumes "user_ready W L a pid s"
  shows "\<exists>es'. ptedit_resolve W L a pid (log_events es s)
    = Some (user_entry (phys s) (root_of W L pid s) a (int_to_size pid), log_events es' s)"
proof -
  have "user_ready W L a pid (log_events es s)" using assms by (simp add: user_ready_def)
  then show ?thesis using user_resolve [of W L a pid "log_events es s"] by auto
qed

lemma use_implementation_log:
  "\<exists>es'. ptedit_use_implementation W L i (log_events es s)
     = (fst (ptedit_use_implementation W L i s), log_events es' s)"
proof -
  have "\<exists>es'. ptedit_get_paging_root W L' 0 (log_events es s)
      = (fst (ptedit_get_paging_root W L' 0 s), log_events es' s)" for L'
    by (auto simp: get_paging_root_eq split: option.split)
  then obtain f where "\<And>L'. ptedit_get_paging_root W L' 0 (log_events es s)
      = (fst (ptedit_get_paging_root W L' 0 s), log_events (f L') s)"
    by metis
  then show ?thesis
    by (auto simp: ptedit_use_implementation_def Let_def split: prod.split)
qed

lemma entries_same:
  "is_same (resolved_entry m root (empty_entry a pid)) (user_entry m root a pid)"
proof -
  have "bit (5::u64) 0" "\<not> bit (5::u64) (Suc 0)" "bit (5::u64) 2" "\<not> bit (5::u64) 3" "\<not> bit (5::u64) 4"
    "\<not> bit (13::u64) (Suc 0)" "bit (13::u64) 2" "bit (13::u64) 3" "\<not> bit (13::u64) 4"
    "\<not> bit (29::u64) (Suc 0)" "bit (29::u64) 2" "bit (29::u64) 3" "bit (29::u64) 4"
    by simp_all
  then show ?thesis
    by (simp add: is_same_def level_diff_zero test_mask_bits user_entry_def resolved_entry_def Let_def
        empty_entry_def walk_valid_bits)
qed

text \<open>
  \<open>performance.c\<close> finds its three resolvers in agreement: where each of them can walk the tables of the
  address, neither of the two warnings is printed, whatever the tables hold (a page, a large page, or
  nothing).\<close>

lemma performance_agrees:
  assumes "kernel_ready W L1 target 0 s" "user_ready W L2 target 0 s" "user_ready W L3 target 0 s"
    and "L1 = fst (ptedit_use_implementation W L PTEDIT_IMPL_KERNEL s)"
      "L2 = fst (ptedit_use_implementation W L1 PTEDIT_IMPL_USER s)"
      "L3 = fst (ptedit_use_implementation W L2 PTEDIT_IMPL_USER_PREAD s)"
  shows "\<exists>s'. performance_main W L target uninit s = Some (True, True, s')"
proof -
  have z: "int_to_size 0 = 0" by (simp add: int_to_size_def)
  have o: "dev_open W L1 s" "get_mm (os_kernel W) 0 \<noteq> None" "take_bit 12 (kernel_root W 0 s) = 0"
    using assms(1) by (auto simp: kernel_ready_def regular_walk_def Let_def z)
  have even: "kernel_root W 0 s AND NOT 1 = kernel_root W 0 s"
  proof (rule bit_word_eqI)
    fix n
    have "\<not> bit (take_bit 12 (kernel_root W 0 s)) 0" using o(3) by simp
    then show "bit (kernel_root W 0 s AND NOT 1) n = bit (kernel_root W 0 s) n"
      using bit_u64_bound [of "kernel_root W 0 s" n] by (cases n) (auto simp: bit_simps)
  qed
  have "dev_open W L2 s"
    using o(1) by (simp add: assms(5) ptedit_use_implementation_def dev_open_def PTEDIT_IMPL_KERNEL_def
        PTEDIT_IMPL_USER_PREAD_def PTEDIT_IMPL_USER_def Let_def split: prod.split)
  then have root: "root_of W L2 0 s = kernel_root W 0 s" "root_of W L3 0 s = kernel_root W 0 s"
    using o(1,2) even
    by (auto simp: assms(5,6) ptedit_use_implementation_def root_of_def kernel_root_def dev_open_def
        PTEDIT_IMPL_KERNEL_def PTEDIT_IMPL_USER_PREAD_def PTEDIT_IMPL_USER_def get_paging_root_eq z Let_def
        split: prod.split)
  let ?k = "resolved_entry (phys s) (kernel_root W 0 s) (empty_entry target 0)"
  let ?u = "user_entry (phys s) (kernel_root W 0 s) target 0"
  obtain n where n: "REPEAT = Suc n" by (cases REPEAT) (simp_all add: REPEAT_def)
  have s: "s = log_events [] s" by simp
  obtain e1 where 1: "ptedit_use_implementation W L PTEDIT_IMPL_KERNEL s = (L1, log_events e1 s)"
    using use_implementation_log [of W L PTEDIT_IMPL_KERNEL "[]" s] assms(4) by auto
  obtain e2 where 2: "resolve_times W L1 target REPEAT uninit (log_events e1 s) = Some (?k, log_events e2 s)"
    using resolve_times_eq [OF kernel_resolve_log [OF assms(1)], of n] by (auto simp: n z)
  obtain e3 where 3: "ptedit_use_implementation W L1 PTEDIT_IMPL_USER (log_events e2 s) = (L2, log_events e3 s)"
    using use_implementation_log [of W L1 PTEDIT_IMPL_USER e2 s] assms(5) by auto
  obtain e4 where 4: "resolve_times W L2 target REPEAT uninit (log_events e3 s) = Some (?u, log_events e4 s)"
    using resolve_times_eq [OF user_resolve_log [OF assms(2)], of n] by (auto simp: n z root)
  obtain e5 where 5: "ptedit_use_implementation W L2 PTEDIT_IMPL_USER_PREAD (log_events e4 s) = (L3, log_events e5 s)"
    using use_implementation_log [of W L2 PTEDIT_IMPL_USER_PREAD e4 s] assms(6) by auto
  obtain e6 where 6: "resolve_times W L3 target REPEAT ?u (log_events e5 s) = Some (?u, log_events e6 s)"
    using resolve_times_eq [OF user_resolve_log [OF assms(3)], of n] by (auto simp: n z root)
  show ?thesis
    by (simp add: performance_main_def 1 2 3 4 5 6 entries_same)
qed

subsection \<open>Pages\<close>

text \<open>The page at \<open>a\<close> is mapped, by a 4 KiB entry, to the frame at \<open>f\<close>.\<close>

definition maps_page :: "mem \<Rightarrow> u64 \<Rightarrow> u64 \<Rightarrow> u64 \<Rightarrow> bool" where
  "maps_page m root a f \<longleftrightarrow> take_bit 12 a = 0 \<and> reaches_pte m root a
     \<and> bit (load64 m (pte_slot m root a)) 0 \<and> table_base (load64 m (pte_slot m root a)) = f"

lemma maps_page_translate: "maps_page m root a f \<Longrightarrow> translate m root a = Some f"
  by (simp add: maps_page_def translate_reaches)

lemma maps_page_write:
  assumes "frame_apart f' m root a" "length bs \<le> 4096"
  shows "maps_page (write_bytes m f' bs) root a f = maps_page m root a f"
    "frame_apart x (write_bytes m f' bs) root a = frame_apart x m root a"
  unfolding maps_page_def frame_apart_def walk_write_bytes [OF assms] walk_write_bytes_preds [OF assms]
  by simp_all

lemma user_memset_page:
  assumes "maps_page (phys s) (kernel_root W 0 s) a f" "frame_apart f (phys s) (kernel_root W 0 s) a"
  shows "user_memset W a c 4096 s = Some (s\<lparr>phys := write_bytes (phys s) f (replicate 4096 c)\<rparr>)"
  using assms user_write_page [of a "phys s" "kernel_root W 0 s" "replicate 4096 c"]
  by (simp add: user_memset_def maps_page_def)

lemma frame_aligned: "maps_page m root a f \<Longrightarrow> take_bit 12 f = 0"
  by (auto simp: maps_page_def)

lemma read_page_other:
  assumes "take_bit 12 f = 0" "take_bit 12 f' = 0" "f \<noteq> f'" "length bs = 4096"
  shows "read_bytes (write_bytes m f bs) f' 4096 = read_bytes m f' 4096"
  using read_write_bytes_apart [of f bs f' 4096 m] apart_blocks [OF assms(1-3)] assms(4) by simp

lemma first_byte: "0 < n \<Longrightarrow> read_bytes m f n = replicate n c \<Longrightarrow> m f = c"
  using nth_read_bytes [of 0 n m f] by simp

lemma maps_page_store:
  fixes v :: u64
  assumes "maps_page m root a f" "pte_separate m root a" "bit v 0"
  defines "m' \<equiv> store64 m (pte_slot m root a) v"
  shows "maps_page m' root a (table_base v)" "pte_slot m' root a = pte_slot m root a"
    "load64 m' (pte_slot m root a) = v" "pte_separate m' root a"
    "frame_apart x m' root a = frame_apart x m root a"
proof -
  note w = write_pte [OF assms(2), of v]
  show "maps_page m' root a (table_base v)"
    using assms(1,3) w by (simp add: maps_page_def m'_def)
  show "pte_slot m' root a = pte_slot m root a" "load64 m' (pte_slot m root a) = v"
    using w by (simp_all add: m'_def)
  show "pte_separate m' root a" "frame_apart x m' root a = frame_apart x m root a"
    using assms(2) w(1,4) by (simp_all add: pte_separate_def frame_apart_def walk_slots_def m'_def)
qed

text \<open>Readiness of the kernel-backed library depends on the walk alone.\<close>

lemma kernel_ready_write:
  assumes "kernel_ready W L a 0 s" "frame_apart f (phys s) (kernel_root W 0 s) a" "length bs \<le> 4096"
  shows "kernel_ready W L a 0 (s\<lparr>phys := write_bytes (phys s) f bs\<rparr>)"
  using assms(1) walk_write_bytes [OF assms(2,3)]
  by (simp add: kernel_ready_def regular_walk_def dev_open_def Let_def)

lemma kernel_ready_store:
  assumes "kernel_ready W L a 0 s" "pte_separate (phys s) (kernel_root W 0 s) a"
  shows "kernel_ready W L a 0 (s\<lparr>phys := store64 (phys s) (pte_slot (phys s) (kernel_root W 0 s) a) v\<rparr>)"
  using assms by (simp add: kernel_ready_def regular_walk_write_pte dev_open_def)

text \<open>Physical pages through the library.\<close>

definition phys_page_ok :: "os \<Rightarrow> lib \<Rightarrow> u64 \<Rightarrow> kstate \<Rightarrow> bool" where
  "phys_page_ok W L pfn s \<longleftrightarrow> ptedit_pagesize L = 4096
     \<and> (if 0 < ptedit_umem L then umem_ok W L (pfn * 4096) 4096
        else dev_open W L s \<and> linux_paging (os_kernel W) \<and> direct (pfn * 4096))"

lemma physical_page_eqs:
  assumes "phys_page_ok W L pfn s"
  shows "ptedit_read_physical_page W L pfn buffer s = (read_bytes (phys s) (pfn * 4096) 4096, s)"
    and "length content = 4096 \<Longrightarrow>
      ptedit_write_physical_page W L pfn content s = s\<lparr>phys := write_bytes (phys s) (pfn * 4096) content\<rparr>"
proof -
  have ps: "int_to_size (4096::u32) = 4096" "unat (4096::u32) = 4096" by (simp_all add: int_to_size_def)
  have a: "page_address (os_kernel W) pfn = pfn * 4096" if "\<not> 0 < ptedit_umem L"
    using assms that linux_paging.direct_map by (simp add: page_address_def phys_page_ok_def)
  show "ptedit_read_physical_page W L pfn buffer s = (read_bytes (phys s) (pfn * 4096) 4096, s)"
    using assms a by (auto simp: phys_page_ok_def ptedit_read_physical_page_def ps lib_ioctl_open Let_def)
  show "length content = 4096 \<Longrightarrow>
      ptedit_write_physical_page W L pfn content s = s\<lparr>phys := write_bytes (phys s) (pfn * 4096) content\<rparr>"
    using assms a by (auto simp: phys_page_ok_def ptedit_write_physical_page_def ps lib_ioctl_open Let_def)
qed

subsection \<open>The example\<close>

text \<open>The barrier reloads the root the process has.\<close>

lemma barrier_state:
  assumes "kernel_ready W L a 0 s"
  shows "\<exists>es pg. ptedit_full_serializing_barrier W L s = log_events es (s\<lparr>mm_pgd := pg\<rparr>)
    \<and> (\<forall>mm. k_virt_to_phys (os_kernel W) (pg mm) = k_virt_to_phys (os_kernel W) (mm_pgd s mm))"
proof -
  have z: "int_to_size 0 = 0" by (simp add: int_to_size_def)
  have k: "linux_paging (os_kernel W)" "dev_open W L s" using assms by (simp_all add: kernel_ready_def)
  obtain mm where mm: "get_mm (os_kernel W) 0 = Some mm" using assms by (auto simp: kernel_ready_def z)
  have "direct (k_virt_to_phys (os_kernel W) (mm_pgd s mm))"
    using assms mm by (simp add: kernel_ready_def regular_walk_def kernel_root_def z Let_def)
  note dm = linux_paging.direct_map [OF k(1) this]
  let ?pg = "(mm_pgd s)(mm := k_phys_to_virt (os_kernel W) (k_virt_to_phys (os_kernel W) (mm_pgd s mm)))"
  have "\<exists>es. ptedit_full_serializing_barrier W L s = log_events es (s\<lparr>mm_pgd := ?pg\<rparr>)"
    by (auto simp: ptedit_full_serializing_barrier_def get_paging_root_eq k(2) z mm
        ptedit_set_paging_root_def lib_ioctl_open set_root_eq Let_def intro: exI [of _ "[]"])
  then obtain es where "ptedit_full_serializing_barrier W L s = log_events es (s\<lparr>mm_pgd := ?pg\<rparr>)" ..
  then show ?thesis by (intro exI [of _ es] exI [of _ ?pg]) (simp add: dm)
qed

lemma kernel_ready_pgd:
  assumes "\<forall>mm. k_virt_to_phys (os_kernel W) (pg mm) = k_virt_to_phys (os_kernel W) (mm_pgd s mm)"
  shows "kernel_root W pid (s\<lparr>mm_pgd := pg\<rparr>) = kernel_root W pid s"
    "kernel_ready W L a pid (s\<lparr>mm_pgd := pg\<rparr>) = kernel_ready W L a pid s"
proof -
  show r: "kernel_root W pid (s\<lparr>mm_pgd := pg\<rparr>) = kernel_root W pid s"
    using assms by (simp add: kernel_root_def split: option.split)
  show "kernel_ready W L a pid (s\<lparr>mm_pgd := pg\<rparr>) = kernel_ready W L a pid s"
    by (simp add: kernel_ready_def r dev_open_def)
qed

lemma kernel_resolve_page:
  assumes "kernel_ready W L a 0 s" "maps_page (phys s) (kernel_root W 0 s) a f"
  shows "\<exists>e es. ptedit_resolve W L a 0 s = Some (e, log_events es s) \<and> e_pgd e \<noteq> 0
    \<and> e_pte e = load64 (phys s) (pte_slot (phys s) (kernel_root W 0 s) a) \<and> bit (e_valid e) 4"
proof -
  have "bit (load64 (phys s) (pgd_slot (kernel_root W 0 s) a)) 0"
    using assms(2) by (simp add: maps_page_def reaches_pte_def)
  then have "load64 (phys s) (pgd_slot (kernel_root W 0 s) a) \<noteq> 0" by auto
  then show ?thesis
    using kernel_resolve [OF assms(1)] assms(2)
    by (auto simp: resolved_entry_def Let_def walk_valid_bits empty_entry_def maps_page_def reaches_pte_def)
qed

text \<open>The tables and frames of the example: \<open>address\<close> is mapped to the frame \<open>fa\<close>; after the kernel has
  mapped \<open>target\<close>, to the frame \<open>ft\<close>, the page of \<open>address\<close> is as before; no frame holds a table.\<close>

definition example_ready ::
  "os \<Rightarrow> lib \<Rightarrow> u64 \<Rightarrow> u64 \<Rightarrow> u64 \<Rightarrow> u64 \<Rightarrow> (mem \<Rightarrow> mem) \<Rightarrow> kstate \<Rightarrow> bool" where
  "example_ready W L address target fa ft touch s \<longleftrightarrow>
     (let r = kernel_root W 0 s; m = phys s;
          M = touch (write_bytes m fa (replicate 4096 65))
      in os_arch W = X86_64 \<and> kernel_ready W L address 0 s
       \<and> maps_page m r address fa \<and> frame_apart fa m r address
       \<and> kernel_ready W L address 0 (s\<lparr>phys := M\<rparr>) \<and> kernel_ready W L target 0 (s\<lparr>phys := M\<rparr>)
       \<and> maps_page M r address fa \<and> load64 M (pte_slot M r address) = load64 m (pte_slot m r address)
       \<and> read_bytes M fa 4096 = replicate 4096 65
       \<and> maps_page M r target ft \<and> fa \<noteq> ft \<and> pte_separate M r address
       \<and> frame_apart fa M r address \<and> frame_apart ft M r address \<and> frame_apart ft M r target
       \<and> (\<forall>pfn. pfn * 4096 \<in> {fa, ft} \<longrightarrow> phys_page_ok W L pfn s)
       \<and> mmap_umem W L 4096 fa \<noteq> MAP_FAILED)"

lemma set_pfn_frame:
  fixes e :: u64
  assumes "unat p < 2 ^ 40" "bit e 0"
  shows "table_base (ptedit_set_pfn X86_64 e p) = push_bit 12 p" "bit (ptedit_set_pfn X86_64 e p) 0"
proof -
  have b: "unat p < 2 ^ pfn_bits X86_64" using assms(1) by (simp add: pfn_bits_def)
  have "table_base x = push_bit 12 (ptedit_get_pfn X86_64 x)" for x
    by (simp add: table_base_def ptedit_get_pfn_field pfn_bits_def)
  then show "table_base (ptedit_set_pfn X86_64 e p) = push_bit 12 p" by (simp add: get_pfn_set_pfn [OF b])
  show "bit (ptedit_set_pfn X86_64 e p) 0" using set_pfn_keeps [OF b, of 0 e] assms(2) by simp
qed

lemma pfn_frame:
  "push_bit 12 (ptedit_get_pfn X86_64 e) = table_base e" "unat (ptedit_get_pfn X86_64 e) < 2 ^ 40"
  "ptedit_get_pfn X86_64 e * 4096 = table_base e"
  using field_less [of 40 12 e]
  by (simp_all add: table_base_def ptedit_get_pfn_field pfn_bits_def push_bit_eq_mult mult.commute)

text \<open>The memories of the second half: the entry at \<open>x\<close> redirected, the frame \<open>ft\<close> overwritten, the entry
  restored.\<close>

lemma swap_memories:
  fixes m :: mem and r v v0 x fa ft address :: u64
  defines "x \<equiv> pte_slot m r address"
  defines "m6 \<equiv> store64 m x v"
  defines "m8 \<equiv> write_bytes m6 ft (replicate 4096 67)"
  defines "m10 \<equiv> store64 m8 x v0"
  assumes a: "maps_page m r address fa" "load64 m x = v0" "pte_separate m r address"
    and ap: "frame_apart fa m r address" "frame_apart ft m r address"
    and v: "bit v 0" "table_base v = ft" "fa \<noteq> ft"
    and c: "read_bytes m fa 4096 = replicate 4096 65" "read_bytes m ft 4096 = replicate 4096 66"
  shows "maps_page m6 r address ft" "pte_separate m6 r address" "frame_apart ft m6 r address"
    "read_bytes m6 fa 4096 = replicate 4096 65" "read_bytes m6 ft 4096 = replicate 4096 66"
    "maps_page m8 r address ft" "pte_separate m8 r address" "pte_slot m8 r address = x" "load64 m8 x = v"
    "read_bytes m8 ft 4096 = replicate 4096 67"
    "maps_page m10 r address fa"
    "read_bytes m10 fa 4096 = replicate 4096 65" "read_bytes m10 ft 4096 = replicate 4096 67"
proof -
  have v0: "table_base v0 = fa" "bit v0 0" using a(1,2) by (auto simp: maps_page_def x_def)
  have al: "take_bit 12 fa = 0" "take_bit 12 ft = 0" using v0(1) v(2) by auto
  have apx: "apart x 8 fa 4096" "apart x 8 ft 4096"
    using ap by (auto simp: frame_apart_def walk_slots_def x_def intro: apart_sym [THEN iffD1])
  note w6 = maps_page_store [OF a(1,3) v(1), folded x_def, folded m6_def]
  show 6: "maps_page m6 r address ft" "pte_separate m6 r address" "frame_apart ft m6 r address"
    using w6 v(2) ap(2) by simp_all
  show c6: "read_bytes m6 fa 4096 = replicate 4096 65" "read_bytes m6 ft 4096 = replicate 4096 66"
    using c apx by (simp_all add: m6_def read_bytes_store64_apart)
  have len: "length (replicate 4096 (67::u8)) \<le> 4096" by simp
  show 8: "maps_page m8 r address ft" "pte_separate m8 r address" "pte_slot m8 r address = x" "load64 m8 x = v"
    using maps_page_write(1) [OF 6(3) len] walk_write_bytes(3,7) [OF 6(3) len] 6(1,2) w6(2,3)
      walk_write_bytes_preds(5) [OF 6(3) len] by (simp_all add: m8_def)
  have c8: "read_bytes m8 fa 4096 = replicate 4096 65"
    using read_page_other [OF al(2,1)] v(3) c6(1) by (simp add: m8_def)
  show c8': "read_bytes m8 ft 4096 = replicate 4096 67"
    using read_write_bytes_same [of "replicate 4096 67" m6 ft] by (simp add: m8_def)
  show "maps_page m10 r address fa"
    using maps_page_store(1) [OF 8(1,2) v0(2)] v0(1) 8(3) by (simp add: m10_def)
  show "read_bytes m10 fa 4096 = replicate 4096 65" "read_bytes m10 ft 4096 = replicate 4096 67"
    using c8 c8' apx by (simp_all add: m10_def read_bytes_store64_apart)
qed

lemma pmap_load_frame:
  assumes "ptedit_pagesize L = 4096" "take_bit 12 f = 0" "mmap_umem W L 4096 f \<noteq> MAP_FAILED"
  shows "pmap_load W L f 4096 s = Some (phys s f)"
proof -
  have "f mod 4096 = 0" using assms(2) by (simp add: take_bit_eq_mod)
  moreover from this have "f div 4096 * 4096 = f" by (metis add.right_neutral div_mult_mod_eq)
  ultimately show ?thesis using assms(1,3) by (simp add: pmap_load_def int_to_size_def Let_def)
qed

lemma user_load_page:
  "maps_page (phys s) (kernel_root W 0 s) a f \<Longrightarrow> read_bytes (phys s) f 4096 = replicate 4096 c \<Longrightarrow>
   user_load W a s = Some c"
  using first_byte [of 4096 "phys s" f c] by (simp add: user_load_def maps_page_translate)

text \<open>The end of the program: the barrier, the content of \<open>target\<close> at \<open>address\<close>, and the entry restored.\<close>

lemma swap_restore:
  fixes W :: os and s :: kstate and v v0 ft q :: u64
  defines "m \<equiv> phys s" and "r \<equiv> kernel_root W 0 s"
  assumes arch: "os_arch W = X86_64" and k: "kernel_ready W L address 0 s"
    and a: "maps_page m r address ft" "load64 m (pte_slot m r address) = v" "ptedit_set_pfn X86_64 v q = v0"
    and c: "read_bytes m ft 4096 = replicate 4096 67"
  shows "\<exists>s9 s'. ptedit_full_serializing_barrier W L s = s9 \<and> user_load W address s9 = Some 67
    \<and> ptedit_pte_set_pfn W L address 0 q s9 = Some s' \<and> phys s' = store64 m (pte_slot m r address) v0"
proof -
  obtain es9 pg where bar: "ptedit_full_serializing_barrier W L s = log_events es9 (s\<lparr>mm_pgd := pg\<rparr>)"
    and pg: "\<forall>mm. k_virt_to_phys (os_kernel W) (pg mm) = k_virt_to_phys (os_kernel W) (mm_pgd s mm)"
    using barrier_state [OF k] by blast
  let ?s9 = "log_events es9 (s\<lparr>mm_pgd := pg\<rparr>)"
  have r9: "kernel_root W 0 ?s9 = r" "kernel_ready W L address 0 ?s9"
    using kernel_ready_pgd [OF pg] k by (simp_all add: r_def kernel_ready_def dev_open_def)
  have c5: "user_load W address ?s9 = Some 67"
    using user_load_page [of ?s9 W address ft 67] a(1) c r9(1) by (simp add: m_def)
  have pr: "pte_ready W L address 0 ?s9" "pte_root W L 0 ?s9 = r"
    using r9 kernel_ready_pte_root [OF r9(2)] by (simp_all add: pte_ready_def)
  have reach: "reaches_pte (phys ?s9) (pte_root W L 0 ?s9) address"
    unfolding pr(2) using a(1) by (simp add: maps_page_def m_def)
  obtain es10 where "ptedit_pte_set_pfn W L address 0 q ?s9
      = Some (log_events es10 (?s9\<lparr>phys := store64 m (pte_slot m r address) v0\<rparr>))"
    using selected.set_pfn [OF pr(1) reach, of q, unfolded pr(2)] a(2,3) by (auto simp: arch m_def)
  then show ?thesis using bar c5 by simp
qed

text \<open>The second half, on a state in which the pages are filled.\<close>

lemma example_swap_succeeds:
  fixes W :: os and s :: kstate and v0 p fa ft :: u64
  defines "m \<equiv> phys s" and "r \<equiv> kernel_root W 0 s" and "q \<equiv> ptedit_get_pfn X86_64 v0"
  assumes arch: "os_arch W = X86_64" and k: "kernel_ready W L address 0 s"
    and a: "maps_page m r address fa" "load64 m (pte_slot m r address) = v0" "pte_separate m r address"
    and ap: "frame_apart fa m r address" "frame_apart ft m r address"
    and f: "push_bit 12 p = ft" "unat p < 2 ^ 40" "fa \<noteq> ft"
    and c: "read_bytes m fa 4096 = replicate 4096 65" "read_bytes m ft 4096 = replicate 4096 66"
    and ok: "phys_page_ok W L q s" "phys_page_ok W L p s" "mmap_umem W L 4096 fa \<noteq> MAP_FAILED"
    and e: "e_pte e = v0"
  shows "\<exists>s'. example_swap W L address e p page0 s = Some ([True, True, True, True], s')
    \<and> translate (phys s') r address = Some fa
    \<and> read_bytes (phys s') fa 4096 = replicate 4096 65
    \<and> read_bytes (phys s') ft 4096 = replicate 4096 67"
proof -
  define v where "v = ptedit_set_pfn X86_64 v0 p"
  have v0: "table_base v0 = fa" "bit v0 0" using a(1,2) by (auto simp: maps_page_def)
  have q: "q * 4096 = fa" "p * 4096 = ft"
    using v0(1) pfn_frame(3) [of v0] f(1) by (simp_all add: q_def push_bit_eq_mult mult.commute)
  have v: "bit v 0" "table_base v = ft" using set_pfn_frame [OF f(2) v0(2)] f(1) by (simp_all add: v_def)
  define x where "x = pte_slot m r address"
  define m6 where "m6 = store64 m x v"
  define m8 where "m8 = write_bytes m6 ft (replicate 4096 67)"
  note mem = swap_memories [OF a ap v f(3) c, folded x_def, folded m6_def, folded m8_def]
  have okS: "phys_page_ok W L n (log_events es (s\<lparr>phys := m'\<rparr>)) = phys_page_ok W L n s" for n es m'
    by (simp add: phys_page_ok_def dev_open_def)
  obtain es where s6: "ptedit_update W L address 0 (e\<lparr>e_pte := v, e_valid := PTEDIT_VALID_MASK_PTE\<rparr>) s
      = Some (e\<lparr>e_pte := v, e_valid := PTEDIT_VALID_MASK_PTE, e_vaddr := address, e_pid := int_to_size 0\<rparr>,
              log_events es (s\<lparr>phys := m6\<rparr>))"
    using kernel_update [OF k, of "e\<lparr>e_pte := v, e_valid := PTEDIT_VALID_MASK_PTE\<rparr>"] a(1)
    by (auto simp: maps_page_def m6_def x_def m_def r_def)
  let ?s6 = "log_events es (s\<lparr>phys := m6\<rparr>)" and ?s8 = "log_events es (s\<lparr>phys := m8\<rparr>)"
  have c2: "user_load W address ?s6 = Some 66"
    using user_load_page [of ?s6 W address ft 66] mem(1,5) by (simp add: r_def)
  have rd: "ptedit_read_physical_page W L q page0 ?s6 = (replicate 4096 65, ?s6)"
    using physical_page_eqs(1) [of W L q ?s6 page0] ok(1) mem(4) by (simp add: okS q)
  have ps: "ptedit_get_pagesize W L ?s6 = 4096"
    using k by (simp add: ptedit_get_pagesize_def kernel_ready_def lib_ioctl_open dev_open_def real_page_size_def lib_ioctl_def)
  have "take_bit 12 fa = 0" using v0(1) by auto
  then have c4: "pmap_load W L (q * 4096) 4096 ?s6 = Some 65"
    using pmap_load_frame [of L fa W ?s6] ok(1,3) first_byte [OF _ mem(4)] by (simp add: q phys_page_ok_def)
  have wr: "ptedit_write_physical_page W L p (replicate 4096 67) ?s6 = ?s8"
    using physical_page_eqs(2) [of W L p ?s6 "replicate 4096 67"] ok(2) by (simp add: okS q m8_def)
  have k6: "kernel_ready W L address 0 (s\<lparr>phys := m6\<rparr>)"
    using kernel_ready_store [OF k] a(3) by (simp add: m6_def x_def m_def r_def)
  have k8: "kernel_ready W L address 0 ?s8"
    using kernel_ready_write [OF k6, of ft "replicate 4096 67"] mem(3)
    by (simp add: m8_def r_def kernel_ready_def dev_open_def)
  have "ptedit_set_pfn X86_64 v q = v0"
    using f(2) by (simp add: v_def q_def set_pfn_set_pfn set_pfn_get_pfn pfn_bits_def)
  then obtain s9 s' where "ptedit_full_serializing_barrier W L ?s8 = s9" "user_load W address s9 = Some 67"
      "ptedit_pte_set_pfn W L address 0 q s9 = Some s'" "phys s' = store64 m8 x v0"
    using swap_restore [OF arch k8, of ft v q v0] mem(6,8-10) by (auto simp: r_def)
  then show ?thesis
    using e mem(11-13) s6 c2 rd ps c4 wr
    by (simp add: example_swap_def arch q_def [symmetric] v_def [symmetric] maps_page_translate)
qed

text \<open>Filling the page of \<open>target\<close> keeps the page of \<open>address\<close>.\<close>

lemma fill_memory:
  fixes M :: mem and r address target fa ft :: u64
  defines "m4 \<equiv> write_bytes M ft (replicate 4096 66)"
  assumes a: "maps_page M r address fa" "read_bytes M fa 4096 = replicate 4096 65" "pte_separate M r address"
    and t: "maps_page M r target ft" "fa \<noteq> ft"
    and ap: "frame_apart fa M r address" "frame_apart ft M r address" "frame_apart ft M r target"
  shows "maps_page m4 r address fa" "load64 m4 (pte_slot m4 r address) = load64 M (pte_slot M r address)"
    "pte_separate m4 r address" "frame_apart fa m4 r address" "frame_apart ft m4 r address"
    "maps_page m4 r target ft"
    "read_bytes m4 fa 4096 = replicate 4096 65" "read_bytes m4 ft 4096 = replicate 4096 66"
proof -
  have len: "length (replicate 4096 (66::u8)) \<le> 4096" by simp
  show "maps_page m4 r address fa" "load64 m4 (pte_slot m4 r address) = load64 M (pte_slot M r address)"
      "pte_separate m4 r address" "frame_apart fa m4 r address" "frame_apart ft m4 r address"
    using maps_page_write [OF ap(2) len] a(1,3) ap walk_write_bytes [OF ap(2) len]
      walk_write_bytes_preds(5) [OF ap(2) len] by (simp_all add: m4_def)
  show "maps_page m4 r target ft" using maps_page_write(1) [OF ap(3) len] t(1) by (simp add: m4_def)
  show "read_bytes m4 fa 4096 = replicate 4096 65" "read_bytes m4 ft 4096 = replicate 4096 66"
    using read_page_other [of ft fa "replicate 4096 66" M] frame_aligned [OF t(1)] frame_aligned [OF a(1)]
      t(2) a(2) read_write_bytes_same [of "replicate 4096 66" M ft]
    by (simp_all add: m4_def)
qed

text \<open>The frame number of a mapped page, by the library.\<close>

lemma get_pfn_page:
  assumes arch: "os_arch W = X86_64" and k: "kernel_ready W L a 0 s"
    and f: "maps_page (phys s) (kernel_root W 0 s) a f"
  shows "\<exists>p es. ptedit_pte_get_pfn W L a 0 s = Some (p, log_events es s) \<and> push_bit 12 p = f \<and> unat p < 2 ^ 40
    \<and> p * 4096 = f"
proof -
  have "pte_ready W L a 0 s" "pte_root W L 0 s = kernel_root W 0 s"
    using k kernel_ready_pte_root [OF k] by (simp_all add: pte_ready_def)
  then show ?thesis
    using selected.get_pfn [of W L a 0 s] f pfn_frame [of "load64 (phys s) (pte_slot (phys s) (kernel_root W 0 s) a)"]
    by (auto simp: arch maps_page_def)
qed

text \<open>
  The whole stack at work: \<open>example.c\<close> finds all its comparisons in order. The page at \<open>address\<close> shows
  its own content, then, with the frame of \<open>target\<close> in its entry, that of \<open>target\<close>; the old content is
  still there when the physical page is read or mapped; what is written to the physical page of
  \<open>target\<close> appears at \<open>address\<close>. At the end \<open>address\<close> is mapped to its own frame again, with its own content.\<close>

lemma example_succeeds:
  assumes "example_ready W L address target fa ft touch s"
  shows "\<exists>s'. example_main W L address target touch page0 s = Some ([True, True, True, True, True], s')
    \<and> translate (phys s') (kernel_root W 0 s) address = Some fa
    \<and> read_bytes (phys s') fa 4096 = replicate 4096 65
    \<and> read_bytes (phys s') ft 4096 = replicate 4096 67"
proof -
  define r where "r = kernel_root W 0 s"
  define M where "M = touch (write_bytes (phys s) fa (replicate 4096 65))"
  define v0 where "v0 = load64 (phys s) (pte_slot (phys s) r address)"
  note ex = assms [unfolded example_ready_def Let_def, folded r_def, folded M_def, folded v0_def]
  have arch: "os_arch W = X86_64" and k0: "kernel_ready W L address 0 s"
    and a0: "maps_page (phys s) r address fa" "frame_apart fa (phys s) r address"
    and kA: "kernel_ready W L address 0 (s\<lparr>phys := M\<rparr>)" and kT: "kernel_ready W L target 0 (s\<lparr>phys := M\<rparr>)"
    and aM: "maps_page M r address fa" "load64 M (pte_slot M r address) = v0" "read_bytes M fa 4096 = replicate 4096 65"
    and tM: "maps_page M r target ft" "fa \<noteq> ft" "pte_separate M r address"
    and ap: "frame_apart fa M r address" "frame_apart ft M r address" "frame_apart ft M r target"
    and ok: "\<forall>pfn. pfn * 4096 \<in> {fa, ft} \<longrightarrow> phys_page_ok W L pfn s"
    and mm: "mmap_umem W L 4096 fa \<noteq> MAP_FAILED"
    using ex by blast+
  obtain e e0 where res: "ptedit_resolve W L address 0 s = Some (e, log_events e0 s)" "e_pgd e \<noteq> 0" "e_pte e = v0"
    using kernel_resolve_page [OF k0, folded r_def, OF a0(1), folded v0_def] by blast
  have s2: "user_memset W address 65 4096 (log_events e0 s)
      = Some (log_events e0 (s\<lparr>phys := write_bytes (phys s) fa (replicate 4096 65)\<rparr>))"
    using user_memset_page [of "log_events e0 s" W address fa 65] a0 by (simp add: r_def)
  define m4 where "m4 = write_bytes M ft (replicate 4096 66)"
  define s4 where "s4 = log_events e0 (s\<lparr>phys := m4\<rparr>)"
  have set4: "user_memset W target 66 4096 (log_events e0 (s\<lparr>phys := M\<rparr>)) = Some s4"
    using user_memset_page [of "log_events e0 (s\<lparr>phys := M\<rparr>)" W target ft 66] tM(1) ap(3)
    by (simp add: m4_def s4_def r_def)
  have s4: "phys s4 = m4" "kernel_root W 0 s4 = r" by (simp_all add: s4_def r_def)
  note A4 = fill_memory [OF aM(1,3) tM(3,1,2) ap, folded m4_def, unfolded aM(2)]
  have k4: "kernel_ready W L address 0 s4" "kernel_ready W L target 0 s4"
    using kernel_ready_write [OF kA, of ft "replicate 4096 66"] kernel_ready_write [OF kT, of ft "replicate 4096 66"] ap(2,3)
    by (simp_all add: m4_def r_def s4_def kernel_ready_def dev_open_def)
  have c1: "user_load W address s4 = Some 65"
    using user_load_page [of s4 W address fa 65] A4(1,7) by (simp add: s4)
  obtain p es5 where g: "ptedit_pte_get_pfn W L target 0 s4 = Some (p, log_events es5 s4)"
      and p: "push_bit 12 p = ft" "unat p < 2 ^ 40" "p * 4096 = ft"
    using get_pfn_page [OF arch k4(2), of ft] A4(6) by (auto simp: s4)
  have q: "ptedit_get_pfn X86_64 v0 * 4096 = fa" using a0(1) pfn_frame by (simp add: maps_page_def v0_def)
  let ?s5 = "log_events es5 s4"
  have okS: "phys_page_ok W L n ?s5 = phys_page_ok W L n s" for n
    by (simp add: phys_page_ok_def dev_open_def s4_def)
  have "kernel_ready W L address 0 ?s5" using k4(1) by (simp add: kernel_ready_def)
  with A4 p q ok mm res(3) arch tM(2) obtain s' where
      "example_swap W L address e p page0 ?s5 = Some ([True, True, True, True], s')"
      "translate (phys s') r address = Some fa" "read_bytes (phys s') fa 4096 = replicate 4096 65"
      "read_bytes (phys s') ft 4096 = replicate 4096 67"
    using example_swap_succeeds [of W L address ?s5 fa v0 ft p e page0] by (auto simp: s4 okS)
  then show ?thesis
    using res s2 set4 c1 g by (simp add: example_main_def M_def [symmetric] r_def [symmetric])
qed

text \<open>The concrete address space of the other theories, with a second page that the kernel maps when it
  is touched.\<close>

definition demo_touch :: "mem \<Rightarrow> mem" where
  "demo_touch m = store64 m 0x4028 0x6067"

abbreviation demo_touched :: mem where
  "demo_touched \<equiv> demo_touch (write_bytes demo_mem 0x5000 (replicate 4096 65))"

lemma touched_loads:
  "load64 demo_touched 0x1008 = 0x2067" "load64 demo_touched 0x2010 = 0x3067"
  "load64 demo_touched 0x3018 = 0x4067" "load64 demo_touched 0x4020 = 0x5067"
  "load64 demo_touched 0x4028 = 0x6067"
  by (simp_all add: demo_touch_def load64_store64_same load64_store64_apart load64_write_bytes_apart
      apart_def demo_loads)

lemma touched_slots:
  assumes "a \<in> {0x8080604000, 0x8080605000}"
  shows "pgd_slot demo_root a = 0x1008" "pud_slot demo_touched demo_root a = 0x2010"
    "pmd_slot demo_touched demo_root a = 0x3018"
    "pte_slot demo_touched demo_root 0x8080604000 = 0x4020" "pte_slot demo_touched demo_root 0x8080605000 = 0x4028"
  using assms
  by (auto simp: pgd_slot_def pud_slot_def pmd_slot_def pte_slot_def slot_def demo_root_def
      field_def table_base_def touched_loads)

lemma demo_pages:
  assumes "a \<in> {0x8080604000, 0x8080605000}"
  shows "kernel_ready demo_os demo_lib_kernel a 0 (demo_open\<lparr>phys := demo_touched\<rparr>)"
    "reaches_pte demo_touched demo_root a" "pte_separate demo_touched demo_root a"
    "f \<in> {0x5000, 0x6000} \<Longrightarrow> frame_apart f demo_touched demo_root a"
proof -
  note sl = touched_slots(1-3) [OF assms]
  have pte: "pte_slot demo_touched demo_root a \<in> {0x4020, 0x4028}"
    using assms touched_slots(4,5) [OF assms] by auto
  have "regular_walk (linux_x86 3 9) demo_mem demo_root demo_addr" using demo_regular by simp
  then have "regular_walk (linux_x86 3 9) demo_touched demo_root a"
    unfolding regular_walk_def sl touched_loads demo_slots demo_loads by simp
  then show "kernel_ready demo_os demo_lib_kernel a 0 (demo_open\<lparr>phys := demo_touched\<rparr>)"
    using demo_kernel_ready demo_kernel_root by (simp add: kernel_ready_def dev_open_def demo_os_def)
  show "reaches_pte demo_touched demo_root a"
    unfolding reaches_pte_def sl touched_loads by simp
  show "pte_separate demo_touched demo_root a"
    unfolding pte_separate_def upper_slots_def sl using pte by (auto simp: apart_def)
  show "f \<in> {0x5000, 0x6000} \<Longrightarrow> frame_apart f demo_touched demo_root a"
    unfolding frame_apart_def walk_slots_def upper_slots_def sl using pte by (auto simp: apart_def)
qed

lemma demo_example_ready:
  "example_ready demo_os demo_lib_kernel 0x8080604000 0x8080605000 0x5000 0x6000 demo_touch demo_open"
proof -
  let ?A = "0x8080604000 :: u64" and ?T = "0x8080605000 :: u64"
  have root: "kernel_root demo_os 0 demo_open = demo_root" by (rule demo_kernel_root)
  have os: "os_kernel demo_os = linux_x86 3 9" "os_arch demo_os = X86_64" by (simp_all add: demo_os_def)
  have tb: "table_base 0x5067 = 0x5000" "table_base 0x6067 = 0x6000" "bit (0x5067::u64) 0" "bit (0x6067::u64) 0"
    by (simp_all add: table_base_def field_def)
  note d2 = demo_slots2 [of ?A] demo_ready2 [of ?A] and ts = touched_slots [of ?A]
  have "regular_walk (linux_x86 3 9) demo_mem demo_root ?A"
    using demo_regular [of 3 9] unfolding regular_walk_def demo_slots2(1-3) [of ?A, simplified] demo_loads demo_slots by simp
  then have k0: "kernel_ready demo_os demo_lib_kernel ?A 0 demo_open"
    using demo_kernel_ready by (simp add: kernel_ready_def root os)
  have a0: "maps_page demo_mem demo_root ?A 0x5000" "frame_apart 0x5000 demo_mem demo_root ?A"
    using d2 tb by (simp_all add: maps_page_def demo_loads)
  have pages: "maps_page demo_touched demo_root ?A 0x5000" "maps_page demo_touched demo_root ?T 0x6000"
    using demo_pages(2) [of ?A] demo_pages(2) [of ?T] ts tb by (simp_all add: maps_page_def touched_loads)
  have pte: "load64 demo_touched (pte_slot demo_touched demo_root ?A) = load64 demo_mem (pte_slot demo_mem demo_root ?A)"
    using ts d2 by (simp add: touched_loads demo_loads)
  have rd: "read_bytes demo_touched 0x5000 4096 = replicate 4096 65"
    using read_write_bytes_same [of "replicate 4096 65" demo_mem "0x5000"]
    by (simp add: demo_touch_def read_bytes_store64_apart apart_def)
  have ok: "phys_page_ok demo_os demo_lib_kernel pfn demo_open" if "pfn * 4096 \<in> {0x5000, 0x6000}" for pfn
    using that by (auto simp: phys_page_ok_def umem_ok_def demo_lib_kernel_def demo_lib_def demo_os_def)
  have mm: "mmap_umem demo_os demo_lib_kernel 4096 0x5000 \<noteq> MAP_FAILED"
    by (simp add: mmap_umem_def demo_lib_kernel_def demo_lib_def demo_os_def MAP_FAILED_def)
  show ?thesis
    unfolding example_ready_def Let_def root demo_open_simps(1)
    using k0 a0 pages pte rd ok mm demo_pages(1,3,4) [of ?A] demo_pages(1,4) [of ?T]
    by (simp add: os)
qed

end
