(* ===== verification/Vmcache.thy ===== *)
theory Vmcache
  imports Prelude
begin

text \<open>
  The buffer managers of the experiment \<open>experiments/neovmcache_vs_vmcache.cc\<close>: the page-state word
  with its lock bit, \<open>fix\<close> and \<open>unfix\<close> of the three managers (a hash table, \<open>vmcache\<close> with the states
  in an array, \<open>neovmcache\<close> with the states in the pages themselves), the generators, the test
  loop, and \<open>main\<close>.

  Files and mappings are the environment of \<open>main\<close>. The loops of \<open>fix\<close> have fuel; the sequential
  operations come first, the compare-exchange loops of many threads on one page follow.
\<close>

definition PageSize :: u64 where "PageSize = 4096"
definition NumPages :: u64 where "NumPages = 2000"

subsection \<open>Page states\<close>

text \<open>The union of a word with its bit fields: \<open>evicted\<close>, \<open>marked\<close>, \<open>locked\<close> are the bits 0, 1, 2.\<close>

definition set_field :: "nat \<Rightarrow> nat \<Rightarrow> u64 \<Rightarrow> u64 \<Rightarrow> u64" where
  "set_field off len v w = (w AND NOT (push_bit off (mask len))) OR push_bit off (take_bit len v)"

definition PageState :: u64 where "PageState = 0"

definition isEvicted :: "u64 \<Rightarrow> bool" where "isEvicted s \<longleftrightarrow> field 0 1 s = 1"

definition setEvicted :: "u64 \<Rightarrow> u64" where
  "setEvicted s = set_field 2 1 0 (set_field 1 1 0 (set_field 0 1 1 s))"

definition isMarked :: "u64 \<Rightarrow> bool" where "isMarked s \<longleftrightarrow> field 1 1 s = 1"
definition setMarked :: "u64 \<Rightarrow> u64" where "setMarked s = set_field 1 1 1 s"
definition isUnlocked :: "u64 \<Rightarrow> bool" where "isUnlocked s \<longleftrightarrow> field 2 1 s = 0"
definition unsafe_lock :: "u64 \<Rightarrow> u64" where "unsafe_lock s = set_field 2 1 1 s"
definition setUnlocked :: "u64 \<Rightarrow> u64" where "setUnlocked s = set_field 2 1 0 s"
definition locked_state :: "u64 \<Rightarrow> u64" where "locked_state s = unsafe_lock s"

subsection \<open>Generators\<close>

definition XorshiftRNG_next :: "u32 \<Rightarrow> u32" where
  "XorshiftRNG_next x = x XOR push_bit 13 x"

definition LinearCongruentialGenerator_next :: "u64 \<Rightarrow> u64" where
  "LinearCongruentialGenerator_next current = (1664525 * current + 1013904223) mod 4294967296"

definition LCG_seed :: u64 where "LCG_seed = 42"

subsection \<open>Buffer managers\<close>

text \<open>The arrays \<open>state\<close> (the field \<open>s\<close> of each element) and \<open>buf_tags\<close>, the hash table, the memory of
  the process, the mapping of the data file, and the accumulator of the test.\<close>

record bufs =
  bm_state :: "u64 list"
  buf_tags :: "u64 list"
  buf_table :: "u64 \<rightharpoonup> u64"
  bm_mem :: mem
  vmcache_virtMem :: u64
  neovmcache_virtMem :: u64
  acc :: u64

text \<open>A failed assertion, an access outside an array or the mapping, and a loop that has not returned.\<close>

datatype bm_error = Evicted_assertion | Bad_access | No_fuel

definition compareAndSwap :: "u64 \<Rightarrow> u64 \<Rightarrow> u64 \<Rightarrow> bool \<times> u64" where
  "compareAndSwap v expected desired = (if v = expected then (True, desired) else (False, v))"

text \<open>The three loop bodies: \<open>None\<close> is another round.\<close>

definition vmcache_round :: "u64 \<Rightarrow> bufs \<Rightarrow> bm_error + u64 option \<times> bufs" where
  "vmcache_round pid b =
     (let ofs = pid * PageSize; i = unat pid in
      if length (bm_state b) \<le> i then Inl Bad_access
      else let s = bm_state b ! i in
      if isEvicted s then Inl Evicted_assertion
      else if isMarked s \<or> isUnlocked s
      then let (ok, s') = compareAndSwap (bm_state b ! i) s (locked_state s) in
           Inr (if ok then Some (vmcache_virtMem b + ofs) else None, b\<lparr>bm_state := (bm_state b)[i := s']\<rparr>)
      else Inr (None, b))"

definition hash_round :: "u64 \<Rightarrow> bufs \<Rightarrow> bm_error + u64 option \<times> bufs" where
  "hash_round pid b =
     (let i = unat pid in
      if length (buf_tags b) \<le> i then Inl Bad_access
      else let s = buf_tags b ! i in
      if isEvicted s then Inl Evicted_assertion
      else if isMarked s \<or> isUnlocked s
      then let (ok, s') = compareAndSwap (buf_tags b ! i) s (locked_state s);
               b1 = b\<lparr>buf_tags := (buf_tags b)[i := s']\<rparr>
           in if \<not> ok then Inr (None, b1)
              else case buf_table b1 pid of
                     Some v \<Rightarrow> Inr (Some v, b1)
                   | None \<Rightarrow> Inr (Some 0, b1\<lparr>buf_table := (buf_table b1)(pid \<mapsto> 0)\<rparr>)
      else Inr (None, b))"

definition neovmcache_round :: "u64 \<Rightarrow> bufs \<Rightarrow> bm_error + u64 option \<times> bufs" where
  "neovmcache_round pid b =
     (let s_ptr = neovmcache_virtMem b + pid * PageSize in
      if NumPages \<le> pid then Inl Bad_access
      else let s = load64 (bm_mem b) s_ptr in
      if isEvicted s then Inl Evicted_assertion
      else if (isMarked s \<or> isUnlocked s) \<and> load64 (bm_mem b) (s_ptr + 8) = 0
      then let (ok, s') = compareAndSwap (load64 (bm_mem b) s_ptr) s (locked_state s) in
           Inr (if ok then Some s_ptr else None, b\<lparr>bm_mem := store64 (bm_mem b) s_ptr s'\<rparr>)
      else Inr (None, b))"

fun fix_loop :: "(bufs \<Rightarrow> bm_error + u64 option \<times> bufs) \<Rightarrow> nat \<Rightarrow> bufs \<Rightarrow> bm_error + u64 \<times> bufs" where
  "fix_loop round 0 b = Inl No_fuel"
| "fix_loop round (Suc k) b =
     (case round b of
        Inl e \<Rightarrow> Inl e
      | Inr (Some a, b') \<Rightarrow> Inr (a, b')
      | Inr (None, b') \<Rightarrow> fix_loop round k b')"

definition vmcache_fix :: "nat \<Rightarrow> u64 \<Rightarrow> bufs \<Rightarrow> bm_error + u64 \<times> bufs" where
  "vmcache_fix k pid = fix_loop (vmcache_round pid) k"

definition vmcache_unfix :: "u64 \<Rightarrow> u64 \<Rightarrow> bufs \<Rightarrow> bm_error + bufs" where
  "vmcache_unfix pid vaddr b =
     (if length (bm_state b) \<le> unat pid then Inl Bad_access
      else Inr (b\<lparr>bm_state := (bm_state b)[unat pid := setUnlocked (bm_state b ! unat pid)]\<rparr>))"

definition hash_fix :: "nat \<Rightarrow> u64 \<Rightarrow> bufs \<Rightarrow> bm_error + u64 \<times> bufs" where
  "hash_fix k pid = fix_loop (hash_round pid) k"

definition hash_unfix :: "u64 \<Rightarrow> u64 \<Rightarrow> bufs \<Rightarrow> bm_error + bufs" where
  "hash_unfix pid vaddr b =
     (if length (buf_tags b) \<le> unat pid then Inl Bad_access
      else Inr (b\<lparr>buf_tags := (buf_tags b)[unat pid := setUnlocked (buf_tags b ! unat pid)]\<rparr>))"

definition neovmcache_fix :: "nat \<Rightarrow> u64 \<Rightarrow> bufs \<Rightarrow> bm_error + u64 \<times> bufs" where
  "neovmcache_fix k pid = fix_loop (neovmcache_round pid) k"

definition neovmcache_unfix :: "u64 \<Rightarrow> u64 \<Rightarrow> bufs \<Rightarrow> bm_error + bufs" where
  "neovmcache_unfix pid vaddr b =
     Inr (b\<lparr>bm_mem := store64 (bm_mem b) vaddr (setUnlocked (load64 (bm_mem b) vaddr))\<rparr>)"

subsection \<open>The test\<close>

type_synonym fix_fun = "u64 \<Rightarrow> bufs \<Rightarrow> bm_error + u64 \<times> bufs"
type_synonym unfix_fun = "u64 \<Rightarrow> u64 \<Rightarrow> bufs \<Rightarrow> bm_error + bufs"

text \<open>Reading and updating the word \<open>data[2]\<close> of a fixed page.\<close>

definition use_page :: "u64 \<Rightarrow> bufs \<Rightarrow> bufs" where
  "use_page vaddr b =
     (let acc' = acc b + load64 (bm_mem b) (vaddr + 16)
      in b\<lparr>acc := acc', bm_mem := store64 (bm_mem b) (vaddr + 16) acc'\<rparr>)"

fun test_loop :: "fix_fun \<Rightarrow> unfix_fun \<Rightarrow> nat \<Rightarrow> u64 \<Rightarrow> bufs \<Rightarrow> bm_error + bufs" where
  "test_loop fx ux 0 current b = Inr b"
| "test_loop fx ux (Suc n) current b =
     (let current' = LinearCongruentialGenerator_next current; pid = current' mod NumPages in
      case fx pid b of
        Inl e \<Rightarrow> Inl e
      | Inr (vaddr, b1) \<Rightarrow>
          (case ux pid vaddr (use_page vaddr b1) of
             Inl e \<Rightarrow> Inl e
           | Inr b2 \<Rightarrow> test_loop fx ux n current' b2))"

definition performTest :: "fix_fun \<Rightarrow> unfix_fun \<Rightarrow> nat \<Rightarrow> bufs \<Rightarrow> bm_error + bufs" where
  "performTest fx ux N b = test_loop fx ux N LCG_seed b"

subsection \<open>The data file and \<open>main\<close>\<close>

text \<open>The results of the system calls of \<open>check_data_file\<close>.\<close>

record file_env =
  f_exists :: bool
  f_create :: int
  f_lseek :: int
  f_write :: int
  f_open :: int
  f_fstat :: int
  f_size :: u64

text \<open>The result and the descriptors left open.\<close>

definition open_data_file :: "file_env \<Rightarrow> int \<times> int list" where
  "open_data_file F =
     (if f_open F = -1 then (-1, [])
      else if f_fstat F = -1 then (-1, remove1 (f_open F) [f_open F])
      else if f_size F < NumPages * PageSize then (-1, remove1 (f_open F) [f_open F])
      else (f_open F, [f_open F]))"

definition check_data_file :: "file_env \<Rightarrow> int \<times> int list" where
  "check_data_file F =
     (if f_exists F then open_data_file F
      else if f_create F = -1 then (-1, [])
      else if f_lseek F = -1 then (-1, remove1 (f_create F) [f_create F])
      else if f_write F \<noteq> 1 then (-1, remove1 (f_create F) [f_create F])
      else (let (r, fds) = open_data_file F in (r, remove1 (f_create F) [f_create F] @ fds)))"

text \<open>The mappings for \<open>state\<close> and \<open>buf_tags\<close> succeed or not; a fresh anonymous mapping is zero.
  \<open>e_data\<close> is where \<open>mmap\<close> puts the file behind a descriptor, with the memory \<open>e_mem\<close>.\<close>

record exp_env =
  e_state_ok :: bool
  e_tags_ok :: bool
  e_file :: file_env
  e_data :: "int \<Rightarrow> u64"
  e_mem :: mem
  e_madvise :: int
  e_mlock :: int

datatype exp_result = Exit_failure | Return int | Crash bm_error

definition N_ops :: nat where "N_ops = 10000000"

definition init_table :: "u64 \<Rightarrow> u64 \<rightharpoonup> u64" where
  "init_table base = fold (\<lambda>i m. m(of_nat i \<mapsto> base + PageSize * of_nat i)) [0..<unat NumPages] Map.empty"

definition exp_bufs :: "exp_env \<Rightarrow> u64 \<Rightarrow> bufs" where
  "exp_bufs E base =
     \<lparr>bm_state = replicate (unat NumPages) 0,
      buf_tags = (if e_tags_ok E then replicate (unat NumPages) 0 else []),
      buf_table = init_table base, bm_mem = e_mem E,
      vmcache_virtMem = base, neovmcache_virtMem = base, acc = 0\<rparr>"

definition run_tests :: "nat \<Rightarrow> nat \<Rightarrow> bufs \<Rightarrow> bm_error + bufs" where
  "run_tests k N b0 =
     (case performTest (hash_fix k) hash_unfix N b0 of
        Inl e \<Rightarrow> Inl e
      | Inr b1 \<Rightarrow>
          (case performTest (vmcache_fix k) vmcache_unfix N b1 of
             Inl e \<Rightarrow> Inl e
           | Inr b2 \<Rightarrow> performTest (neovmcache_fix k) neovmcache_unfix N b2))"

text \<open>The result, the descriptors left open, and the final state. The second test of \<open>state\<close> in the
  code stands where \<open>buf_tags\<close> is meant: a failed mapping of \<open>buf_tags\<close> goes unnoticed.\<close>

definition exp_main :: "nat \<Rightarrow> exp_env \<Rightarrow> exp_result \<times> int list \<times> bufs option" where
  "exp_main k E =
     (if \<not> e_state_ok E then (Exit_failure, [], None)
      else if \<not> e_state_ok E then (Exit_failure, [], None)
      else let (fd, fds) = check_data_file (e_file E); base = e_data E fd in
      if base = -1 then (Return (-1), remove1 fd fds, None)
      else if e_madvise E \<noteq> 0 then (Return (-1), remove1 fd fds, None)
      else if e_mlock E \<noteq> 0 then (Return (-1), remove1 fd fds, None)
      else case run_tests k N_ops (exp_bufs E base) of
             Inl e \<Rightarrow> (Crash e, fds, None)
           | Inr b \<Rightarrow> (Return 0, fds, Some b))"

subsection \<open>Bits of a page state\<close>

lemma bit_set_field:
  "bit (set_field off len v w) n \<longleftrightarrow>
     (if off \<le> n \<and> n < off + len then n < 64 \<and> bit v (n - off) else bit w n)"
  by (auto simp: set_field_def bit_simps bit_fields dest: bit_u64_bound)

lemma field_1_iff: "field k 1 s = 1 \<longleftrightarrow> bit s k" "field k 1 s = 0 \<longleftrightarrow> \<not> bit s k"
proof -
  have "field k 1 s = (if bit s k then 1 else 0)"
    by (rule bit_word_eqI) (auto simp: bit_field bit_simps)
  then show "field k 1 s = 1 \<longleftrightarrow> bit s k" "field k 1 s = 0 \<longleftrightarrow> \<not> bit s k" by simp_all
qed

lemma state_tests [simp]:
  "isEvicted s \<longleftrightarrow> bit s 0" "isMarked s \<longleftrightarrow> bit s 1" "isUnlocked s \<longleftrightarrow> \<not> bit s 2"
  unfolding isEvicted_def isMarked_def isUnlocked_def by (simp_all only: field_1_iff)

lemma bit_state_updates [bit_fields]:
  "bit (setUnlocked s) n \<longleftrightarrow> n \<noteq> 2 \<and> bit s n"
  "bit (locked_state s) n \<longleftrightarrow> n = 2 \<or> bit s n"
  "bit (setMarked s) n \<longleftrightarrow> n = 1 \<or> bit s n"
  "bit (setEvicted s) n \<longleftrightarrow> n = 0 \<or> n \<noteq> 1 \<and> n \<noteq> 2 \<and> bit s n"
  by (auto simp: setUnlocked_def locked_state_def unsafe_lock_def setMarked_def setEvicted_def
      bit_set_field bit_simps)

lemma unlock_lock [simp]: "\<not> bit s 2 \<Longrightarrow> setUnlocked (locked_state s) = s"
  by (rule bit_word_eqI) (auto simp: bit_state_updates)

text \<open>
  The transitions of a page state: an evicted page is neither marked nor locked, and locking and
  unlocking touch no other bit.\<close>

lemma page_state_transitions:
  "isEvicted (setEvicted s) \<and> \<not> isMarked (setEvicted s) \<and> isUnlocked (setEvicted s)"
  "isMarked (setMarked s) \<and> isUnlocked (setMarked s) = isUnlocked s"
  "\<not> isUnlocked (locked_state s) \<and> isMarked (locked_state s) = isMarked s"
  "isUnlocked (setUnlocked s) \<and> isEvicted (setUnlocked s) = isEvicted s"
  by (simp_all add: bit_state_updates)

subsection \<open>Generators\<close>

text \<open>The products do not overflow to any effect: the modulus divides the word size.\<close>

lemma lcg_exact:
  "unat (LinearCongruentialGenerator_next x) = (1664525 * unat x + 1013904223) mod 2 ^ 32"
proof -
  have "unat (1664525 * x + 1013904223) = (1664525 * unat x + 1013904223) mod 2 ^ 64"
    by (simp add: unat_word_ariths mod_simps)
  then show ?thesis
    by (simp add: LinearCongruentialGenerator_next_def unat_mod mod_mod_cancel)
qed

lemma bit_xorshift: "bit (XorshiftRNG_next x) n \<longleftrightarrow> bit x n \<noteq> (13 \<le> n \<and> n < 32 \<and> bit x (n - 13))"
  by (auto simp: XorshiftRNG_next_def bit_simps dest: bit_imp_le_length)

lemma xorshift_period:
  "XorshiftRNG_next (XorshiftRNG_next (XorshiftRNG_next (XorshiftRNG_next x))) = x"
  by (rule bit_word_eqI) (auto simp: bit_xorshift)

subsection \<open>Pages\<close>

definition page_addr :: "bufs \<Rightarrow> u64 \<Rightarrow> u64" where
  "page_addr b pid = vmcache_virtMem b + pid * PageSize"

lemma page_addr_aligned:
  assumes "take_bit 12 (vmcache_virtMem b) = 0"
  shows "take_bit 12 (page_addr b pid) = 0"
proof -
  have "take_bit 12 (pid * PageSize) = 0"
    using take_bit_push_bit [of 12 12 pid] by (simp add: PageSize_def push_bit_eq_mult mult.commute)
  then show ?thesis using take_bit_add_aligned [OF assms] by (simp add: page_addr_def)
qed

lemma page_addr_inj:
  assumes "pid < NumPages" "pid' < NumPages" "page_addr b pid = page_addr b pid'"
  shows "pid = pid'"
proof -
  have "unat pid < 2000" "unat pid' < 2000"
    using assms(1,2) by (simp_all add: NumPages_def word_less_nat_alt)
  then have "unat (pid * PageSize) = unat pid * 4096" "unat (pid' * PageSize) = unat pid' * 4096"
    by (simp_all add: PageSize_def unat_word_ariths)
  moreover have "pid * PageSize = pid' * PageSize" using assms(3) by (simp add: page_addr_def)
  ultimately have "unat pid = unat pid'" by simp
  then show ?thesis by (simp add: word_unat_eq_iff)
qed

text \<open>The words 0, 1 and 2 of the pages do not overlap.\<close>

lemma page_words_apart:
  assumes "take_bit 12 (vmcache_virtMem b) = 0" "pid < NumPages" "pid' < NumPages"
    and "j \<in> {0, 8, 16}" "j' \<in> {0, 8, 16}" "pid \<noteq> pid' \<or> j \<noteq> j'"
  shows "apart (page_addr b pid + j) 8 (page_addr b pid' + j') 8"
proof (rule apart_aligned8)
  note al = page_addr_aligned [OF assms(1)]
  have j: "unat j < 2 ^ 12" "unat j' < 2 ^ 12" "take_bit 3 j = 0" "take_bit 3 j' = 0"
    using assms(4,5) by auto
  have "take_bit 3 (page_addr b q) = take_bit 3 (take_bit 12 (page_addr b q))" for q
    by (simp only: take_bit_take_bit) simp
  then have a3: "take_bit 3 (page_addr b q) = 0" for q by (simp add: al)
  show "take_bit 3 (page_addr b pid + j) = 0" "take_bit 3 (page_addr b pid' + j') = 0"
    using j(3,4) by (simp_all add: take_bit_add_aligned [OF a3])
  show "page_addr b pid + j \<noteq> page_addr b pid' + j'"
  proof
    assume eq: "page_addr b pid + j = page_addr b pid' + j'"
    have "j = j'" using add_low_part(3) [OF al j(1)] add_low_part(3) [OF al j(2)] eq by metis
    with eq have "pid = pid'" using page_addr_inj [OF assms(2,3)] by simp
    with \<open>j = j'\<close> show False using assms(6) by simp
  qed
qed

subsection \<open>The contract of a buffer manager\<close>

text \<open>What the test sees: the word \<open>data[2]\<close> of every page, and the accumulator. Two states that
  agree on these and on the place of the pages are \<open>alike\<close>.\<close>

definition page_data :: "bufs \<Rightarrow> u64 \<Rightarrow> u64" where
  "page_data b pid = (if pid < NumPages then load64 (bm_mem b) (page_addr b pid + 16) else 0)"

definition alike :: "bufs \<Rightarrow> bufs \<Rightarrow> bool" where
  "alike b b' \<longleftrightarrow> page_data b' = page_data b \<and> acc b' = acc b \<and> vmcache_virtMem b' = vmcache_virtMem b"

text \<open>The specification of the test: no locks, no memory.\<close>

fun spec_test :: "nat \<Rightarrow> u64 \<Rightarrow> (u64 \<Rightarrow> u64) \<times> u64 \<Rightarrow> (u64 \<Rightarrow> u64) \<times> u64" where
  "spec_test 0 current da = da"
| "spec_test (Suc n) current da =
     (let current' = LinearCongruentialGenerator_next current; pid = current' mod NumPages;
          acc' = snd da + fst da pid
      in spec_test n current' ((fst da)(pid := acc'), acc'))"

text \<open>
  A manager fixes any page when it is idle, keeps the page fixed while the test uses it, and is idle
  again after the page is released; none of this changes what the test sees.
\<close>

locale buffer_manager =
  fixes fx :: fix_fun and ux :: unfix_fun
    and idle_state :: "bufs \<Rightarrow> bool" and held :: "u64 \<Rightarrow> bufs \<Rightarrow> bool"
  assumes fix_page: "idle_state b \<Longrightarrow> pid < NumPages \<Longrightarrow>
      \<exists>b'. fx pid b = Inr (page_addr b pid, b') \<and> held pid b' \<and> alike b b'"
    and held_use: "held pid b \<Longrightarrow> pid < NumPages \<Longrightarrow> held pid (use_page (page_addr b pid) b)"
    and unfix_page: "held pid b \<Longrightarrow> pid < NumPages \<Longrightarrow>
      \<exists>b'. ux pid (page_addr b pid) b = Inr b' \<and> idle_state b' \<and> alike b b'"
    and held_aligned: "held pid b \<Longrightarrow> take_bit 12 (vmcache_virtMem b) = 0"
begin

lemma use_page_seen:
  assumes "held pid b" "pid < NumPages"
  shows "page_data (use_page (page_addr b pid) b) = (page_data b)(pid := acc b + page_data b pid)"
    and "acc (use_page (page_addr b pid) b) = acc b + page_data b pid"
proof -
  have "page_addr (use_page a b) q = page_addr b q" for a q by (simp add: page_addr_def use_page_def Let_def)
  moreover have "apart (page_addr b pid + 16) 8 (page_addr b q + 16) 8" if "q < NumPages" "q \<noteq> pid" for q
    using page_words_apart [OF held_aligned [OF assms(1)] assms(2) that(1), of 16 16] that(2) by simp
  ultimately show "page_data (use_page (page_addr b pid) b) = (page_data b)(pid := acc b + page_data b pid)"
    using assms(2)
    by (auto simp: fun_eq_iff page_data_def use_page_def Let_def load64_store64_same load64_store64_apart)
  show "acc (use_page (page_addr b pid) b) = acc b + page_data b pid"
    using assms(2) by (simp add: use_page_def Let_def page_data_def)
qed

text \<open>The test refines its specification.\<close>

lemma test_loop_refines:
  "idle_state b \<Longrightarrow> \<exists>b'. test_loop fx ux n current b = Inr b' \<and> idle_state b'
     \<and> (page_data b', acc b') = spec_test n current (page_data b, acc b)"
proof (induction n arbitrary: current b)
  case (Suc n)
  define cur where "cur = LinearCongruentialGenerator_next current"
  define pid where "pid = cur mod NumPages"
  have pid: "pid < NumPages" by (simp add: pid_def NumPages_def word_mod_less_divisor)
  obtain b1 where b1: "fx pid b = Inr (page_addr b pid, b1)" "held pid b1" "alike b b1"
    using fix_page [OF Suc.prems pid] by blast
  have a: "page_addr b pid = page_addr b1 pid" using b1(3) by (simp add: page_addr_def alike_def)
  let ?u = "use_page (page_addr b1 pid) b1"
  have a': "page_addr ?u pid = page_addr b1 pid" by (simp add: page_addr_def use_page_def Let_def)
  obtain b2 where b2: "ux pid (page_addr b1 pid) ?u = Inr b2" "idle_state b2" "alike ?u b2"
    using unfix_page [OF held_use [OF b1(2) pid] pid] unfolding a' by blast
  have "(page_data b2, acc b2) = ((page_data b)(pid := acc b + page_data b pid), acc b + page_data b pid)"
    using use_page_seen [OF b1(2) pid] b1(3) b2(3) by (simp add: alike_def)
  with Suc.IH [OF b2(2), of cur] show ?case
    using b1(1) b2(1) unfolding a by (simp add: cur_def [symmetric] pid_def [symmetric] Let_def)
qed auto

end

subsection \<open>The three managers keep the contract\<close>

definition idle_word :: "u64 \<Rightarrow> bool" where
  "idle_word s \<longleftrightarrow> \<not> isEvicted s \<and> isUnlocked s"

text \<open>All pages are present and unlocked, for all three managers; the second word of every page is
  zero, as \<open>neovmcache\<close> demands.\<close>

definition managers_ready :: "bufs \<Rightarrow> bool" where
  "managers_ready b \<longleftrightarrow>
     take_bit 12 (vmcache_virtMem b) = 0 \<and> neovmcache_virtMem b = vmcache_virtMem b
   \<and> length (bm_state b) = unat NumPages \<and> length (buf_tags b) = unat NumPages
   \<and> list_all idle_word (bm_state b) \<and> list_all idle_word (buf_tags b)
   \<and> (\<forall>pid<NumPages. buf_table b pid = Some (page_addr b pid)
        \<and> idle_word (load64 (bm_mem b) (page_addr b pid)) \<and> load64 (bm_mem b) (page_addr b pid + 8) = 0)"

text \<open>A page is held when releasing it makes the manager ready.\<close>

definition vmcache_held :: "u64 \<Rightarrow> bufs \<Rightarrow> bool" where
  "vmcache_held pid b \<longleftrightarrow> length (bm_state b) = unat NumPages \<and>
     managers_ready (b\<lparr>bm_state := (bm_state b)[unat pid := setUnlocked (bm_state b ! unat pid)]\<rparr>)"

definition hash_held :: "u64 \<Rightarrow> bufs \<Rightarrow> bool" where
  "hash_held pid b \<longleftrightarrow> length (buf_tags b) = unat NumPages \<and>
     managers_ready (b\<lparr>buf_tags := (buf_tags b)[unat pid := setUnlocked (buf_tags b ! unat pid)]\<rparr>)"

definition neovmcache_held :: "u64 \<Rightarrow> bufs \<Rightarrow> bool" where
  "neovmcache_held pid b \<longleftrightarrow>
     managers_ready (b\<lparr>bm_mem := store64 (bm_mem b) (page_addr b pid)
       (setUnlocked (load64 (bm_mem b) (page_addr b pid)))\<rparr>)"

lemma bufs_simps [simp]:
  "page_addr (b\<lparr>bm_state := x\<rparr>) pid = page_addr b pid"
  "page_addr (b\<lparr>buf_tags := x\<rparr>) pid = page_addr b pid"
  "page_addr (b\<lparr>bm_mem := m\<rparr>) pid = page_addr b pid"
  "page_addr (b\<lparr>acc := v\<rparr>) pid = page_addr b pid"
  "page_data (b\<lparr>bm_state := x\<rparr>) = page_data b"
  "page_data (b\<lparr>buf_tags := x\<rparr>) = page_data b"
  "managers_ready (b\<lparr>acc := v\<rparr>) = managers_ready b"
  "managers_ready (b\<lparr>acc := v, bm_mem := m\<rparr>) = managers_ready (b\<lparr>bm_mem := m\<rparr>)"
  by (simp_all add: page_addr_def page_data_def managers_ready_def fun_eq_iff)

lemma managers_ready_mem:
  assumes "\<And>pid. pid < NumPages \<Longrightarrow> load64 m (page_addr b pid) = load64 m' (page_addr b pid)"
    "\<And>pid. pid < NumPages \<Longrightarrow> load64 m (page_addr b pid + 8) = load64 m' (page_addr b pid + 8)"
  shows "managers_ready (b\<lparr>bm_mem := m\<rparr>) = managers_ready (b\<lparr>bm_mem := m'\<rparr>)"
  using assms by (simp add: managers_ready_def)

lemma managers_readyD:
  assumes "managers_ready b"
  shows "take_bit 12 (vmcache_virtMem b) = 0" "neovmcache_virtMem b = vmcache_virtMem b"
    "length (bm_state b) = unat NumPages" "length (buf_tags b) = unat NumPages"
    "pid < NumPages \<Longrightarrow> idle_word (bm_state b ! unat pid)"
    "pid < NumPages \<Longrightarrow> idle_word (buf_tags b ! unat pid)"
    "pid < NumPages \<Longrightarrow> buf_table b pid = Some (page_addr b pid)"
    "pid < NumPages \<Longrightarrow> idle_word (load64 (bm_mem b) (page_addr b pid))"
    "pid < NumPages \<Longrightarrow> load64 (bm_mem b) (page_addr b pid + 8) = 0"
  using assms by (auto simp: managers_ready_def list_all_length word_less_nat_alt)

text \<open>Using a page touches neither the states nor the second words.\<close>

lemma ready_use_page:
  assumes "take_bit 12 (vmcache_virtMem b) = 0" "pid < NumPages"
  shows "managers_ready (b\<lparr>bm_mem := store64 m (page_addr b pid + 16) v\<rparr>) = managers_ready (b\<lparr>bm_mem := m\<rparr>)"
proof (rule managers_ready_mem)
  fix q assume q: "q < NumPages"
  show "load64 (store64 m (page_addr b pid + 16) v) (page_addr b q) = load64 m (page_addr b q)"
    using page_words_apart [OF assms q, of 16 0] by (simp add: load64_store64_apart)
  show "load64 (store64 m (page_addr b pid + 16) v) (page_addr b q + 8) = load64 m (page_addr b q + 8)"
    using page_words_apart [OF assms q, of 16 8] by (simp add: load64_store64_apart)
qed

lemma fix_loop_first: "round b = Inr (Some a, b') \<Longrightarrow> fix_loop round (Suc k) b = Inr (a, b')"
  by simp

interpretation vmcache_bm: buffer_manager "vmcache_fix (Suc k)" vmcache_unfix managers_ready vmcache_held for k
proof unfold_locales
  fix b pid
  assume "managers_ready b" and pid: "pid < NumPages"
  note r = managers_readyD [OF this(1)]
  have i: "unat pid < unat NumPages" using pid by (simp add: word_less_nat_alt)
  let ?b = "b\<lparr>bm_state := (bm_state b)[unat pid := locked_state (bm_state b ! unat pid)]\<rparr>"
  have "vmcache_round pid b = Inr (Some (page_addr b pid), ?b)"
    using r(3) r(5) [OF pid] i
    by (simp add: vmcache_round_def Let_def idle_word_def compareAndSwap_def page_addr_def)
  moreover have "vmcache_held pid ?b"
    using \<open>managers_ready b\<close> r(3) r(5) [OF pid] i by (simp add: vmcache_held_def idle_word_def)
  ultimately show "\<exists>b'. vmcache_fix (Suc k) pid b = Inr (page_addr b pid, b') \<and> vmcache_held pid b' \<and> alike b b'"
    using fix_loop_first [of "vmcache_round pid" b] by (auto simp: vmcache_fix_def alike_def)
next
  fix b pid
  assume h: "vmcache_held pid b" and pid: "pid < NumPages"
  have al: "take_bit 12 (vmcache_virtMem b) = 0"
    using h managers_readyD(1) by (force simp: vmcache_held_def)
  have i: "unat pid < length (bm_state b)" using h pid by (simp add: vmcache_held_def word_less_nat_alt)
  have "use_page (page_addr b pid) b\<lparr>bm_state := x\<rparr> = b\<lparr>bm_state := x,
      bm_mem := store64 (bm_mem b) (page_addr b pid + 16) v\<rparr>\<lparr>acc := v\<rparr>"
    if "v = acc b + load64 (bm_mem b) (page_addr b pid + 16)" for x v
    using that by (simp add: use_page_def Let_def)
  note u = this [OF refl]
  show "vmcache_held pid (use_page (page_addr b pid) b)"
    using h ready_use_page [of "b\<lparr>bm_state := x\<rparr>" pid "bm_mem b" for x] al pid
    unfolding vmcache_held_def by (simp add: u) (simp add: use_page_def Let_def)
  show "\<exists>b'. vmcache_unfix pid (page_addr b pid) b = Inr b' \<and> managers_ready b' \<and> alike b b'"
    using h i by (simp add: vmcache_unfix_def vmcache_held_def alike_def)
next
  fix b pid
  assume "vmcache_held pid b"
  then show "take_bit 12 (vmcache_virtMem b) = 0"
    using managers_readyD(1) by (force simp: vmcache_held_def)
qed

interpretation hash_bm: buffer_manager "hash_fix (Suc k)" hash_unfix managers_ready hash_held for k
proof unfold_locales
  fix b pid
  assume "managers_ready b" and pid: "pid < NumPages"
  note r = managers_readyD [OF this(1)]
  have i: "unat pid < unat NumPages" using pid by (simp add: word_less_nat_alt)
  let ?b = "b\<lparr>buf_tags := (buf_tags b)[unat pid := locked_state (buf_tags b ! unat pid)]\<rparr>"
  have "hash_round pid b = Inr (Some (page_addr b pid), ?b)"
    using r(4) r(6) [OF pid] r(7) [OF pid] i
    by (simp add: hash_round_def Let_def idle_word_def compareAndSwap_def)
  moreover have "hash_held pid ?b"
    using \<open>managers_ready b\<close> r(4) r(6) [OF pid] i by (simp add: hash_held_def idle_word_def)
  ultimately show "\<exists>b'. hash_fix (Suc k) pid b = Inr (page_addr b pid, b') \<and> hash_held pid b' \<and> alike b b'"
    using fix_loop_first [of "hash_round pid" b] by (auto simp: hash_fix_def alike_def)
next
  fix b pid
  assume h: "hash_held pid b" and pid: "pid < NumPages"
  have al: "take_bit 12 (vmcache_virtMem b) = 0"
    using h managers_readyD(1) by (force simp: hash_held_def)
  have i: "unat pid < length (buf_tags b)" using h pid by (simp add: hash_held_def word_less_nat_alt)
  have "use_page (page_addr b pid) b\<lparr>buf_tags := x\<rparr> = b\<lparr>buf_tags := x,
      bm_mem := store64 (bm_mem b) (page_addr b pid + 16) v\<rparr>\<lparr>acc := v\<rparr>"
    if "v = acc b + load64 (bm_mem b) (page_addr b pid + 16)" for x v
    using that by (simp add: use_page_def Let_def)
  note u = this [OF refl]
  show "hash_held pid (use_page (page_addr b pid) b)"
    using h ready_use_page [of "b\<lparr>buf_tags := x\<rparr>" pid "bm_mem b" for x] al pid
    unfolding hash_held_def by (simp add: u) (simp add: use_page_def Let_def)
  show "\<exists>b'. hash_unfix pid (page_addr b pid) b = Inr b' \<and> managers_ready b' \<and> alike b b'"
    using h i by (simp add: hash_unfix_def hash_held_def alike_def)
next
  fix b pid
  assume "hash_held pid b"
  then show "take_bit 12 (vmcache_virtMem b) = 0"
    using managers_readyD(1) by (force simp: hash_held_def)
qed

lemma page_data_state:
  assumes "take_bit 12 (vmcache_virtMem b) = 0" "pid < NumPages"
  shows "page_data (b\<lparr>bm_mem := store64 (bm_mem b) (page_addr b pid) v\<rparr>) = page_data b"
  using page_words_apart [OF assms, of _ 0 16]
  by (auto simp: page_data_def fun_eq_iff load64_store64_apart)

text \<open>Writing the data of a page does not matter to the states of the pages.\<close>

lemma managers_ready_data:
  assumes al: "take_bit 12 (vmcache_virtMem b) = 0" and pid: "pid < NumPages"
  defines "p \<equiv> page_addr b pid"
  shows "managers_ready (b\<lparr>bm_mem := store64 (store64 (bm_mem b) (p + 16) v) p w\<rparr>)
      = managers_ready (b\<lparr>bm_mem := store64 (bm_mem b) p w\<rparr>)"
proof (rule managers_ready_mem)
  fix q assume q: "q < NumPages"
  have ap: "apart (p + 16) 8 (page_addr b q) 8" "apart (p + 16) 8 (page_addr b q + 8) 8"
    using page_words_apart [OF al pid q, of 16 0] page_words_apart [OF al pid q, of 16 8] by (simp_all add: p_def)
  show "load64 (store64 (store64 (bm_mem b) (p + 16) v) p w) (page_addr b q)
      = load64 (store64 (bm_mem b) p w) (page_addr b q)"
    using page_words_apart [OF al pid q, of 0 0] ap
    by (cases "q = pid") (simp_all add: p_def load64_store64_same load64_store64_apart)
  show "load64 (store64 (store64 (bm_mem b) (p + 16) v) p w) (page_addr b q + 8)
      = load64 (store64 (bm_mem b) p w) (page_addr b q + 8)"
    using page_words_apart [OF al pid q, of 0 8] ap by (simp add: p_def load64_store64_apart)
qed

interpretation neovmcache_bm:
  buffer_manager "neovmcache_fix (Suc k)" neovmcache_unfix managers_ready neovmcache_held for k
proof unfold_locales
  fix b pid
  assume "managers_ready b" and pid: "pid < NumPages"
  note r = managers_readyD [OF this(1)]
  let ?p = "page_addr b pid"
  let ?b = "b\<lparr>bm_mem := store64 (bm_mem b) ?p (locked_state (load64 (bm_mem b) ?p))\<rparr>"
  have "neovmcache_virtMem b + pid * PageSize = ?p" using r(2) by (simp add: page_addr_def)
  then have "neovmcache_round pid b = Inr (Some ?p, ?b)"
    using r(8) [OF pid] r(9) [OF pid] pid
    by (simp add: neovmcache_round_def Let_def idle_word_def compareAndSwap_def not_le)
  moreover have "neovmcache_held pid ?b"
    using \<open>managers_ready b\<close> r(8) [OF pid]
    by (simp add: neovmcache_held_def idle_word_def load64_store64_same store64_twice store64_load64)
  ultimately show "\<exists>b'. neovmcache_fix (Suc k) pid b = Inr (page_addr b pid, b')
      \<and> neovmcache_held pid b' \<and> alike b b'"
    using fix_loop_first [of "neovmcache_round pid" b] page_data_state [OF r(1) pid]
    by (auto simp: neovmcache_fix_def alike_def)
next
  fix b pid
  assume h: "neovmcache_held pid b" and pid: "pid < NumPages"
  have al: "take_bit 12 (vmcache_virtMem b) = 0"
    using h managers_readyD(1) by (force simp: neovmcache_held_def)
  let ?p = "page_addr b pid"
  let ?s = "setUnlocked (load64 (bm_mem b) ?p)"
  have "apart (?p + 16) 8 ?p 8" using page_words_apart [OF al pid pid, of 16 0] by simp
  then show "neovmcache_held pid (use_page ?p b)"
    using h managers_ready_data [OF al pid] by (simp add: neovmcache_held_def use_page_def Let_def load64_store64_apart)
  show "\<exists>b'. neovmcache_unfix pid ?p b = Inr b' \<and> managers_ready b' \<and> alike b b'"
    using h page_data_state [OF al pid] by (simp add: neovmcache_unfix_def neovmcache_held_def alike_def)
next
  fix b pid
  assume "neovmcache_held pid b"
  then show "take_bit 12 (vmcache_virtMem b) = 0"
    using managers_readyD(1) by (force simp: neovmcache_held_def)
qed

subsection \<open>The managers are equivalent\<close>

text \<open>
  C12. The three buffer managers are equivalent: from a state in which every page is present and
  unlocked, the test with each of them returns, with the pages and the accumulator that the
  specification without locks and memory computes, and with every page unlocked again.\<close>

theorem managers_equivalent:
  assumes "managers_ready b"
  shows "\<exists>b1 b2 b3. performTest (hash_fix (Suc k)) hash_unfix N b = Inr b1
    \<and> performTest (vmcache_fix (Suc k)) vmcache_unfix N b = Inr b2
    \<and> performTest (neovmcache_fix (Suc k)) neovmcache_unfix N b = Inr b3
    \<and> managers_ready b1 \<and> managers_ready b2 \<and> managers_ready b3
    \<and> (page_data b1, acc b1) = spec_test N LCG_seed (page_data b, acc b)
    \<and> (page_data b2, acc b2) = spec_test N LCG_seed (page_data b, acc b)
    \<and> (page_data b3, acc b3) = spec_test N LCG_seed (page_data b, acc b)"
  unfolding performTest_def
  using hash_bm.test_loop_refines [OF assms, of k N LCG_seed] vmcache_bm.test_loop_refines [OF assms, of k N LCG_seed]
    neovmcache_bm.test_loop_refines [OF assms, of k N LCG_seed]
  by blast

text \<open>System calls that succeed, and a file of zeros.\<close>

definition demo_env :: exp_env where
  "demo_env =
     \<lparr>e_state_ok = True, e_tags_ok = True,
      e_file = \<lparr>f_exists = True, f_create = 3, f_lseek = 0, f_write = 1, f_open = 3, f_fstat = 0, f_size = 8192000\<rparr>,
      e_data = \<lambda>_. 0x10000, e_mem = \<lambda>_. 0, e_madvise = 0, e_mlock = 0\<rparr>"

definition demo_bufs :: bufs where
  "demo_bufs = exp_bufs demo_env 0x10000"

lemma demo_env_simps [simp]:
  "e_state_ok demo_env" "e_tags_ok demo_env" "e_data demo_env fd = 0x10000" "e_mem demo_env = (\<lambda>_. 0)"
  "e_madvise demo_env = 0" "e_mlock demo_env = 0"
  by (simp_all add: demo_env_def)

lemma init_table_eq:
  "pid < NumPages \<Longrightarrow> init_table base pid = Some (base + PageSize * pid)"
proof -
  have "fold (\<lambda>i m. m(of_nat i \<mapsto> base + PageSize * of_nat i)) [0..<n] Map.empty x
      = (if unat x < n then Some (base + PageSize * x) else None)" if "n \<le> 2 ^ 64" for n and x :: u64
    using that
  proof (induction n)
    case (Suc n)
    have "x = of_nat n \<longleftrightarrow> unat x = n"
      using Suc.prems by (auto simp: word_unat_eq_iff unat_of_nat_u64)
    with Suc show ?case by auto
  qed simp
  from this [of "unat NumPages" pid] show "pid < NumPages \<Longrightarrow> ?thesis"
    by (simp add: init_table_def word_less_nat_alt NumPages_def)
qed

text \<open>The content of the file suits \<open>neovmcache\<close>.\<close>

definition content_ready :: "mem \<Rightarrow> u64 \<Rightarrow> bool" where
  "content_ready m base \<longleftrightarrow> (\<forall>pid<NumPages. idle_word (load64 m (base + pid * PageSize))
     \<and> load64 m (base + pid * PageSize + 8) = 0)"

lemma load64_zero [simp]: "load64 (\<lambda>_. 0) a = 0"
  by (rule bit_eqI) (simp add: bit_load64)

lemma exp_bufs_ready:
  assumes "e_tags_ok E" "take_bit 12 base = 0" "content_ready (e_mem E) base"
  shows "managers_ready (exp_bufs E base)"
proof -
  have "list_all idle_word (replicate n 0)" for n
    by (simp add: list_all_iff idle_word_def)
  then show ?thesis
    using assms by (simp add: managers_ready_def exp_bufs_def content_ready_def page_addr_def init_table_eq
        mult.commute)
qed

lemma demo_bufs_ready: "managers_ready demo_bufs"
  unfolding demo_bufs_def
  by (rule exp_bufs_ready) (simp_all add: content_ready_def idle_word_def)

theorem managers_equivalent_witness:
  "\<exists>b1 b2 b3. performTest (hash_fix 1) hash_unfix 5 demo_bufs = Inr b1
    \<and> performTest (vmcache_fix 1) vmcache_unfix 5 demo_bufs = Inr b2
    \<and> performTest (neovmcache_fix 1) neovmcache_unfix 5 demo_bufs = Inr b3
    \<and> acc b1 = acc b2 \<and> acc b2 = acc b3 \<and> page_data b1 = page_data b2 \<and> page_data b2 = page_data b3"
  using managers_equivalent [OF demo_bufs_ready, of 0 5] unfolding One_nat_def by (metis prod.inject)

subsection \<open>The data file and \<open>main\<close>\<close>

text \<open>
  \<open>check_data_file\<close> leaks no descriptor: it either returns -1 with every descriptor closed again,
  or the one descriptor that is open, of a file that has all the pages.\<close>

lemma data_file_descriptors:
  "(case check_data_file F of (r, fds) \<Rightarrow>
     if r = -1 then fds = [] else fds = [r] \<and> NumPages * PageSize \<le> f_size F)"
  by (auto simp: check_data_file_def open_data_file_def Let_def)

text \<open>
  C29. The experiment runs to its end: when the mappings succeed and the file's pages are such that
  \<open>neovmcache\<close> can lock them, \<open>main\<close> returns 0, and pages and accumulator are what three runs of the
  specification compute.\<close>

theorem experiment_completes:
  assumes "e_state_ok E" "e_tags_ok E" "e_madvise E = 0" "e_mlock E = 0"
    and "base = e_data E (fst (check_data_file (e_file E)))" "base \<noteq> -1" "take_bit 12 base = 0"
    and "content_ready (e_mem E) base"
  shows "\<exists>b. exp_main (Suc k) E = (Return 0, snd (check_data_file (e_file E)), Some b)
    \<and> (page_data b, acc b) = spec_test N_ops LCG_seed (spec_test N_ops LCG_seed
         (spec_test N_ops LCG_seed (page_data (exp_bufs E base), 0)))"
proof -
  let ?b0 = "exp_bufs E base"
  have r0: "managers_ready ?b0" using assms by (intro exp_bufs_ready)
  have "acc ?b0 = 0" by (simp add: exp_bufs_def)
  moreover obtain b1 where 1: "performTest (hash_fix (Suc k)) hash_unfix N_ops ?b0 = Inr b1" "managers_ready b1"
      "(page_data b1, acc b1) = spec_test N_ops LCG_seed (page_data ?b0, acc ?b0)"
    unfolding performTest_def using hash_bm.test_loop_refines [OF r0] by blast
  moreover obtain b2 where 2: "performTest (vmcache_fix (Suc k)) vmcache_unfix N_ops b1 = Inr b2" "managers_ready b2"
      "(page_data b2, acc b2) = spec_test N_ops LCG_seed (page_data b1, acc b1)"
    unfolding performTest_def using vmcache_bm.test_loop_refines [OF 1(2)] by blast
  moreover obtain b3 where 3: "performTest (neovmcache_fix (Suc k)) neovmcache_unfix N_ops b2 = Inr b3"
      "(page_data b3, acc b3) = spec_test N_ops LCG_seed (page_data b2, acc b2)"
    unfolding performTest_def using neovmcache_bm.test_loop_refines [OF 2(2)] by blast
  ultimately have run: "run_tests (Suc k) N_ops ?b0 = Inr b3"
      "(page_data b3, acc b3) = spec_test N_ops LCG_seed (spec_test N_ops LCG_seed
         (spec_test N_ops LCG_seed (page_data ?b0, 0)))"
    by (simp_all add: run_tests_def)
  obtain fd fds where c: "check_data_file (e_file E) = (fd, fds)" by fastforce
  have "exp_main (Suc k) E = (Return 0, fds, Some b3)"
    using assms(1-6) run(1) by (simp add: exp_main_def c Let_def)
  with run(2) c show ?thesis by simp
qed

theorem experiment_completes_witness:
  "\<exists>b. exp_main 1 demo_env = (Return 0, [3], Some b)"
proof -
  have 1: "check_data_file (e_file demo_env) = (3, [3])"
    by (simp add: check_data_file_def open_data_file_def demo_env_def NumPages_def PageSize_def)
  have 2: "content_ready (e_mem demo_env) 0x10000"
    by (simp add: content_ready_def idle_word_def)
  show ?thesis
    using experiment_completes [OF _ _ _ _ _ _ _ 2, of 0] 1 by auto
qed

text \<open>A failed mapping of \<open>buf_tags\<close> is not noticed: the first access to it faults.\<close>

lemma tags_unchecked:
  assumes "e_state_ok E" "\<not> e_tags_ok E" "e_madvise E = 0" "e_mlock E = 0"
    and "e_data E (fst (check_data_file (e_file E))) \<noteq> -1"
  shows "fst (exp_main (Suc k) E) = Crash Bad_access"
proof -
  obtain n where N: "N_ops = Suc n" by (cases N_ops) (simp_all add: N_ops_def)
  have "performTest (hash_fix (Suc k)) hash_unfix N_ops (exp_bufs E base) = Inl Bad_access" for base
    unfolding performTest_def N using assms(2)
    by (simp add: Let_def hash_fix_def hash_round_def exp_bufs_def)
  then have run: "run_tests (Suc k) N_ops (exp_bufs E base) = Inl Bad_access" for base
    by (simp add: run_tests_def)
  obtain fd fds where "check_data_file (e_file E) = (fd, fds)" by fastforce
  then show ?thesis using assms by (simp add: exp_main_def run Let_def)
qed

text \<open>A page whose second word is not zero is never fixed by \<open>neovmcache\<close>, however long it tries.\<close>

lemma neovmcache_spins:
  assumes "pid < NumPages" "\<not> isEvicted (load64 (bm_mem b) (neovmcache_virtMem b + pid * PageSize))"
    and "load64 (bm_mem b) (neovmcache_virtMem b + pid * PageSize + 8) \<noteq> 0"
  shows "neovmcache_fix k pid b = Inl No_fuel"
proof -
  have "neovmcache_round pid b = Inr (None, b)"
    using assms by (simp add: neovmcache_round_def Let_def not_le)
  then show ?thesis by (induction k) (simp_all add: neovmcache_fix_def)
qed

subsection \<open>Many threads on one page\<close>

text \<open>
  The state word of one page, shared by any number of threads that fix and release it. A step is one
  access to the word: \<open>unfix\<close> assigns a bit field, which is a load and a store.
\<close>

datatype fpc =
    Outside
  | Loaded u64       \<comment> \<open>\<open>fix\<close> has copied the state\<close>
  | Inside           \<comment> \<open>\<open>fix\<close> has returned\<close>
  | Unfixing u64     \<comment> \<open>\<open>unfix\<close> has loaded the word\<close>

record fixlock =
  l_word :: u64
  l_pc :: "nat \<Rightarrow> fpc"

abbreviation moves :: "nat \<Rightarrow> fpc \<Rightarrow> fixlock \<Rightarrow> fixlock" where
  "moves t l s \<equiv> s\<lparr>l_pc := (l_pc s)(t := l)\<rparr>"

inductive fix_step :: "nat \<Rightarrow> fixlock \<Rightarrow> fixlock \<Rightarrow> bool" for t where
  load: "l_pc s t = Outside \<Longrightarrow> fix_step t s (moves t (Loaded (l_word s)) s)"
| cas: "l_pc s t = Loaded w \<Longrightarrow> \<not> isEvicted w \<Longrightarrow> isMarked w \<or> isUnlocked w \<Longrightarrow>
    compareAndSwap (l_word s) w (locked_state w) = (True, v) \<Longrightarrow>
    fix_step t s ((moves t Inside s)\<lparr>l_word := v\<rparr>)"
| cas_fails: "l_pc s t = Loaded w \<Longrightarrow> \<not> isEvicted w \<Longrightarrow> isMarked w \<or> isUnlocked w \<Longrightarrow>
    compareAndSwap (l_word s) w (locked_state w) = (False, v) \<Longrightarrow> fix_step t s (moves t Outside s)"
| again: "l_pc s t = Loaded w \<Longrightarrow> \<not> isEvicted w \<Longrightarrow> \<not> (isMarked w \<or> isUnlocked w) \<Longrightarrow>
    fix_step t s (moves t Outside s)"
| unfix_load: "l_pc s t = Inside \<Longrightarrow> fix_step t s (moves t (Unfixing (l_word s)) s)"
| unfix_store: "l_pc s t = Unfixing w \<Longrightarrow>
    fix_step t s ((moves t Outside s)\<lparr>l_word := setUnlocked w\<rparr>)"

inductive fix_reach :: "fixlock \<Rightarrow> fixlock \<Rightarrow> bool" for s0 where
  start: "fix_reach s0 s0"
| step: "fix_reach s0 s \<Longrightarrow> fix_step t s s' \<Longrightarrow> fix_reach s0 s'"

text \<open>A thread owns the page from the return of \<open>fix\<close> to the end of \<open>unfix\<close>.\<close>

fun owner :: "fpc \<Rightarrow> bool" where
  "owner Inside = True"
| "owner (Unfixing w) = True"
| "owner _ = False"

definition fix_inv :: "u64 \<Rightarrow> fixlock \<Rightarrow> bool" where
  "fix_inv w0 s \<longleftrightarrow>
     (if \<exists>t. owner (l_pc s t) then l_word s = locked_state w0 else l_word s = w0)
   \<and> (\<forall>t u. owner (l_pc s t) \<longrightarrow> owner (l_pc s u) \<longrightarrow> t = u)
   \<and> (\<forall>t w. l_pc s t = Unfixing w \<longrightarrow> w = l_word s)"

lemma fix_inv_cong:
  assumes "fix_inv w0 s" "l_word s' = l_word s" "\<And>u. owner (l_pc s' u) = owner (l_pc s u)"
    and "\<And>u w. l_pc s' u = Unfixing w \<Longrightarrow> l_pc s u = Unfixing w \<or> w = l_word s"
  shows "fix_inv w0 s'"
  using assms(1,4) unfolding fix_inv_def assms(2,3) by blast

lemma fix_step_inv:
  assumes "fix_step t s s'" "fix_inv w0 s" "\<not> isMarked w0" "isUnlocked w0"
  shows "fix_inv w0 s'"
  using assms(1)
proof cases
  case (cas w v)
  have v: "l_word s = w" "v = locked_state w" using cas(5) by (auto simp: compareAndSwap_def split: if_splits)
  have "\<not> (\<exists>u. owner (l_pc s u))"
  proof
    assume "\<exists>u. owner (l_pc s u)"
    then have "w = locked_state w0" using assms(2) v(1) by (auto simp: fix_inv_def)
    with cas(4) assms(3) show False by (simp add: bit_state_updates)
  qed
  then have "\<not> owner (l_pc s u)" "l_pc s u \<noteq> Unfixing x" for u x by (auto dest: spec [of _ u])
  with assms(2) cas(1) v show ?thesis by (auto simp: fix_inv_def)
next
  case (unfix_store w)
  then have o: "owner (l_pc s t)" by simp
  with assms(2) have u: "owner (l_pc s u) \<longleftrightarrow> u = t" for u by (auto simp: fix_inv_def)
  have "w = locked_state w0" using assms(2) o unfix_store(2) unfolding fix_inv_def by metis
  then have "setUnlocked w = w0" using assms(4) by simp
  moreover have "\<not> owner (l_pc s' u)" for u using u unfix_store(1) by simp
  moreover have "l_pc s u \<noteq> Unfixing x" if "u \<noteq> t" for u x using u [of u] that by auto
  ultimately show ?thesis using unfix_store(1) by (auto simp: fix_inv_def)
qed (rule fix_inv_cong [OF assms(2)], auto split: if_splits)+

text \<open>
  C13. \<open>fix\<close> is a lock: when a page starts unlocked and unmarked, then under any interleaving of any number
  of threads at most one thread is between \<open>fix\<close> and \<open>unfix\<close>; the word is locked exactly
  while there is one, and is otherwise as at the start.\<close>

theorem fix_mutual_exclusion:
  assumes "fix_reach s0 s" "\<forall>t. l_pc s0 t = Outside" "\<not> isMarked (l_word s0)" "isUnlocked (l_word s0)"
  shows "(\<forall>t u. owner (l_pc s t) \<longrightarrow> owner (l_pc s u) \<longrightarrow> t = u)
    \<and> l_word s = (if \<exists>t. owner (l_pc s t) then locked_state (l_word s0) else l_word s0)"
proof -
  have "fix_inv (l_word s0) s"
    using assms(1)
  proof induction
    case start
    then show ?case using assms(2) by (simp add: fix_inv_def)
  next
    case (step s t s')
    then show ?case using fix_step_inv assms(3,4) by blast
  qed
  then show ?thesis unfolding fix_inv_def by simp
qed

definition demo_lock :: "u64 \<Rightarrow> fixlock" where
  "demo_lock w = \<lparr>l_word = w, l_pc = \<lambda>_. Outside\<rparr>"

lemma one_fix: "fix_reach s0 s \<Longrightarrow> l_pc s t = Outside \<Longrightarrow> \<not> isEvicted (l_word s) \<Longrightarrow>
  isMarked (l_word s) \<or> isUnlocked (l_word s) \<Longrightarrow>
  fix_reach s0 ((moves t Inside s)\<lparr>l_word := locked_state (l_word s)\<rparr>)"
  using fix_reach.step [OF fix_reach.step [OF _ load] cas, of s0 s t t "l_word s" "locked_state (l_word s)"]
  by (simp add: compareAndSwap_def)

theorem fix_mutual_exclusion_witness:
  "\<exists>s. fix_reach (demo_lock 0) s \<and> owner (l_pc s 0) \<and> \<not> owner (l_pc s 1) \<and> l_word s = 4"
proof -
  let ?s = "(moves 0 Inside (demo_lock 0))\<lparr>l_word := locked_state (l_word (demo_lock 0))\<rparr>"
  have r: "fix_reach (demo_lock 0) ?s"
    by (rule one_fix) (simp_all add: fix_reach.start demo_lock_def)
  have "locked_state 0 = 4" by code_simp
  with fix_mutual_exclusion [OF r] r show ?thesis
    by (intro exI [of _ ?s]) (auto simp: demo_lock_def)
qed

text \<open>
  A marked page has no lock: the test \<open>isMarked() || isUnlocked()\<close> lets \<open>fix\<close> replace the locked state
  of a marked page by itself, so that two threads own the page at once.\<close>

lemma marked_page_shared:
  "\<exists>s. fix_reach (demo_lock (setMarked PageState)) s \<and> owner (l_pc s 0) \<and> owner (l_pc s 1)"
proof -
  let ?s0 = "demo_lock (setMarked PageState)"
  let ?s1 = "(moves 0 Inside ?s0)\<lparr>l_word := locked_state (l_word ?s0)\<rparr>"
  let ?s2 = "(moves 1 Inside ?s1)\<lparr>l_word := locked_state (l_word ?s1)\<rparr>"
  have "fix_reach ?s0 ?s1"
    by (rule one_fix) (simp_all add: fix_reach.start demo_lock_def bit_state_updates PageState_def)
  then have "fix_reach ?s0 ?s2"
    by (rule one_fix) (simp_all add: demo_lock_def bit_state_updates PageState_def)
  then show ?thesis by (intro exI [of _ ?s2]) simp
qed

end
