(* ===== verification/Arm_Module.thy ===== *)
theory Arm_Module
  imports Kernel_Module
begin

text \<open>
  The branches of the kernel module (\<open>PTEditor/module/pteditor.c\<close>) and of \<open>PTEditor/ptedit.h\<close> that are compiled on
  AArch64 only: TLB invalidation by instructions and through the kernel's \<open>flush_tlb_page\<close>, the memory
  attributes in \<open>MAIR_EL1\<close>, the page size the module reads from \<open>TCR_EL1\<close>, the two tests for large pages the
  module defines itself, and the structs of the entries that map large pages.

  The walk and the update are the ones of \<open>Kernel_Module\<close>, with the kernel's functions as an argument.
\<close>

subsection \<open>State\<close>

text \<open>Instructions and calls, with the CPU that executes them.\<close>

datatype arm_event =
    Dsb_ishst nat | Tlbi_vmalle1is nat | Dsb_ish nat | Isb nat
  | Flush_tlb_page nat nat u64

text \<open>What the code reads of its surroundings: the number of CPUs and the one it runs on, \<open>TCR_EL1\<close>, and \<open>find_vma\<close> on the caller's
  address space, which returns an area and its start.\<close>

record arm_env =
  ae_ncpus :: nat
  ae_this_cpu :: nat
  ae_tcr_el1 :: u64
  ae_find_vma :: "u64 \<Rightarrow> (nat \<times> u64) option"

record arm_state =
  as_mair_el1 :: "nat \<Rightarrow> u64"
  as_page_size :: u32
  as_page_shift :: nat
  as_invalidate_tlb :: "tlb_fn option"
  as_events :: "arm_event list"

definition arm_log :: "arm_event list \<Rightarrow> arm_state \<Rightarrow> arm_state" where
  "arm_log es s = s\<lparr>as_events := as_events s @ es\<rparr>"

definition arm_on_each_cpu :: "arm_env \<Rightarrow> (nat \<Rightarrow> arm_state \<Rightarrow> arm_state) \<Rightarrow> arm_state \<Rightarrow> arm_state" where
  "arm_on_each_cpu E f s = fold f [0..<ae_ncpus E] s"

subsection \<open>TLB invalidation\<close>

text \<open>\<open>_invalidate_tlb\<close>: the whole TLB of the inner shareable domain, whatever the address.\<close>

definition arm_invalidate_tlb_cpu :: "nat \<Rightarrow> arm_state \<Rightarrow> arm_state" where
  "arm_invalidate_tlb_cpu cpu s = arm_log [Dsb_ishst cpu, Tlbi_vmalle1is cpu, Dsb_ish cpu, Isb cpu] s"

definition arm_invalidate_tlb_custom :: "arm_env \<Rightarrow> u64 \<Rightarrow> arm_state \<Rightarrow> arm_state" where
  "arm_invalidate_tlb_custom E addr s = arm_on_each_cpu E arm_invalidate_tlb_cpu s"

definition flush_tlb_page_smp :: "nat \<times> u64 \<Rightarrow> nat \<Rightarrow> arm_state \<Rightarrow> arm_state" where
  "flush_tlb_page_smp tlb_page cpu s = arm_log [Flush_tlb_page cpu (fst tlb_page) (snd tlb_page)] s"

definition arm_invalidate_tlb_kernel :: "arm_env \<Rightarrow> u64 \<Rightarrow> arm_state \<Rightarrow> arm_state" where
  "arm_invalidate_tlb_kernel E addr s =
     (case ae_find_vma E addr of
        None \<Rightarrow> s
      | Some (vma, vm_start) \<Rightarrow>
          if addr < vm_start then s else arm_on_each_cpu E (flush_tlb_page_smp (vma, addr)) s)"

subsection \<open>Memory attributes\<close>

definition arm_set_pat_cpu :: "u64 \<Rightarrow> nat \<Rightarrow> arm_state \<Rightarrow> arm_state" where
  "arm_set_pat_cpu pat cpu s = s\<lparr>as_mair_el1 := (as_mair_el1 s)(cpu := pat)\<rparr>"

definition arm_set_pat :: "arm_env \<Rightarrow> u64 \<Rightarrow> arm_state \<Rightarrow> arm_state" where
  "arm_set_pat E pat s = arm_on_each_cpu E (arm_set_pat_cpu pat) s"

text \<open>The value copied to the caller by \<open>PTEDITOR_IOCTL_CMD_GET_PAT\<close>.\<close>

definition arm_get_pat :: "arm_env \<Rightarrow> arm_state \<Rightarrow> u64" where
  "arm_get_pat E s = as_mair_el1 s (ae_this_cpu E)"

subsection \<open>Loading the module\<close>

text \<open>The page size and shift, from the granule field of \<open>TCR_EL1\<close>.\<close>

definition arm_init_page_size :: "arm_env \<Rightarrow> arm_state \<Rightarrow> arm_state" where
  "arm_init_page_size E s =
     (let g = drop_bit 14 (ae_tcr_el1 E) AND 3 in
      if g = 1 then s\<lparr>as_page_size := 64 * 1024, as_page_shift := 16\<rparr>
      else if g = 2 then s\<lparr>as_page_size := 16 * 1024, as_page_shift := 14\<rparr>
      else s)"

text \<open>The return probe on \<open>devmem_is_allowed\<close>, on the register \<open>x0\<close>.\<close>

definition arm_devmem_bypass :: "u64 \<Rightarrow> u64" where
  "arm_devmem_bypass x0 = (if x0 = 0 then 1 else x0)"

subsection \<open>Large pages\<close>

text \<open>With a level of page middle directories, the only configuration the module compiles in, both tests return
  0.\<close>

definition arm_pud_large :: "u64 \<Rightarrow> bool" where "arm_pud_large pud = False"
definition arm_pmd_large :: "u64 \<Rightarrow> bool" where "arm_pmd_large pmd = False"

subsection \<open>The structs of entries that map large pages\<close>

record arm_pgd_large_t =
  apl_present :: u64
  apl_memory_attributes_index :: u64
  apl_non_secure :: u64
  apl_access_permissions :: u64
  apl_shareability_field :: u64
  apl_access_flag :: u64
  apl_not_global :: u64
  apl_reserved_1 :: u64
  apl_pfn :: u64
  apl_reserved_2 :: u64
  apl_contiguous :: u64
  apl_privileged_execute_never :: u64
  apl_execute_never :: u64
  apl_ingored_1 :: u64
  apl_ignored_2 :: u64

definition cast_arm_pgd_large :: "u64 \<Rightarrow> arm_pgd_large_t" where
  "cast_arm_pgd_large v = \<lparr>
     apl_present = field 0 2 v, apl_memory_attributes_index = field 2 3 v, apl_non_secure = field 5 1 v,
     apl_access_permissions = field 6 2 v, apl_shareability_field = field 8 2 v, apl_access_flag = field 10 1 v,
     apl_not_global = field 11 1 v, apl_reserved_1 = field 12 18 v, apl_pfn = field 30 18 v,
     apl_reserved_2 = field 48 4 v, apl_contiguous = field 52 1 v, apl_privileged_execute_never = field 53 1 v,
     apl_execute_never = field 54 1 v, apl_ingored_1 = field 55 4 v, apl_ignored_2 = field 59 5 v\<rparr>"

record arm_pmd_large_t =
  aml_present :: u64
  aml_memory_attributes_index :: u64
  aml_non_secure :: u64
  aml_access_permissions :: u64
  aml_shareability_field :: u64
  aml_access_flag :: u64
  aml_not_global :: u64
  aml_reserved_1 :: u64
  aml_pfn :: u64
  aml_reserved_2 :: u64
  aml_contiguous :: u64
  aml_privileged_execute_never :: u64
  aml_execute_never :: u64
  aml_ingored_1 :: u64
  aml_ignored_2 :: u64

definition cast_arm_pmd_large :: "u64 \<Rightarrow> arm_pmd_large_t" where
  "cast_arm_pmd_large v = \<lparr>
     aml_present = field 0 2 v, aml_memory_attributes_index = field 2 3 v, aml_non_secure = field 5 1 v,
     aml_access_permissions = field 6 2 v, aml_shareability_field = field 8 2 v, aml_access_flag = field 10 1 v,
     aml_not_global = field 11 1 v, aml_reserved_1 = field 12 9 v, aml_pfn = field 21 27 v,
     aml_reserved_2 = field 48 4 v, aml_contiguous = field 52 1 v, aml_privileged_execute_never = field 53 1 v,
     aml_execute_never = field 54 1 v, aml_ingored_1 = field 55 4 v, aml_ignored_2 = field 59 5 v\<rparr>"

definition pack_arm_pgd_large :: "arm_pgd_large_t \<Rightarrow> u64" where
  "pack_arm_pgd_large p = pack_fields
     [(2, apl_present p), (3, apl_memory_attributes_index p), (1, apl_non_secure p), (2, apl_access_permissions p),
      (2, apl_shareability_field p), (1, apl_access_flag p), (1, apl_not_global p), (18, apl_reserved_1 p),
      (18, apl_pfn p), (4, apl_reserved_2 p), (1, apl_contiguous p), (1, apl_privileged_execute_never p),
      (1, apl_execute_never p), (4, apl_ingored_1 p), (5, apl_ignored_2 p)]"

definition pack_arm_pmd_large :: "arm_pmd_large_t \<Rightarrow> u64" where
  "pack_arm_pmd_large p = pack_fields
     [(2, aml_present p), (3, aml_memory_attributes_index p), (1, aml_non_secure p), (2, aml_access_permissions p),
      (2, aml_shareability_field p), (1, aml_access_flag p), (1, aml_not_global p), (9, aml_reserved_1 p),
      (27, aml_pfn p), (4, aml_reserved_2 p), (1, aml_contiguous p), (1, aml_privileged_execute_never p),
      (1, aml_execute_never p), (4, aml_ingored_1 p), (5, aml_ignored_2 p)]"

subsection \<open>Properties\<close>

lemma pack_cast_arm_pgd_large: "pack_arm_pgd_large (cast_arm_pgd_large v) = v"
  using pack_cut_fields [of 0 "[2,3,1,2,2,1,1,18,18,4,1,1,1,4,5]" v]
  by (simp add: cast_arm_pgd_large_def pack_arm_pgd_large_def field_all
      del: pack_fields.simps One_nat_def add_2_eq_Suc add_2_eq_Suc')

lemma pack_cast_arm_pmd_large: "pack_arm_pmd_large (cast_arm_pmd_large v) = v"
  using pack_cut_fields [of 0 "[2,3,1,2,2,1,1,9,27,4,1,1,1,4,5]" v]
  by (simp add: cast_arm_pmd_large_def pack_arm_pmd_large_def field_all
      del: pack_fields.simps One_nat_def add_2_eq_Suc add_2_eq_Suc')

lemma pmd_large_pfn: "aml_pfn (cast_arm_pmd_large v) = drop_bit 9 (apte_pfn (cast_arm_pte v))"
  by (rule bit_word_eqI) (auto simp: cast_arm_pmd_large_def cast_arm_pte_def bit_field bit_drop_bit_eq)

lemma pgd_large_pfn: "apl_pfn (cast_arm_pgd_large v) = drop_bit 18 (apte_pfn (cast_arm_pte v))"
  by (rule bit_word_eqI) (auto simp: cast_arm_pgd_large_def cast_arm_pte_def bit_field bit_drop_bit_eq)


text \<open>The page size and the shift agree for every granule, where they did before.\<close>

lemma arm_page_size_shift:
  assumes "unat (as_page_size s) = 2 ^ as_page_shift s"
  shows "unat (as_page_size (arm_init_page_size E s)) = 2 ^ as_page_shift (arm_init_page_size E s)"
  using assms by (simp add: arm_init_page_size_def Let_def)

text \<open>What \<open>SET_PAT\<close> writes, \<open>GET_PAT\<close> returns, all 64 bits of it, on every CPU.\<close>

lemma arm_pat_roundtrip:
  assumes "ae_this_cpu E < ae_ncpus E"
  shows "arm_get_pat E (arm_set_pat E pat s) = pat"
proof -
  have "as_mair_el1 (fold (arm_set_pat_cpu pat) cpus s) c = (if c \<in> set cpus then pat else as_mair_el1 s c)" for cpus c
    by (induction cpus arbitrary: s) (auto simp: arm_set_pat_cpu_def)
  then show ?thesis using assms by (simp add: arm_get_pat_def arm_set_pat_def arm_on_each_cpu_def)
qed

text \<open>The flush reaches every CPU when the address is in an area of the caller; otherwise nothing is
  flushed, which is also the case when the entry of another process has been changed.\<close>

lemma arm_log_events [simp]: "as_events (arm_log es s) = as_events s @ es"
  by (simp add: arm_log_def)

lemma fold_arm_log: "fold (\<lambda>cpu s. arm_log (f cpu) s) cpus s = arm_log (concat (map f cpus)) s"
  by (induction cpus arbitrary: s) (simp_all add: arm_log_def)

lemma arm_kernel_flush:
  "as_events (arm_invalidate_tlb_kernel E addr s) = as_events s @
     (case ae_find_vma E addr of
        None \<Rightarrow> []
      | Some (vma, start) \<Rightarrow> if addr < start then [] else map (\<lambda>cpu. Flush_tlb_page cpu vma addr) [0..<ae_ncpus E])"
  by (simp add: arm_invalidate_tlb_kernel_def arm_on_each_cpu_def flush_tlb_page_smp_def [abs_def] fold_arm_log
      concat_map_singleton split: option.split)

subsection \<open>A block resolved as a table\<close>

text \<open>The pointers of the walk before the page table, as \<open>resolve_vm\<close> computes them.\<close>

definition pmd_ptr :: "kernel \<Rightarrow> mem \<Rightarrow> u64 \<Rightarrow> u64 \<Rightarrow> u64" where
  "pmd_ptr K m pgd a = k_pmd_offset K m (k_pud_offset K m (k_p4d_offset K m (k_pgd_offset K pgd a) a) a) a"

text \<open>The walk passes the four upper levels: no entry is none or bad.\<close>

definition arm_walk_passes :: "kernel \<Rightarrow> mem \<Rightarrow> u64 \<Rightarrow> u64 \<Rightarrow> bool" where
  "arm_walk_passes K m pgd a \<longleftrightarrow>
     (let p = k_pgd_offset K pgd a; p4 = k_p4d_offset K m p a; pu = k_pud_offset K m p4 a; pm = k_pmd_offset K m pu a
      in \<not> k_pgd_none K (kread K m p) \<and> \<not> k_pgd_bad K (kread K m p)
       \<and> \<not> k_p4d_none K (kread K m p4) \<and> \<not> k_p4d_bad K (kread K m p4)
       \<and> \<not> k_pud_none K (kread K m pu) \<and> \<not> k_pmd_none K (kread K m pm))"


text \<open>A kernel of AArch64 in the respects the walk uses: the fifth level is folded, an entry is none when it is 0.\<close>

definition linux_arm :: "task \<Rightarrow> nat \<Rightarrow> kernel" where
  "linux_arm cur procs = (linux_x86 cur procs)\<lparr>
     k_p4d_none := (\<lambda>_. False), k_p4d_bad := (\<lambda>_. False), k_pud_none := (\<lambda>e. e = 0), k_pmd_none := (\<lambda>e. e = 0),
     k_pud_large := arm_pud_large, k_pmd_large := arm_pmd_large\<rparr>"

text \<open>The concrete tables with a block entry, of type 1, for the 2 MiB at the address.\<close>

definition block_state :: kstate where
  "block_state = demo_kstate\<lparr>phys := store64 demo_mem 0x3018 0x60000000200701\<rparr>"


end
