(* ===== verification/Pool_Bench.thy ===== *)
theory Pool_Bench
  imports Page_Pool "HOL-Library.AList"
begin

text \<open>
  The benchmark of the physical-page pool, \<open>src/mem_pool_benchmark.cc\<close>: a thread takes a number of pages,
  fills each of them, and gives them back; \<open>bench\<close> runs the threads on jemalloc and on a pool that it builds and
  destroys, and \<open>main\<close> repeats this for growing numbers of threads.

  The allocators the pool is compared with are a parameter, the record \<open>heap\<close>; what is used of their documentation
  is the locale \<open>libc_heap\<close>. The contract of a thread, \<open>page_source\<close>, follows from it, and is proved for the pool too.
  The threads run one after the other here, one of the schedules the program has; \<open>Pool_Concurrency\<close> has the
  interleavings. \<open>None\<close> is a call that has not returned or has no defined effect.
\<close>

subsection \<open>One thread\<close>

datatype bench_error = Pool_error pool_error | Assert_page | Assert_iterations | Division_by_zero

definition PAGE_SIZE :: nat where "PAGE_SIZE = 4096"

text \<open>\<open>memset(page, 42, PAGE_SIZE)\<close> overwrites the field \<open>next\<close> of the page, which lies in its first bytes.\<close>

definition memset_page :: "ptr \<Rightarrow> pool \<Rightarrow> pool" where
  "memset_page page P = P\<lparr>p_next := (p_next P)(page := 0x2a2a2a2a2a2a2a2a)\<rparr>"

fun take_pages :: "nat \<Rightarrow> nat \<Rightarrow> nat \<Rightarrow> pool \<Rightarrow> (bench_error + ptr list \<times> pool) option" where
  "take_pages k hash 0 P = Some (Inr ([], P))"
| "take_pages k hash (Suc ops) P =
     (case allocate k hash P of
        None \<Rightarrow> None
      | Some (page, P1) \<Rightarrow>
          if page = 0 then Some (Inl Assert_page)
          else map_option (map_sum id (\<lambda>(ptrs, P2). (page # ptrs, P2))) (take_pages k hash ops (memset_page page P1)))"

definition memory_pool_test :: "nat \<Rightarrow> nat \<Rightarrow> nat \<Rightarrow> pool \<Rightarrow> (bench_error + pool) option" where
  "memory_pool_test k hash ops P =
     map_option (map_sum id (\<lambda>(ptrs, P1). fold deallocate ptrs P1)) (take_pages k hash ops P)"

text \<open>The functions for \<open>malloc\<close> and jemalloc. \<open>h_memset\<close> and \<open>h_free\<close> are undefined outside live blocks.\<close>

record 's heap =
  h_malloc :: "nat \<Rightarrow> 's \<Rightarrow> ptr \<times> 's"
  h_memset :: "ptr \<Rightarrow> u8 \<Rightarrow> nat \<Rightarrow> 's \<Rightarrow> 's option"
  h_free :: "ptr \<Rightarrow> 's \<Rightarrow> 's option"

fun malloc_pages :: "'s heap \<Rightarrow> nat \<Rightarrow> 's \<Rightarrow> (bench_error + ptr list \<times> 's) option" where
  "malloc_pages H 0 s = Some (Inr ([], s))"
| "malloc_pages H (Suc ops) s =
     (let (page, s1) = h_malloc H PAGE_SIZE s
      in if page = 0 then Some (Inl Assert_page)
         else do {
           s2 \<leftarrow> h_memset H page 42 PAGE_SIZE s1;
           map_option (map_sum id (\<lambda>(ptrs, s3). (page # ptrs, s3))) (malloc_pages H ops s2)
         })"

fun free_pages :: "'s heap \<Rightarrow> ptr list \<Rightarrow> 's \<Rightarrow> 's option" where
  "free_pages H [] s = Some s"
| "free_pages H (p # ps) s = do { s1 \<leftarrow> h_free H p s; free_pages H ps s1 }"

definition malloc_test :: "'s heap \<Rightarrow> nat \<Rightarrow> 's \<Rightarrow> (bench_error + 's) option" where
  "malloc_test H ops s =
     do {
       r \<leftarrow> malloc_pages H ops s;
       (case r of Inl e \<Rightarrow> Some (Inl e) | Inr (ptrs, s1) \<Rightarrow> map_option Inr (free_pages H ptrs s1))
     }"

text \<open>The same text with \<open>je_malloc\<close> and \<open>je_free\<close>.\<close>

definition jemalloc_test :: "'s heap \<Rightarrow> nat \<Rightarrow> 's \<Rightarrow> (bench_error + 's) option" where
  "jemalloc_test J ops s =
     do {
       r \<leftarrow> malloc_pages J ops s;
       (case r of Inl e \<Rightarrow> Some (Inl e) | Inr (ptrs, s1) \<Rightarrow> map_option Inr (free_pages J ptrs s1))
     }"

subsection \<open>The benchmark\<close>

text \<open>The threads of one run, by the hashes of their ids, and those on jemalloc.\<close>

fun run_threads :: "nat \<Rightarrow> nat list \<Rightarrow> nat \<Rightarrow> pool \<Rightarrow> (bench_error + pool) option" where
  "run_threads k [] iterations P = Some (Inr P)"
| "run_threads k (h # hs) iterations P =
     (case memory_pool_test k h iterations P of
        None \<Rightarrow> None
      | Some (Inl e) \<Rightarrow> Some (Inl e)
      | Some (Inr P1) \<Rightarrow> run_threads k hs iterations P1)"

fun run_malloc :: "'s heap \<Rightarrow> nat \<Rightarrow> nat \<Rightarrow> 's \<Rightarrow> (bench_error + 's) option" where
  "run_malloc J 0 iterations s = Some (Inr s)"
| "run_malloc J (Suc num_threads) iterations s =
     (case jemalloc_test J iterations s of
        None \<Rightarrow> None
      | Some (Inl e) \<Rightarrow> Some (Inl e)
      | Some (Inr s1) \<Rightarrow> run_malloc J num_threads iterations s1)"

text \<open>The throughput, from the duration in milliseconds: integer arithmetic, the result of a division by zero
  being \<open>None\<close>.\<close>

definition throughput :: "u64 \<Rightarrow> u64 \<Rightarrow> u64 \<Rightarrow> u64 option" where
  "throughput num_threads iterations duration =
     (if duration = 0 then None else Some (num_threads * iterations div duration * 1000))"

text \<open>What a run of \<open>bench\<close> is given from outside: the results of \<open>aligned_alloc\<close>, the hashes of the threads' ids, as many
  as there are threads, and the durations of its two parts. Its result has the pages the destructor frees, the two
  throughputs and the heap.\<close>

record bench_env =
  e_pages :: "ptr list"
  e_hashes :: "nat list"
  e_clock :: "u64 \<times> u64"

definition bench :: "'s heap \<Rightarrow> nat \<Rightarrow> bench_env \<Rightarrow> nat \<Rightarrow> nat \<Rightarrow> nat \<Rightarrow> 's
    \<Rightarrow> (bench_error + ptr list \<times> u64 list \<times> 's) option" where
  "bench J k E n per_pool iterations s =
     (let num_threads = length (e_hashes E) in
      case MemoryPool n PAGE_SIZE (e_pages E) of
        Inl e \<Rightarrow> Some (Inl (Pool_error e))
      | Inr P \<Rightarrow>
          if \<not> iterations \<le> per_pool then Some (Inl Assert_iterations)
          else (case run_malloc J num_threads iterations s of
                  None \<Rightarrow> None
                | Some (Inl e) \<Rightarrow> Some (Inl e)
                | Some (Inr s1) \<Rightarrow>
          (case throughput (of_nat num_threads) (of_nat iterations) (fst (e_clock E)) of
             None \<Rightarrow> Some (Inl Division_by_zero)
           | Some t1 \<Rightarrow>
          (case run_threads k (e_hashes E) iterations P of
             None \<Rightarrow> None
           | Some (Inl e) \<Rightarrow> Some (Inl e)
           | Some (Inr P1) \<Rightarrow>
          (case throughput (of_nat num_threads) (of_nat iterations) (snd (e_clock E)) of
             None \<Rightarrow> Some (Inl Division_by_zero)
           | Some t2 \<Rightarrow> map_option (map_sum Pool_error (\<lambda>freed. (freed, [t1, t2], s1))) (destroy k P1))))))"

text \<open>\<open>main\<close>: a run for 1, 2, 4 and so on threads, with the environment of each. The pages freed and the throughputs of
  the runs are collected in \<open>out\<close>.\<close>

definition total_pages :: nat where "total_pages = 2594304"

partial_function (option) bench_loop :: "'s heap \<Rightarrow> nat \<Rightarrow> (nat \<Rightarrow> bench_env) \<Rightarrow> nat \<Rightarrow> (ptr list \<times> u64 list) list \<Rightarrow> 's
    \<Rightarrow> (bench_error + (ptr list \<times> u64 list) list \<times> 's) option" where
  "bench_loop J k env threads out s =
     (if threads \<le> 32
      then (case bench J k (env threads) 32 (total_pages div 32) (5 * 1000) s of
              None \<Rightarrow> None
            | Some r \<Rightarrow>
                (case r of
                   Inl e \<Rightarrow> Some (Inl e)
                 | Inr (freed, ts, s1) \<Rightarrow> bench_loop J k env (threads * 2) (out @ [(freed, ts)]) s1))
      else Some (Inr (out, s)))"

definition bench_main :: "'s heap \<Rightarrow> nat \<Rightarrow> (nat \<Rightarrow> bench_env) \<Rightarrow> 's
    \<Rightarrow> (bench_error + int \<times> (ptr list \<times> u64 list) list \<times> 's) option" where
  "bench_main J k env s = map_option (map_sum id (Pair 0)) (bench_loop J k env 1 [] s)"

subsection \<open>Taking pages\<close>

lemma memset_rep:
  assumes "pool_rep P S" "p \<notin> set (concat S)"
  shows "pool_rep (memset_page p P) S"
proof -
  have "chain ((p_next P)(p := v)) (local_pools P ! i) (S ! i) = chain (p_next P) (local_pools P ! i) (S ! i)"
    if "i < num_pools P" for i v
    using assms in_concat_nth [of i S p] that by (intro chain_upd) (auto simp: pool_rep_def)
  then show ?thesis using assms(1) by (simp add: pool_rep_def memset_page_def)
qed

lemma memset_fields [simp]:
  "num_pools (memset_page p P) = num_pools P" "page_size (memset_page p P) = page_size P"
  "pages_per_pool (memset_page p P) = pages_per_pool P" "local_remain_pages (memset_page p P) = local_remain_pages P"
  by (simp_all add: memset_page_def)

lemma take_pages_eq:
  assumes "pool_rep P S" "ops \<le> length (S ! (hash mod num_pools P))"
  defines "i \<equiv> hash mod num_pools P"
  shows "\<exists>P'. take_pages (Suc k) hash ops P = Some (Inr (take ops (S ! i), P'))
    \<and> pool_rep P' (S[i := drop ops (S ! i)]) \<and> num_pools P' = num_pools P \<and> page_size P' = page_size P
    \<and> pages_per_pool P' = pages_per_pool P"
  using assms(1,2) unfolding i_def
proof (induction ops arbitrary: P S)
  case (Suc ops)
  let ?i = "hash mod num_pools P"
  have i: "?i < num_pools P" "?i < length S" using Suc.prems(1) by (simp_all add: pool_rep_def)
  obtain p xs where S: "S ! ?i = p # xs" using Suc.prems(2) by (cases "S ! ?i") auto
  note r = pool_rep_pop [OF Suc.prems(1) i(1) S]
  let ?P = "memset_page p (snd (pop_pool ?i P))"
  have a: "allocate (Suc k) hash P = Some (p, snd (pop_pool ?i P))"
    using r(1,6) by (cases "pop_pool ?i P") (simp add: allocate_def)
  have pp: "pages_per_pool (snd (pop_pool ?i P)) = pages_per_pool P" by (simp add: pop_pool_def Let_def)
  have rep: "pool_rep ?P (S[?i := xs])" by (rule memset_rep [OF r(2,7)])
  have "ops \<le> length (S[?i := xs] ! (hash mod num_pools ?P))" using Suc.prems(2) S i by (simp add: r)
  from Suc.IH [OF rep this] show ?case
    using a S i r(6) by (auto simp: r(3,4) pp)
qed auto

lemma give_pages_eq:
  assumes "pool_rep P S" "distinct ps" "0 \<notin> set ps" "set ps \<inter> set (concat S) = {}" "i < num_pools P"
    "\<forall>p\<in>set ps. pool_of (num_pools P) (page_size P) p = i"
  shows "pool_rep (fold deallocate ps P) (S[i := rev ps @ S ! i])
    \<and> num_pools (fold deallocate ps P) = num_pools P \<and> page_size (fold deallocate ps P) = page_size P
    \<and> pages_per_pool (fold deallocate ps P) = pages_per_pool P"
  using assms
proof (induction ps arbitrary: P S)
  case Nil
  then show ?case by (simp add: pool_rep_def)
next
  case (Cons p ps)
  have p: "p \<noteq> 0" "p \<notin> set (concat S)" "pool_of (num_pools P) (page_size P) p = i" using Cons.prems by auto
  note r = pool_rep_push [OF Cons.prems(1) p(1,2), unfolded p(3)]
  let ?S = "S[i := p # S ! i]"
  have "mset (concat ?S) = add_mset p (mset (concat S))" using concat_update [OF r(1), of "p # S ! i"] by simp
  then have set: "set (concat ?S) = insert p (set (concat S))" by (metis set_mset_add_mset_insert set_mset_mset)
  have "set ps \<inter> set (concat ?S) = {}" using Cons.prems(2,4) unfolding set by auto
  from Cons.IH [OF r(2) _ _ this] Cons.prems show ?case
    using r(1) by (simp add: deallocate_push [OF p(1)])
qed

lemma remain_of_rep:
  assumes "pool_rep P S" "pool_rep P' S'" "num_pools P' = num_pools P" "\<forall>i<num_pools P. length (S' ! i) = length (S ! i)"
  shows "local_remain_pages P' = local_remain_pages P"
  using assms by (intro nth_equalityI) (auto simp: pool_rep_def)

lemma test_eq:
  assumes "pool_rep P S" "ops \<le> length (S ! (hash mod num_pools P))"
  defines "i \<equiv> hash mod num_pools P"
  defines "S' \<equiv> S[i := rev (take ops (S ! i)) @ drop ops (S ! i)]"
  shows "\<exists>P'. memory_pool_test (Suc k) hash ops P = Some (Inr P') \<and> pool_rep P' S' \<and> mset (concat S') = mset (concat S)
    \<and> num_pools P' = num_pools P \<and> page_size P' = page_size P \<and> pages_per_pool P' = pages_per_pool P
    \<and> local_remain_pages P' = local_remain_pages P"
proof -
  let ?xs = "S ! i"
  have i: "i < num_pools P" "i < length S" using assms(1) by (simp_all add: i_def pool_rep_def)
  obtain P1 where P1: "take_pages (Suc k) hash ops P = Some (Inr (take ops ?xs, P1))" "pool_rep P1 (S[i := drop ops ?xs])"
      "num_pools P1 = num_pools P" "page_size P1 = page_size P" "pages_per_pool P1 = pages_per_pool P"
    using take_pages_eq [OF assms(1,2)] unfolding i_def by blast
  have sub: "set (take ops ?xs) \<subseteq> set ?xs" by (rule set_take_subset)
  have m: "mset (concat (S[i := drop ops ?xs])) + mset (take ops ?xs) = mset (concat S)"
  proof -
    have "mset (take ops ?xs) + mset (drop ops ?xs) = mset ?xs" by (metis append_take_drop_id mset_append)
    then have "mset (concat (S[i := drop ops ?xs])) + mset (take ops ?xs) + mset (drop ops ?xs) = mset (concat S) + mset (drop ops ?xs)"
      using concat_update [OF i(2), of "drop ops ?xs"] by (simp only: add.assoc)
    then show ?thesis by (simp only: add_right_cancel)
  qed
  have dist: "distinct (concat (S[i := drop ops ?xs]) @ take ops ?xs)"
  proof -
    have "mset (concat (S[i := drop ops ?xs]) @ take ops ?xs) = mset (concat S)" using m by simp
    then show ?thesis using assms(1) mset_eq_imp_distinct_iff pool_rep_def by blast
  qed
  have "0 \<notin> set ?xs" using chain_nonnull pool_repD(1) [OF assms(1) i(1)] by blast
  then have g: "pool_rep (fold deallocate (take ops ?xs) P1) ((S[i := drop ops ?xs])[i := rev (take ops ?xs) @ (S[i := drop ops ?xs]) ! i])
      \<and> num_pools (fold deallocate (take ops ?xs) P1) = num_pools P1 \<and> page_size (fold deallocate (take ops ?xs) P1) = page_size P1
      \<and> pages_per_pool (fold deallocate (take ops ?xs) P1) = pages_per_pool P1"
    using P1 i sub dist pool_repD(3) [OF assms(1) i(1)]
    by (intro give_pages_eq) (auto simp del: set_concat)
  have S': "(S[i := drop ops ?xs])[i := rev (take ops ?xs) @ (S[i := drop ops ?xs]) ! i] = S'" using i by (simp add: S'_def)
  have "mset (concat S') = mset (concat S)"
  proof -
    have "mset (rev (take ops ?xs) @ drop ops ?xs) = mset ?xs" by (metis append_take_drop_id mset_append mset_rev)
    then show ?thesis using concat_update [OF i(2), of "rev (take ops ?xs) @ drop ops ?xs"] by (simp add: S'_def)
  qed
  moreover have "local_remain_pages (fold deallocate (take ops ?xs) P1) = local_remain_pages P"
    using g P1(3) i unfolding S'
    by (intro remain_of_rep [OF assms(1)]) (auto simp: S'_def nth_list_update)
  ultimately show ?thesis using P1 g unfolding S' by (simp add: memory_pool_test_def)
qed

lemma take_pages_trapped:
  assumes "pool_rep P S" "length (S ! (hash mod num_pools P)) < ops" "\<forall>j<num_pools P. length (S ! j) < 2 ^ 63"
    "num_pools P < 2 ^ 31" "0 < k" "k \<le> 2 ^ 62"
  shows "take_pages k hash ops P = None"
  using assms
proof (induction ops arbitrary: P S)
  case (Suc ops)
  let ?i = "hash mod num_pools P"
  have i: "?i < num_pools P" "?i < length S" using Suc.prems(1) by (simp_all add: pool_rep_def)
  show ?case
  proof (cases "S ! ?i")
    case Nil
    then show ?thesis using empty_list_traps [OF Suc.prems(1)] Suc.prems by simp
  next
    case (Cons p xs)
    note r = pool_rep_pop [OF Suc.prems(1) i(1) Cons]
    obtain k' where k: "k = Suc k'" using Suc.prems(5) by (cases k) simp_all
    have a: "allocate k hash P = Some (p, snd (pop_pool ?i P))"
      using r(1,6) by (cases "pop_pool ?i P") (simp add: allocate_def k)
    have "length (S[?i := xs] ! (hash mod num_pools (memset_page p (snd (pop_pool ?i P))))) < ops"
      using Suc.prems(2) Cons i by (simp add: r(3))
    moreover have "\<forall>j<num_pools (memset_page p (snd (pop_pool ?i P))). length (S[?i := xs] ! j) < 2 ^ 63"
    proof (intro allI impI)
      fix j assume "j < num_pools (memset_page p (snd (pop_pool ?i P)))"
      then have j: "length (S ! j) < 2 ^ 63" using Suc.prems(3) by (simp add: r(3))
      show "length (S[?i := xs] ! j) < 2 ^ 63"
        using j Cons i by (cases "j = ?i") simp_all
    qed
    ultimately have "take_pages k hash ops (memset_page p (snd (pop_pool ?i P))) = None"
      using Suc.IH [OF memset_rep [OF r(2,7)]] Suc.prems(4-6) by (simp add: r(3))
    then show ?thesis using a r(6) by simp
  qed
qed simp

text \<open>
  C34. One thread of the benchmark: when its list has as many pages as it asks for, it returns, with every counter
  what it was and the same pages on every list, those it used in reverse order. When it asks for one more,
  it does not return, whatever the other lists have.\<close>

theorem pool_test_returns:
  assumes "pool_rep P S" "\<forall>j<num_pools P. length (S ! j) < 2 ^ 63" "num_pools P < 2 ^ 31" "0 < k" "k \<le> 2 ^ 62"
  shows "let i = hash mod num_pools P; xs = S ! i in
    if ops \<le> length xs
    then \<exists>P'. memory_pool_test k hash ops P = Some (Inr P') \<and> pool_rep P' (S[i := rev (take ops xs) @ drop ops xs])
      \<and> local_remain_pages P' = local_remain_pages P
    else memory_pool_test k hash ops P = None"
proof -
  obtain k' where k: "k = Suc k'" using assms(4) by (cases k) simp_all
  show ?thesis
    using test_eq [OF assms(1), of ops hash k'] take_pages_trapped [OF assms(1) _ assms(2-5), of hash ops]
    by (auto simp: Let_def k memory_pool_test_def)
qed

theorem pool_test_returns_witness:
  "(\<exists>P'. memory_pool_test 9 1 2 demo_pool = Some (Inr P') \<and> pool_rep P' [[0x2000], [0x1000, 0x3000]]
      \<and> local_remain_pages P' = [1, 2])
   \<and> memory_pool_test 9 1 3 demo_pool = None"
proof -
  have b: "\<forall>j<num_pools demo_pool. length ([[0x2000], [0x3000, 0x1000 :: ptr]] ! j) < 2 ^ 63" "num_pools demo_pool < 2 ^ 31"
    by (simp_all add: demo_pool_def all_less_2)
  show ?thesis
    using pool_test_returns [OF demo_pool_rep b, of 9 1 2] pool_test_returns [OF demo_pool_rep b, of 9 1 3]
    by (simp add: demo_pool_def Let_def)
qed

subsection \<open>The contract of a thread\<close>

text \<open>
  What a thread relies on of the allocator it tests: \<open>rel s L r\<close> says that in the state \<open>s\<close> the blocks in use are those of
  \<open>L\<close>, with their sizes, and \<open>r\<close> more pages can be had.
\<close>

locale page_source =
  fixes alloc :: "'s \<Rightarrow> (ptr \<times> 's) option"
    and fill :: "ptr \<Rightarrow> 's \<Rightarrow> 's option"
    and release :: "ptr \<Rightarrow> 's \<Rightarrow> 's option"
    and rel :: "'s \<Rightarrow> (ptr \<rightharpoonup> nat) \<Rightarrow> nat \<Rightarrow> bool"
  assumes alloc_ok: "rel s L (Suc r) \<Longrightarrow>
      \<exists>p s'. alloc s = Some (p, s') \<and> p \<noteq> 0 \<and> L p = None \<and> rel s' (L(p \<mapsto> PAGE_SIZE)) r"
    and fill_ok: "rel s L r \<Longrightarrow> L p = Some PAGE_SIZE \<Longrightarrow> \<exists>s'. fill p s = Some s' \<and> rel s' L r"
    and release_ok: "rel s L r \<Longrightarrow> L p = Some PAGE_SIZE \<Longrightarrow> \<exists>s'. release p s = Some s' \<and> rel s' (L(p := None)) (Suc r)"

text \<open>The two loops of the thread functions over such an allocator.\<close>

fun take_loop :: "('s \<Rightarrow> (ptr \<times> 's) option) \<Rightarrow> (ptr \<Rightarrow> 's \<Rightarrow> 's option) \<Rightarrow> nat \<Rightarrow> 's \<Rightarrow> (bench_error + ptr list \<times> 's) option" where
  "take_loop alloc fill 0 s = Some (Inr ([], s))"
| "take_loop alloc fill (Suc ops) s =
     (case alloc s of
        None \<Rightarrow> None
      | Some (page, s1) \<Rightarrow>
          if page = 0 then Some (Inl Assert_page)
          else do {
            s2 \<leftarrow> fill page s1;
            map_option (map_sum id (\<lambda>(ptrs, s3). (page # ptrs, s3))) (take_loop alloc fill ops s2)
          })"

fun give_loop :: "(ptr \<Rightarrow> 's \<Rightarrow> 's option) \<Rightarrow> ptr list \<Rightarrow> 's \<Rightarrow> 's option" where
  "give_loop release [] s = Some s"
| "give_loop release (p # ps) s = do { s1 \<leftarrow> release p s; give_loop release ps s1 }"

text \<open>The blocks in use with the given pages added.\<close>

definition with_pages :: "(ptr \<rightharpoonup> nat) \<Rightarrow> ptr list \<Rightarrow> (ptr \<rightharpoonup> nat)" where
  "with_pages L ps = (\<lambda>p. if p \<in> set ps then Some PAGE_SIZE else L p)"

lemma with_pages_simps [simp]:
  "with_pages L [] = L" "with_pages (L(p \<mapsto> PAGE_SIZE)) ps = with_pages L (p # ps)"
  by (auto simp: with_pages_def fun_eq_iff)

lemma with_pages_remove:
  "p \<notin> set ps \<Longrightarrow> L p = None \<Longrightarrow> (with_pages L (p # ps))(p := None) = with_pages L ps"
  by (auto simp: with_pages_def fun_eq_iff)

context page_source
begin

lemma take_loop_ok:
  assumes "rel s L (r + ops)"
  shows "\<exists>ps s'. take_loop alloc fill ops s = Some (Inr (ps, s')) \<and> length ps = ops \<and> distinct ps
    \<and> set ps \<inter> dom L = {} \<and> rel s' (with_pages L ps) r"
  using assms
proof (induction ops arbitrary: s L)
  case (Suc ops)
  obtain p s1 where a: "alloc s = Some (p, s1)" "p \<noteq> 0" "L p = None" "rel s1 (L(p \<mapsto> PAGE_SIZE)) (r + ops)"
    using alloc_ok Suc.prems by fastforce
  obtain s2 where f: "fill p s1 = Some s2" "rel s2 (L(p \<mapsto> PAGE_SIZE)) (r + ops)"
    using fill_ok [OF a(4), of p] by auto
  from Suc.IH [OF f(2), unfolded with_pages_simps(2)] obtain ps s' where t: "take_loop alloc fill ops s2 = Some (Inr (ps, s'))" "length ps = ops" "distinct ps"
      "set ps \<inter> dom (L(p \<mapsto> PAGE_SIZE)) = {}" "rel s' (with_pages L (p # ps)) r"
    by blast
  have "take_loop alloc fill (Suc ops) s = Some (Inr (p # ps, s'))" using a f t(1) by simp
  then show ?case using t(2-5) a(3) by (intro exI [of _ "p # ps"] exI [of _ s']) auto
qed auto

lemma give_loop_ok:
  assumes "rel s (with_pages L ps) r" "distinct ps" "set ps \<inter> dom L = {}"
  shows "\<exists>s'. give_loop release ps s = Some s' \<and> rel s' L (r + length ps)"
  using assms
proof (induction ps arbitrary: s r)
  case (Cons p ps)
  have p: "with_pages L (p # ps) p = Some PAGE_SIZE" "p \<notin> set ps" "L p = None"
    using Cons.prems(2,3) by (auto simp: with_pages_def)
  obtain s1 where s1: "release p s = Some s1" "rel s1 (with_pages L ps) (Suc r)"
    using release_ok [OF Cons.prems(1) p(1)] p(2,3) by (auto simp: with_pages_remove)
  from Cons.IH [OF s1(2)] show ?case using Cons.prems(2,3) s1(1) by auto
qed auto

lemma thread_ok:
  assumes "rel s L r" "ops \<le> r"
  shows "\<exists>ps s1 s'. take_loop alloc fill ops s = Some (Inr (ps, s1)) \<and> give_loop release ps s1 = Some s' \<and> rel s' L r"
proof -
  have r: "r - ops + ops = r" using assms(2) by simp
  obtain ps s1 where t: "take_loop alloc fill ops s = Some (Inr (ps, s1))" "length ps = ops" "distinct ps"
      "set ps \<inter> dom L = {}" "rel s1 (with_pages L ps) (r - ops)"
    using take_loop_ok [of s L "r - ops" ops] assms(1) r by auto
  from give_loop_ok [OF t(5,3,4)] t(1,2) r show ?thesis by auto
qed

end

text \<open>An allocator of the C library: what its documentation promises as long as memory suffices.\<close>

locale libc_heap =
  fixes H :: "'s heap"
    and rel :: "'s \<Rightarrow> (ptr \<rightharpoonup> nat) \<Rightarrow> nat \<Rightarrow> bool"
  assumes malloc_ok: "rel s L (Suc r) \<Longrightarrow>
      \<exists>p s'. h_malloc H PAGE_SIZE s = (p, s') \<and> p \<noteq> 0 \<and> L p = None \<and> rel s' (L(p \<mapsto> PAGE_SIZE)) r"
    and memset_ok: "rel s L r \<Longrightarrow> L p = Some m \<Longrightarrow> n \<le> m \<Longrightarrow> \<exists>s'. h_memset H p b n s = Some s' \<and> rel s' L r"
    and free_ok: "rel s L r \<Longrightarrow> L p = Some PAGE_SIZE \<Longrightarrow> \<exists>s'. h_free H p s = Some s' \<and> rel s' (L(p := None)) (Suc r)"

sublocale libc_heap \<subseteq> page_source "\<lambda>s. Some (h_malloc H PAGE_SIZE s)" "\<lambda>p. h_memset H p 42 PAGE_SIZE" "h_free H" rel
proof unfold_locales
  show "\<exists>p s'. Some (h_malloc H PAGE_SIZE s) = Some (p, s') \<and> p \<noteq> 0 \<and> L p = None \<and> rel s' (L(p \<mapsto> PAGE_SIZE)) r"
    if "rel s L (Suc r)" for s L r
    using malloc_ok [OF that] by simp
qed (simp_all add: memset_ok free_ok)

lemma malloc_pages_loop:
  "malloc_pages H ops s = take_loop (\<lambda>s. Some (h_malloc H PAGE_SIZE s)) (\<lambda>p. h_memset H p 42 PAGE_SIZE) ops s"
proof (induction ops arbitrary: s)
  case (Suc ops)
  then show ?case by (cases "h_malloc H PAGE_SIZE s") simp
qed simp

lemma free_pages_loop: "free_pages H ps s = give_loop (h_free H) ps s"
  by (induction ps arbitrary: s) (auto intro!: Option.bind_cong)

lemma jemalloc_test_eq: "jemalloc_test H = malloc_test H"
  by (intro ext) (simp add: jemalloc_test_def malloc_test_def)

context libc_heap
begin

lemma malloc_test_ok:
  assumes "rel s L r" "ops \<le> r"
  shows "\<exists>s'. malloc_test H ops s = Some (Inr s') \<and> rel s' L r"
  using thread_ok [OF assms] by (auto simp: malloc_test_def malloc_pages_loop free_pages_loop)

lemma run_malloc_ok:
  assumes "rel s L r" "ops \<le> r"
  shows "\<exists>s'. run_malloc H n ops s = Some (Inr s') \<and> rel s' L r"
  using assms(1)
proof (induction n arbitrary: s)
  case (Suc n)
  obtain s1 where s1: "malloc_test H ops s = Some (Inr s1)" "rel s1 L r" using malloc_test_ok [OF Suc.prems assms(2)] by blast
  from Suc.IH [OF s1(2)] s1(1) show ?case by (simp add: jemalloc_test_eq)
qed simp

end

text \<open>The pool keeps the contract: for a thread whose list has pages.\<close>

definition pool_live :: "nat \<Rightarrow> nat \<Rightarrow> nat \<Rightarrow> pool \<Rightarrow> (ptr \<rightharpoonup> nat) \<Rightarrow> nat \<Rightarrow> bool" where
  "pool_live n ps hash P L r \<longleftrightarrow>
     num_pools P = n \<and> page_size P = ps
   \<and> (\<exists>S. pool_rep P S \<and> length (S ! (hash mod n)) = r
        \<and> (\<forall>p\<in>dom L. p \<noteq> 0 \<and> p \<notin> set (concat S) \<and> pool_of n ps p = hash mod n))"

lemma set_concat_update:
  assumes "i < length S" "mset xs = add_mset p (mset (S ! i))"
  shows "set (concat (S[i := xs])) = insert p (set (concat S))"
proof -
  have "mset (concat (S[i := xs])) + mset (S ! i) = add_mset p (mset (concat S)) + mset (S ! i)"
    using concat_update [OF assms(1), of xs] assms(2) by simp
  then have "mset (concat (S[i := xs])) = add_mset p (mset (concat S))" by (simp only: add_right_cancel)
  then show ?thesis by (metis set_mset_add_mset_insert set_mset_mset)
qed

lemma pool_live_take:
  assumes "pool_live n ps hash P L (Suc r)"
  shows "\<exists>p P'. allocate (Suc k) hash P = Some (p, P') \<and> p \<noteq> 0 \<and> L p = None \<and> pool_live n ps hash P' (L(p \<mapsto> PAGE_SIZE)) r"
proof -
  let ?i = "hash mod n"
  obtain S where S: "num_pools P = n" "page_size P = ps" "pool_rep P S" "length (S ! ?i) = Suc r"
      "\<forall>p\<in>dom L. p \<noteq> 0 \<and> p \<notin> set (concat S) \<and> pool_of n ps p = ?i"
    using assms by (auto simp: pool_live_def)
  have i: "?i < num_pools P" "?i < length S" using S by (simp_all add: pool_rep_def)
  obtain p xs where px: "S ! ?i = p # xs" using S(4) by (cases "S ! ?i") auto
  note r = pool_rep_pop [OF S(3) i(1) px]
  have a: "allocate (Suc k) hash P = Some (p, snd (pop_pool ?i P))"
    using r(1,6) S(1) by (cases "pop_pool ?i P") (simp add: allocate_def)
  have pS: "p \<in> set (concat S)" "pool_of n ps p = ?i"
    using in_concat_nth [OF i(2), of p] pool_repD(3) [OF S(3) i(1), of p] S(1,2) px by simp_all
  have sub: "set (concat S) = insert p (set (concat (S[?i := xs])))"
    using set_concat_update [of ?i "S[?i := xs]" "p # xs" p] i(2) list_update_id [of S ?i, unfolded px]
    by (simp del: set_concat)
  have "pool_live n ps hash (snd (pop_pool ?i P)) (L(p \<mapsto> PAGE_SIZE)) r"
    using r S pS sub px i unfolding pool_live_def by (intro conjI exI [of _ "S[?i := xs]"]) (auto simp del: set_concat)
  moreover have "L p = None" using S(5) pS(1) by blast
  ultimately show ?thesis using a r(6) by blast
qed

lemma pool_live_give:
  assumes "pool_live n ps hash P L r" "L p = Some m"
  shows "pool_live n ps hash (deallocate p P) (L(p := None)) (Suc r)"
proof -
  let ?i = "hash mod n"
  obtain S where S: "num_pools P = n" "page_size P = ps" "pool_rep P S" "length (S ! ?i) = r"
      "\<forall>p\<in>dom L. p \<noteq> 0 \<and> p \<notin> set (concat S) \<and> pool_of n ps p = ?i"
    using assms by (auto simp: pool_live_def)
  have p: "p \<noteq> 0" "p \<notin> set (concat S)" "pool_of (num_pools P) (page_size P) p = ?i" using S assms(2) by auto
  note r = pool_rep_push [OF S(3) p(1,2), unfolded p(3)]
  have "set (concat (S[?i := p # S ! ?i])) = insert p (set (concat S))" by (rule set_concat_update [OF r(1)]) simp
  then show ?thesis
    using S p r unfolding pool_live_def deallocate_push [OF p(1)]
    by (intro conjI exI [of _ "S[?i := p # S ! ?i]"]) (auto simp del: set_concat)
qed

interpretation pt: page_source "allocate (Suc k) hash" "\<lambda>p P. Some (memset_page p P)" "\<lambda>p P. Some (deallocate p P)"
  "pool_live n ps hash"
proof (unfold_locales, goal_cases)
  case 1
  then show ?case by (rule pool_live_take)
next
  case (2 P L r p)
  then obtain S where "num_pools P = n" "page_size P = ps" "pool_rep P S" "length (S ! (hash mod n)) = r"
      "\<forall>p\<in>dom L. p \<noteq> 0 \<and> p \<notin> set (concat S) \<and> pool_of n ps p = hash mod n"
    by (auto simp: pool_live_def)
  moreover from this 2(2) have "pool_rep (memset_page p P) S" by (intro memset_rep) auto
  ultimately show ?case by (auto simp: pool_live_def)
next
  case 3
  then show ?case using pool_live_give by simp
qed

lemma pool_thread_loop:
  "memory_pool_test k hash ops P =
     do {
       r \<leftarrow> take_loop (allocate k hash) (\<lambda>p P. Some (memset_page p P)) ops P;
       (case r of Inl e \<Rightarrow> Some (Inl e) | Inr (ptrs, P1) \<Rightarrow> map_option Inr (give_loop (\<lambda>p P. Some (deallocate p P)) ptrs P1))
     }"
proof -
  have t: "take_pages k hash ops P = take_loop (allocate k hash) (\<lambda>p P. Some (memset_page p P)) ops P" for ops P
    by (induction ops arbitrary: P) (simp_all split: option.splits)
  have g: "give_loop (\<lambda>p P. Some (deallocate p P)) ps P = Some (fold deallocate ps P)" for ps P
    by (induction ps arbitrary: P) simp_all
  show ?thesis
    by (cases "take_loop (allocate k hash) (\<lambda>p P. Some (memset_page p P)) ops P")
      (auto simp: memory_pool_test_def t g split: sum.splits)
qed

text \<open>A heap of pages, for concrete runs: the free ones, and the blocks in use.\<close>

record page_heap =
  hp_free :: "ptr list"
  hp_used :: "(ptr \<times> nat) list"

definition page_heap :: "page_heap heap" where
  "page_heap =
     \<lparr>h_malloc = (\<lambda>n s. case hp_free s of [] \<Rightarrow> (0, s) | p # ps \<Rightarrow> (p, s\<lparr>hp_free := ps, hp_used := (p, n) # hp_used s\<rparr>)),
      h_memset = (\<lambda>p b n s. case map_of (hp_used s) p of Some m \<Rightarrow> if n \<le> m then Some s else None | None \<Rightarrow> None),
      h_free = (\<lambda>p s. if p \<in> fst ` set (hp_used s)
        then Some (s\<lparr>hp_free := p # hp_free s, hp_used := AList.delete p (hp_used s)\<rparr>) else None)\<rparr>"

definition heap_rel :: "page_heap \<Rightarrow> (ptr \<rightharpoonup> nat) \<Rightarrow> nat \<Rightarrow> bool" where
  "heap_rel s L r \<longleftrightarrow> map_of (hp_used s) = L \<and> length (hp_free s) = r \<and> distinct (hp_free s)
     \<and> set (hp_free s) \<inter> dom L = {} \<and> 0 \<notin> set (hp_free s) \<and> L 0 = None"

interpretation ph: libc_heap page_heap heap_rel
proof (unfold_locales, goal_cases)
  case (1 s L r)
  then obtain p ps where "hp_free s = p # ps" by (cases "hp_free s") (auto simp: heap_rel_def)
  with 1 show ?case by (auto simp: heap_rel_def page_heap_def)
next
  case 2
  then show ?case by (auto simp: heap_rel_def page_heap_def)
next
  case (3 s L r p)
  then have "p \<in> fst ` set (hp_used s)" by (force simp: heap_rel_def map_of_eq_None_iff dest: map_of_SomeD)
  with 3 show ?case by (auto simp: heap_rel_def page_heap_def delete_conv')
qed

text \<open>
  The three thread functions of the benchmark, each with its allocator: as long as there are as many pages as the thread
  takes, it returns with its assertions satisfied, writes and frees only blocks that are in use, and leaves the same
  blocks in use and as many to be had. \<open>malloc\<close> and jemalloc are any allocators that behave as documented.\<close>

lemma thread_functions_return:
  assumes "libc_heap H rel" "rel s L r" "libc_heap J rel'" "rel' t M q" "pool_live n ps hash P N m"
    and "ops \<le> r" "ops \<le> q" "ops \<le> m"
  shows "(\<exists>s'. malloc_test H ops s = Some (Inr s') \<and> rel s' L r)
    \<and> (\<exists>t'. jemalloc_test J ops t = Some (Inr t') \<and> rel' t' M q)
    \<and> (\<exists>P'. memory_pool_test (Suc k) hash ops P = Some (Inr P') \<and> pool_live n ps hash P' N m)"
  using libc_heap.malloc_test_ok [OF assms(1,2,6)] libc_heap.malloc_test_ok [OF assms(3,4,7)]
    pt.thread_ok [OF assms(5,8), of k]
  by (auto simp: jemalloc_test_eq pool_thread_loop)

subsection \<open>A run of the benchmark\<close>

lemma list_of_pool:
  assumes "pool_rep P S" "mset (concat S) = mset pages" "i < num_pools P"
  shows "length (S ! i) = length (filter (\<lambda>p. pool_of (num_pools P) (page_size P) p = i) pages)"
proof -
  let ?Q = "\<lambda>p. pool_of (num_pools P) (page_size P) p = i"
  have len: "length S = num_pools P" and d: "distinct (concat S)" using assms(1) by (simp_all add: pool_rep_def)
  have pg: "set pages = set (concat S)" "distinct pages"
    using assms(2) d by (metis mset_eq_setD, metis mset_eq_imp_distinct_iff)
  have "x \<in> set (S ! i)" if x: "x \<in> set (concat S)" "?Q x" for x
  proof -
    obtain xs where "xs \<in> set S" "x \<in> set xs" using x(1) by auto
    then obtain j where "j < length S" "x \<in> set (S ! j)" by (metis in_set_conv_nth)
    then show ?thesis using pool_repD(3) [OF assms(1), of j x] x(2) len by simp
  qed
  then have "set (S ! i) = set (filter ?Q pages)"
    using in_concat_nth [of i S] pool_repD(3) [OF assms(1,3)] len assms(3) pg(1) by (auto simp del: set_concat)
  moreover have "distinct (S ! i)" using d assms(3) len by (simp add: distinct_concat_iff)
  ultimately show ?thesis using pg(2) by (metis distinct_card distinct_filter)
qed

lemma run_threads_eq:
  assumes "pool_rep P S" "mset (concat S) = mset pages" "local_remain_pages P = pages_per_pool P"
    "\<forall>h\<in>set hs. iterations \<le> length (filter (\<lambda>p. pool_of (num_pools P) (page_size P) p = h mod num_pools P) pages)"
  shows "\<exists>P' S'. run_threads (Suc k) hs iterations P = Some (Inr P') \<and> pool_rep P' S' \<and> mset (concat S') = mset pages
    \<and> local_remain_pages P' = pages_per_pool P'"
  using assms
proof (induction hs arbitrary: P S)
  case (Cons h hs)
  have i: "h mod num_pools P < num_pools P" using Cons.prems(1) by (simp add: pool_rep_def)
  have "iterations \<le> length (S ! (h mod num_pools P))"
    using Cons.prems(4) list_of_pool [OF Cons.prems(1,2) i] by simp
  from test_eq [OF Cons.prems(1) this, of k]
  obtain P1 S1 where P1: "memory_pool_test (Suc k) h iterations P = Some (Inr P1)" "pool_rep P1 S1"
      "mset (concat S1) = mset (concat S)" "num_pools P1 = num_pools P" "page_size P1 = page_size P"
      "pages_per_pool P1 = pages_per_pool P" "local_remain_pages P1 = local_remain_pages P"
    by blast
  from Cons.IH [OF P1(2)] P1 Cons.prems show ?case by simp
qed auto

text \<open>A run of \<open>bench\<close> whose threads follow one another.\<close>

lemma bench_returns:
  assumes "libc_heap J rel" "rel s L r" "iterations \<le> r" "fst (e_clock E) \<noteq> 0" "snd (e_clock E) \<noteq> 0"
    and "0 < n" "distinct (e_pages E)" "\<forall>p\<in>set (e_pages E). good_page PAGE_SIZE p" "iterations \<le> per_pool"
    and "\<forall>h\<in>set (e_hashes E). iterations \<le> length (filter (\<lambda>p. pool_of n PAGE_SIZE p = h mod n) (e_pages E))"
    and "length (e_pages E) \<le> k" "0 < k"
  shows "\<exists>freed ts s'. bench J k E n per_pool iterations s = Some (Inr (freed, ts, s'))
    \<and> mset freed = mset (e_pages E) \<and> rel s' L r"
proof -
  obtain k' where k: "k = Suc k'" using assms(12) by (cases k) simp_all
  obtain P S where P: "MemoryPool n PAGE_SIZE (e_pages E) = Inr P" "pool_rep P S" "mset (concat S) = mset (e_pages E)"
      "local_remain_pages P = pages_per_pool P" "num_pools P = n" "page_size P = PAGE_SIZE"
    using MemoryPool_rep [OF assms(6-8)] by blast
  obtain P1 S1 where P1: "run_threads k (e_hashes E) iterations P = Some (Inr P1)" "pool_rep P1 S1"
      "mset (concat S1) = mset (e_pages E)" "local_remain_pages P1 = pages_per_pool P1"
    using run_threads_eq [OF P(2-4), of "e_hashes E" iterations k'] P(5,6) assms(10) unfolding k by auto
  obtain s1 where s1: "run_malloc J (length (e_hashes E)) iterations s = Some (Inr s1)" "rel s1 L r"
    using libc_heap.run_malloc_ok [OF assms(1-3)] by blast
  have "length (concat S1) \<le> k" using P1(3) assms(11) by (metis size_mset)
  from destroy_rep [OF P1(2,4) this] show ?thesis using P P1 s1 assms(4,5,9) by (simp add: bench_def throughput_def Let_def)
qed

text \<open>What \<open>main\<close> needs of the outside world in the run with \<open>t\<close> threads.\<close>

definition good_env :: "nat \<Rightarrow> bench_env \<Rightarrow> nat \<Rightarrow> bool" where
  "good_env k E t \<longleftrightarrow>
     length (e_hashes E) = t \<and> distinct (e_pages E) \<and> (\<forall>p\<in>set (e_pages E). good_page PAGE_SIZE p) \<and> length (e_pages E) \<le> k
   \<and> (\<forall>h\<in>set (e_hashes E). 5000 \<le> length (filter (\<lambda>p. pool_of 32 PAGE_SIZE p = h mod 32) (e_pages E)))
   \<and> fst (e_clock E) \<noteq> 0 \<and> snd (e_clock E) \<noteq> 0"

lemma bench_loop_step:
  assumes "libc_heap J rel" "rel s L r" "5000 \<le> r" "0 < k" "t \<le> 32" "good_env k (env t) t"
  shows "\<exists>freed ts s'. bench_loop J k env t out s = bench_loop J k env (2 * t) (out @ [(freed, ts)]) s'
    \<and> mset freed = mset (e_pages (env t)) \<and> rel s' L r"
proof -
  obtain freed ts s' where b: "bench J k (env t) 32 (total_pages div 32) 5000 s = Some (Inr (freed, ts, s'))"
      "mset freed = mset (e_pages (env t))" "rel s' L r"
    using bench_returns [OF assms(1-3), of "env t" 32 "total_pages div 32" k] assms(4,6)
    by (auto simp: good_env_def total_pages_def)
  have "bench_loop J k env t out s = bench_loop J k env (2 * t) (out @ [(freed, ts)]) s'"
    by (subst bench_loop.simps) (simp add: b(1) assms(5) mult.commute)
  then show ?thesis using b(2,3) by blast
qed

lemma bench_loop_runs:
  assumes "libc_heap J rel" "5000 \<le> r" "0 < k" "rel s L r"
    and "\<forall>i<n. t * 2 ^ i \<le> 32 \<and> good_env k (env (t * 2 ^ i)) (t * 2 ^ i)" "32 < t * 2 ^ n"
  shows "\<exists>out' s'. bench_loop J k env t out s = Some (Inr (out @ out', s'))
    \<and> map (\<lambda>x. mset (fst x)) out' = map (\<lambda>i. mset (e_pages (env (t * 2 ^ i)))) [0..<n] \<and> rel s' L r"
  using assms(4-6)
proof (induction n arbitrary: t out s)
  case 0
  then have "bench_loop J k env t out s = Some (Inr (out, s))" by (subst bench_loop.simps) simp
  with 0 show ?case by simp
next
  case (Suc n)
  have t: "t \<le> 32" "good_env k (env t) t" using Suc.prems(2) [rule_format, of 0] by simp_all
  obtain freed ts s1 where 1: "bench_loop J k env t out s = bench_loop J k env (2 * t) (out @ [(freed, ts)]) s1"
      "mset freed = mset (e_pages (env t))" "rel s1 L r"
    using bench_loop_step [where env = env, OF assms(1) Suc.prems(1) assms(2,3) t] by blast
  have "\<forall>i<n. 2 * t * 2 ^ i \<le> 32 \<and> good_env k (env (2 * t * 2 ^ i)) (2 * t * 2 ^ i)" "32 < 2 * t * 2 ^ n"
    using Suc.prems(2) [rule_format, of "Suc _"] Suc.prems(3) by (simp_all add: ac_simps)
  from Suc.IH [OF 1(3) this, of "out @ [(freed, ts)]"] obtain out' s' where
    2: "bench_loop J k env t out s = Some (Inr (out @ (freed, ts) # out', s'))"
      "map (\<lambda>x. mset (fst x)) out' = map (\<lambda>i. mset (e_pages (env (2 * t * 2 ^ i)))) [0..<n]" "rel s' L r"
    using 1(1) by auto
  have "map (\<lambda>i. mset (e_pages (env (t * 2 ^ i)))) [0..<Suc n] =
      mset (e_pages (env t)) # map (\<lambda>i. mset (e_pages (env (2 * t * 2 ^ i)))) [0..<n]"
    by (simp add: upt_conv_Cons map_Suc_upt [symmetric] ac_simps del: upt_Suc)
  then show ?case using 2 1(2) by (intro exI [of _ "(freed, ts) # out'"] exI [of _ s']) (simp del: upt_Suc)
qed


text \<open>An environment: 32 lists of 5000 pages, threads with the hashes 0, 1 and so on.\<close>

definition demo_env :: "nat \<Rightarrow> bench_env" where
  "demo_env t = \<lparr>e_pages = map (\<lambda>i. of_nat (4096 * (32 + i))) [0..<160000], e_hashes = [0..<t], e_clock = (1, 1)\<rparr>"

lemma demo_page: "i < 160000 \<Longrightarrow> unat (of_nat (4096 * (32 + i)) :: ptr) = 4096 * (32 + i)"
  by (simp add: unat_of_nat del: of_nat_mult of_nat_add)

lemma demo_pages_inj: "inj_on (\<lambda>i. of_nat (4096 * (32 + i)) :: ptr) {..<160000}"
proof (rule inj_onI)
  fix i j :: nat
  assume "i \<in> {..<160000}" "j \<in> {..<160000}" "(of_nat (4096 * (32 + i)) :: ptr) = of_nat (4096 * (32 + j))"
  then have "4096 * (32 + i) = 4096 * (32 + j)" by (metis demo_page lessThan_iff)
  then show "i = j" by simp
qed

lemma demo_lists:
  "5000 \<le> length (filter (\<lambda>p. pool_of 32 PAGE_SIZE p = h mod 32) (e_pages (demo_env t)))"
proof -
  let ?f = "\<lambda>j. of_nat (4096 * (32 + (32 * j + h mod 32))) :: ptr"
  let ?ps = "filter (\<lambda>p. pool_of 32 PAGE_SIZE p = h mod 32) (e_pages (demo_env t))"
  have g: "32 * j + h mod 32 < 160000" if "j < 5000" for j
    using that mod_less_divisor [of 32 h] by linarith
  have q: "pool_of 32 PAGE_SIZE (?f j) = h mod 32" if "j < 5000" for j
    using demo_page [OF g [OF that]] by (simp add: pool_of_def PAGE_SIZE_def del: of_nat_mult of_nat_add)
  have "?f j \<in> set (e_pages (demo_env t))" if "j < 5000" for j
  proof -
    have "(\<lambda>i. of_nat (4096 * (32 + i)) :: ptr) (32 * j + h mod 32) \<in> (\<lambda>i. of_nat (4096 * (32 + i))) ` set [0..<160000]"
      using g [OF that] by (intro imageI) simp
    then show ?thesis unfolding demo_env_def bench_env.simps set_map .
  qed
  then have "?f j \<in> set ?ps" if "j < 5000" for j using q that by simp
  then have "card (?f ` {..<5000}) \<le> length ?ps"
    by (intro order_trans [OF card_mono card_length]) auto
  moreover have "inj_on ?f {..<5000}"
  proof (rule inj_onI)
    fix i j :: nat
    assume ij: "i \<in> {..<5000}" "j \<in> {..<5000}" "?f i = ?f j"
    then have "32 * i + h mod 32 = 32 * j + h mod 32" using g by (intro inj_onD [OF demo_pages_inj ij(3)]) auto
    then show "i = j" by simp
  qed
  ultimately show ?thesis by (simp add: card_image)
qed

lemma demo_env_good: "good_env 160000 (demo_env t) t"
proof -
  have "distinct (e_pages (demo_env t))"
    using demo_pages_inj by (simp add: demo_env_def distinct_map atLeast0LessThan del: of_nat_mult of_nat_add)
  moreover have "good_page PAGE_SIZE p" if p: "p \<in> set (e_pages (demo_env t))" for p
  proof -
    obtain i where i: "i < 160000" "p = of_nat (4096 * (32 + i))"
      using p by (auto simp: demo_env_def simp del: of_nat_mult of_nat_add)
    have "unat p = 4096 * (32 + i)" using demo_page [OF i(1)] i(2) by simp
    then show ?thesis by (auto simp: good_page_def PAGE_SIZE_def)
  qed
  moreover have "length (e_hashes (demo_env t)) = t" "length (e_pages (demo_env t)) = 160000" "e_clock (demo_env t) = (1, 1)"
    by (simp_all add: demo_env_def)
  ultimately show ?thesis using demo_lists by (simp add: good_env_def)
qed


text \<open>The printed throughput is a multiple of 1000, and 0 for every run of more milliseconds than operations; a
  run of less than one millisecond divides by zero.\<close>

lemma throughput_coarse:
  "throughput t n 0 = None" "t * n < d \<Longrightarrow> throughput t n d = Some 0"
  by (auto simp: throughput_def div_word_less)

end
