(* ===== verification/Touch_Region.thy ===== *)
theory Touch_Region
  imports Demos
begin

text \<open>
  The programs that use a region whose faults are served in user space:
  \<open>demos/user_level_mmap_demo/simple_mmap.cc\<close>, which maps with \<open>ul_mmap\<close>, and
  \<open>demos/userfaultfd_demo/userfaultfd_demo.c\<close>, which has a handler of its own. Both read the region every
  1024 bytes.

  The reading thread waits while its fault is served, so that the two threads alternate: a
  read of a page without a translation is one iteration of the handler, and then the read again.
  The address the kernel reports for a fault is an argument. The results of the system calls are the
  environment, as in \<open>User_Mmap\<close>; messages are left out.
\<close>

subsection \<open>Reading a region\<close>

text \<open>One read, with at most \<open>r\<close> faults. \<open>Inl None\<close> is a read that has not returned.\<close>

fun read_byte ::
  "(u64 \<Rightarrow> 's \<Rightarrow> u8 option) \<Rightarrow> (u64 \<Rightarrow> 's \<Rightarrow> 'e option + 's) \<Rightarrow> nat \<Rightarrow> u64 \<Rightarrow> 's \<Rightarrow> 'e option + u8 \<times> 's" where
  "read_byte ld sv 0 a s = (case ld a s of Some c \<Rightarrow> Inr (c, s) | None \<Rightarrow> Inl None)"
| "read_byte ld sv (Suc r) a s =
     (case ld a s of
        Some c \<Rightarrow> Inr (c, s)
      | None \<Rightarrow> (case sv a s of Inl e \<Rightarrow> Inl e | Inr s' \<Rightarrow> read_byte ld sv r a s'))"

text \<open>The loop \<open>while (l < len)\<close> with its \<open>k\<close> rounds of fuel; the characters it prints.\<close>

fun touch_loop ::
  "(u64 \<Rightarrow> 's \<Rightarrow> u8 option) \<Rightarrow> (u64 \<Rightarrow> 's \<Rightarrow> 'e option + 's) \<Rightarrow> nat \<Rightarrow> nat \<Rightarrow> u64 \<Rightarrow> u64 \<Rightarrow> u64 \<Rightarrow> 's \<Rightarrow>
   'e option + u8 list \<times> 's" where
  "touch_loop ld sv r 0 addr len l s = Inl None"
| "touch_loop ld sv r (Suc k) addr len l s =
     (if l < len
      then case read_byte ld sv r (addr + l) s of
             Inl e \<Rightarrow> Inl e
           | Inr (c, s1) \<Rightarrow>
               (case touch_loop ld sv r k addr len (l + 1024) s1 of
                  Inl e \<Rightarrow> Inl e
                | Inr (cs, s2) \<Rightarrow> Inr (c # cs, s2))
      else Inr ([], s))"

definition first_offset :: u64 where "first_offset = 0xf"

text \<open>How \<open>main\<close> ends. \<open>Unfinished\<close> is a run that has not ended within its fuel.\<close>

datatype 'e run = Usage_exit | Mmap_failed_exit | Ended 'e | Unfinished | Success "u8 list"

definition run_of :: "'e option + u8 list \<times> 's \<Rightarrow> 'e run" where
  "run_of x = (case x of Inl None \<Rightarrow> Unfinished | Inl (Some e) \<Rightarrow> Ended e | Inr (cs, _) \<Rightarrow> Success cs)"

text \<open>The woken range contains the address.\<close>

definition woken :: "u64 \<times> u64 \<Rightarrow> u64 \<Rightarrow> bool" where
  "woken w a \<longleftrightarrow> unat (a - fst w) < unat (snd w)"

subsection \<open>\<open>simple_mmap.cc\<close>\<close>

text \<open>A fault of the region: \<open>E\<close> is the environment of the handler's iterations, by their number, and
  \<open>report\<close> the address the kernel reports. A thread that is not woken waits for ever.\<close>

definition serve_region ::
  "os \<Rightarrow> lib \<Rightarrow> u32 \<Rightarrow> (nat \<Rightarrow> fault_env) \<Rightarrow> (u64 \<Rightarrow> u64) \<Rightarrow> u64 \<Rightarrow> pfhandle_args \<times> kstate \<Rightarrow>
   failure option + pfhandle_args \<times> kstate" where
  "serve_region W L ps E report a = (\<lambda>(args, s).
     case handle_fault W L ps ((E (nat (pf_fault_cnt args)))\<lparr>ev_address := report a\<rparr>) args s of
       Inl e \<Rightarrow> Inl (Some e)
     | Inr (args', s', w) \<Rightarrow> if woken w a then Inr (args', s') else Inl None)"

definition load_region :: "os \<Rightarrow> u64 \<Rightarrow> pfhandle_args \<times> kstate \<Rightarrow> u8 option" where
  "load_region W a = (\<lambda>(args, s). user_load W a s)"

definition simple_mmap_main ::
  "os \<Rightarrow> mmap_env \<Rightarrow> (nat \<Rightarrow> fault_env) \<Rightarrow> (u64 \<Rightarrow> u64) \<Rightarrow> nat \<Rightarrow> nat \<Rightarrow> int \<Rightarrow> u64 \<Rightarrow> ustate \<Rightarrow> failure run" where
  "simple_mmap_main W me E report r k argc num_pages u =
     (if argc \<noteq> 2 then Usage_exit
      else
        let page_size = 4096; len = num_pages * page_size in
        case ul_mmap W me len (-1) 0 u of
          (Exited e, _) \<Rightarrow> Ended e
        | (Blocked, _) \<Rightarrow> Unfinished
        | (Returned addr, u1) \<Rightarrow>
            if addr = MAP_FAILED then Mmap_failed_exit
            else run_of (touch_loop (load_region W) (serve_region W (us_lib u1) (us_page_size u1) E report)
                   r k addr len first_offset (the (us_mmap_regions u1 addr), us_k u1)))"

subsection \<open>\<open>userfaultfd_demo.c\<close>\<close>

definition BUFPOOLSIZE :: nat where "BUFPOOLSIZE = 1024"

datatype demo_failure =
  Sys failure | Exit_memalign int | Assert_fault_cnt | Err_pthread_create

text \<open>The static variables of the handler thread, the library, and the kernel.\<close>

record udemo =
  ud_fault_cnt :: int
  ud_bufpool :: "u64 list"
  ud_lib :: lib
  ud_k :: kstate

text \<open>\<open>posix_memalign\<close> for each buffer: its result and the address.\<close>

fun alloc_bufpool :: "(nat \<Rightarrow> int \<times> u64) \<Rightarrow> nat \<Rightarrow> nat \<Rightarrow> demo_failure + u64 list" where
  "alloc_bufpool al i 0 = Inr []"
| "alloc_bufpool al i (Suc n) =
     (if fst (al i) \<noteq> 0 then Inl (Exit_memalign (fst (al i)))
      else case alloc_bufpool al (Suc i) n of Inl e \<Rightarrow> Inl e | Inr ps \<Rightarrow> Inr (snd (al i) # ps))"

definition handler_init :: "os \<Rightarrow> (nat \<Rightarrow> int \<times> u64) \<Rightarrow> udemo \<Rightarrow> demo_failure + udemo" where
  "handler_init W al d =
     (if ud_fault_cnt d = 0 then
        (case alloc_bufpool al 0 BUFPOOLSIZE of
           Inl e \<Rightarrow> Inl e
         | Inr ps \<Rightarrow>
             (case ptedit_init W (ud_lib d) (ud_k d) of
                (r, L1, s1) \<Rightarrow>
                  if r \<noteq> 0 then Inl (Sys Exit_init)
                  else (case ptedit_use_implementation W L1 PTEDIT_IMPL_USER s1 of
                          (L2, s2) \<Rightarrow> Inr (d\<lparr>ud_bufpool := ps, ud_lib := L2, ud_k := s2\<rparr>))))
      else Inr d)"

text \<open>One iteration. The buffer is taken before the counter grows, the letter after it. The access for
  the message at the end is made by the handler itself: a fault of it would never be served.\<close>

definition demo_handle_fault ::
  "os \<Rightarrow> u32 \<Rightarrow> fault_env \<Rightarrow> udemo \<Rightarrow> demo_failure option + udemo \<times> (u64 \<times> u64)" where
  "demo_handle_fault W page_size ev d =
     (if ev_poll ev = -1 then Inl (Some (Sys Err_poll))
      else if ev_read ev = 0 then Inl (Some (Sys Exit_eof))
      else if ev_read ev = -1 then Inl (Some (Sys Err_read))
      else if \<not> ev_pagefault ev then Inl (Some (Sys Exit_unexpected_event))
      else if \<not> ud_fault_cnt d < int BUFPOOLSIZE then Inl (Some Assert_fault_cnt)
      else
        let given_page = ud_bufpool d ! nat (ud_fault_cnt d);
            cnt = ud_fault_cnt d + 1;
            s1 = ev_touch ev (ud_k d)
        in case user_memset W given_page (word_of_int (65 + cnt mod 20)) (unat page_size) s1 of
             None \<Rightarrow> Inl (Some (Sys Fault))
           | Some s2 \<Rightarrow>
               (case map_given_page W (ud_lib d) given_page (ev_address ev) s2 of
                  None \<Rightarrow> Inl (Some (Sys Fault))
                | Some s3 \<Rightarrow>
                    if user_load W (ev_address ev) s3 = None then Inl None
                    else if ev_wake ev = -1 then Inl (Some (Sys Err_wake))
                    else Inr (d\<lparr>ud_fault_cnt := cnt, ud_k := s3\<rparr>, wake_range page_size (ev_address ev))))"

definition serve_demo ::
  "os \<Rightarrow> u32 \<Rightarrow> (nat \<Rightarrow> fault_env) \<Rightarrow> (u64 \<Rightarrow> u64) \<Rightarrow> u64 \<Rightarrow> udemo \<Rightarrow> demo_failure option + udemo" where
  "serve_demo W ps E report a d =
     (case demo_handle_fault W ps ((E (nat (ud_fault_cnt d)))\<lparr>ev_address := report a\<rparr>) d of
        Inl e \<Rightarrow> Inl e
      | Inr (d', w) \<Rightarrow> if woken w a then Inr d' else Inl None)"

definition load_demo :: "os \<Rightarrow> u64 \<Rightarrow> udemo \<Rightarrow> u8 option" where
  "load_demo W a d = user_load W a (ud_k d)"

record uffd_env =
  ue_page_size :: u32
  ue_userfaultfd :: int
  ue_api :: int
  ue_mmap :: u64
  ue_register :: int
  ue_pthread :: int
  ue_memalign :: "nat \<Rightarrow> int \<times> u64"

definition uffd_main ::
  "os \<Rightarrow> uffd_env \<Rightarrow> (nat \<Rightarrow> fault_env) \<Rightarrow> (u64 \<Rightarrow> u64) \<Rightarrow> nat \<Rightarrow> nat \<Rightarrow> int \<Rightarrow> u64 \<Rightarrow> udemo \<Rightarrow> demo_failure run" where
  "uffd_main W ue E report r k argc num_pages d =
     (if argc \<noteq> 2 then Usage_exit
      else
        let page_size = ue_page_size ue; len = num_pages * int_to_size page_size; addr = ue_mmap ue in
        if ue_userfaultfd ue = -1 then Ended (Sys Err_userfaultfd)
        else if ue_api ue = -1 then Ended (Sys Err_api)
        else if addr = MAP_FAILED then Ended (Sys Err_mmap)
        else if ue_register ue = -1 then Ended (Sys Err_register)
        else if ue_pthread ue \<noteq> 0 then Ended Err_pthread_create
        else case handler_init W (ue_memalign ue) d of
               Inl e \<Rightarrow> Ended e
             | Inr d1 \<Rightarrow>
                 run_of (touch_loop (load_demo W) (serve_demo W page_size E report) r k addr len first_offset d1))"

subsection \<open>A server of faults\<close>

text \<open>
  What the reading loop relies on of a handler and the memory behind it: after \<open>k\<close> faults the first \<open>k\<close> pages
  of the region can be read and hold their letters, the others cannot, and a fault on the next page is
  served.
\<close>

locale fault_server =
  fixes ld :: "u64 \<Rightarrow> 's \<Rightarrow> u8 option" and sv :: "u64 \<Rightarrow> 's \<Rightarrow> 'e option + 's"
    and served :: "nat \<Rightarrow> 's \<Rightarrow> bool"
    and base :: u64 and n :: nat and letter :: "nat \<Rightarrow> u8"
  assumes pages: "served k s \<Longrightarrow> 4096 * n < 2 ^ 64"
    and load_served: "served k s \<Longrightarrow> i < k \<Longrightarrow> i < n \<Longrightarrow> off < 4096 \<Longrightarrow>
      ld (base + of_nat (4096 * i + off)) s = Some (letter i)"
    and load_missing: "served k s \<Longrightarrow> k < n \<Longrightarrow> off < 4096 \<Longrightarrow> ld (base + of_nat (4096 * k + off)) s = None"
    and serve_next: "served k s \<Longrightarrow> k < n \<Longrightarrow> off < 4096 \<Longrightarrow>
      \<exists>s'. sv (base + of_nat (4096 * k + off)) s = Inr s' \<and> served (Suc k) s'"
begin

lemma read_next:
  assumes "served k s" "i \<le> k" "i < n" "off < 4096"
  shows "\<exists>s'. read_byte ld sv (Suc r) (base + of_nat (4096 * i + off)) s = Inr (letter i, s')
    \<and> served (max k (Suc i)) s'"
proof (cases "i = k")
  case True
  obtain s' where s': "sv (base + of_nat (4096 * k + off)) s = Inr s'" "served (Suc k) s'"
    using serve_next [OF assms(1)] assms(3,4) True by blast
  have "ld (base + of_nat (4096 * k + off)) s' = Some (letter k)"
    using load_served [OF s'(2), of k off] assms(3,4) True by simp
  then show ?thesis
    using s' load_missing [OF assms(1), of off] assms(3,4) True by (cases r) (simp_all add: max_def)
next
  case False
  then have "i < k" "max k (Suc i) = k" using assms(2) by simp_all
  then show ?thesis using load_served [OF assms(1), of i off] assms by simp
qed

text \<open>The reads at the offsets 15, 1039, \<dots> go through the pages in order, four to each page.\<close>

lemma touch_from:
  assumes "served ((j + 3) div 4) s" "j \<le> 4 * n" "4 * n - j < k"
  shows "\<exists>s'. touch_loop ld sv (Suc r) k base (of_nat (4096 * n)) (of_nat (15 + 1024 * j)) s
      = Inr (map (\<lambda>i. letter (i div 4)) [j..<4 * n], s') \<and> served n s'"
  using assms
proof (induction "4 * n - j" arbitrary: j s k)
  case 0
  then have j: "j = 4 * n" by simp
  obtain k' where k: "k = Suc k'" using 0 by (cases k) simp_all
  have "\<not> (of_nat (15 + 1024 * j) :: u64) < of_nat (4096 * n)"
  proof -
    have "n < 2 ^ 52" using pages [OF 0(2)] by simp
    then have "15 + 1024 * j < 2 ^ 64" using j by simp
    then show ?thesis
      using pages [OF 0(2)] j by (simp add: word_less_nat_alt unat_of_nat_u64 del: of_nat_add of_nat_mult)
  qed
  moreover have "(j + 3) div 4 = n" using j by simp
  ultimately show ?case using 0(2) j k by simp
next
  case (Suc x)
  define i where "i = j div 4"
  define off where "off = 15 + 1024 * (j mod 4)"
  have "j mod 4 < 4" and split: "j = 4 * i + j mod 4" by (simp_all add: i_def)
  then have i: "i < n" "off < 4096" "15 + 1024 * j = 4096 * i + off" "i \<le> (j + 3) div 4"
      "max ((j + 3) div 4) (Suc i) = (Suc j + 3) div 4"
    using Suc(2) unfolding off_def by (linarith, linarith, linarith, simp_all add: i_def)
  have lt: "15 + 1024 * j < 4096 * n" using i by (simp add: i(3))
  obtain k' where k: "k = Suc k'" "4 * n - Suc j < k'" using Suc.prems Suc(2) by (cases k) simp_all
  obtain s1 where s1: "read_byte ld sv (Suc r) (base + of_nat (15 + 1024 * j)) s = Inr (letter i, s1)"
      "served ((Suc j + 3) div 4) s1"
    using read_next [OF Suc.prems(1) i(4) i(1,2), of r] unfolding i(3,5) by blast
  have x: "x = 4 * n - Suc j" "Suc j \<le> 4 * n" using Suc(2) by simp_all
  obtain s2 where s2: "touch_loop ld sv (Suc r) k' base (of_nat (4096 * n)) (of_nat (15 + 1024 * Suc j)) s1
      = Inr (map (\<lambda>i. letter (i div 4)) [Suc j..<4 * n], s2)" "served n s2"
    using Suc.hyps(1) [OF x(1) s1(2) x(2) k(2)] by blast
  have nx: "(of_nat (15 + 1024 * j) :: u64) + 1024 = of_nat (15 + 1024 * Suc j)" by simp
  have "(of_nat (15 + 1024 * j) :: u64) < of_nat (4096 * n)"
    using lt pages [OF Suc.prems(1)] by (simp add: word_less_nat_alt unat_of_nat_u64 del: of_nat_add of_nat_mult)
  then show ?case
    using s1(1) s2 upt_conv_Cons [of j "4 * n"] Suc(2)
    unfolding k(1) touch_loop.simps nx by (simp del: of_nat_add of_nat_mult read_byte.simps add: i_def)
qed

lemma touch_all:
  assumes "served 0 s" "4 * n < k"
  shows "\<exists>s'. touch_loop ld sv (Suc r) k base (of_nat (4096 * n)) first_offset s
      = Inr (concat (map (\<lambda>i. replicate 4 (letter i)) [0..<n]), s') \<and> served n s'"
proof -
  have "map (\<lambda>i. letter (i div 4)) [0..<4 * q] = concat (map (\<lambda>i. replicate 4 (letter i)) [0..<q])" for q
  proof (induction q)
    case (Suc q)
    have "[0..<4 * Suc q] = [0..<4 * q] @ [4 * q..<4 * q + 4]"
      using upt_add_eq_append [of 0 "4 * q" 4] by (simp add: add.commute)
    moreover have "map (\<lambda>i. letter (i div 4)) [4 * q..<4 * q + 4] = replicate 4 (letter q)"
      by (rule nth_equalityI) auto
    ultimately show ?case using Suc by simp
  qed simp
  then show ?thesis using touch_from [of 0 s k r] assms by (simp add: first_offset_def)
qed

end

subsection \<open>Walks under agreeing memories\<close>

text \<open>A walk depends on memory through the three upper entries alone, but for the page-table entry
  itself.\<close>

definition upper_agree :: "mem \<Rightarrow> mem \<Rightarrow> u64 \<Rightarrow> u64 \<Rightarrow> bool" where
  "upper_agree m m' root a \<longleftrightarrow> (\<forall>p\<in>set (upper_slots m root a). load64 m' p = load64 m p)"

lemma upper_agree_walk:
  assumes "upper_agree m m' root a"
  shows "pud_slot m' root a = pud_slot m root a" "pmd_slot m' root a = pmd_slot m root a"
    "pte_slot m' root a = pte_slot m root a"
    "load64 m' (pgd_slot root a) = load64 m (pgd_slot root a)"
    "load64 m' (pud_slot m root a) = load64 m (pud_slot m root a)"
    "load64 m' (pmd_slot m root a) = load64 m (pmd_slot m root a)"
proof -
  show l3: "load64 m' (pgd_slot root a) = load64 m (pgd_slot root a)"
    and l2: "load64 m' (pud_slot m root a) = load64 m (pud_slot m root a)"
    and l1: "load64 m' (pmd_slot m root a) = load64 m (pmd_slot m root a)"
    using assms by (auto simp: upper_agree_def upper_slots_def)
  show p2: "pud_slot m' root a = pud_slot m root a" by (simp add: pud_slot_def l3)
  show p1: "pmd_slot m' root a = pmd_slot m root a" by (simp add: pmd_slot_def p2 l2)
  show "pte_slot m' root a = pte_slot m root a" by (simp add: pte_slot_def p1 l1)
qed

lemma upper_agree_preds:
  assumes "upper_agree m m' root a"
  shows "reaches_pte m' root a = reaches_pte m root a" "accessible ok m' root a = accessible ok m root a"
    "narrow_walk m' root a = narrow_walk m root a" "walk_slots m' root a = walk_slots m root a"
    "pte_separate m' root a = pte_separate m root a" "frame_apart f m' root a = frame_apart f m root a"
  unfolding reaches_pte_def accessible_def narrow_walk_def walk_slots_def upper_slots_def pte_separate_def
    frame_apart_def upper_agree_walk [OF assms] by simp_all

lemma user_ready_agree:
  assumes "upper_agree (phys s) m' (root_of W L 0 s) a"
  shows "user_ready W L a 0 (log_events es (s\<lparr>phys := m'\<rparr>)) = user_ready W L a 0 s"
  using upper_agree_preds [OF assms] by (simp add: user_ready_def)

text \<open>A store of eight bytes at \<open>p\<close> meets none of the entries of the walk.\<close>

definition slot_apart :: "u64 \<Rightarrow> mem \<Rightarrow> u64 \<Rightarrow> u64 \<Rightarrow> bool" where
  "slot_apart p m root a \<longleftrightarrow> (\<forall>q\<in>set (walk_slots m root a). apart p 8 q 8)"

lemma maps_page_agree:
  assumes "upper_agree m m' root a" "load64 m' (pte_slot m root a) = load64 m (pte_slot m root a)"
  shows "maps_page m' root a f = maps_page m root a f"
  using assms(2) by (simp add: maps_page_def upper_agree_walk [OF assms(1)] upper_agree_preds [OF assms(1)])

text \<open>The two writes of a served fault: the content into the frame \<open>f\<close>, the entry into the slot \<open>p\<close>.\<close>

abbreviation fault_writes :: "mem \<Rightarrow> u64 \<Rightarrow> u8 list \<Rightarrow> u64 \<Rightarrow> u64 \<Rightarrow> mem" where
  "fault_writes m f bs p v \<equiv> store64 (write_bytes m f bs) p v"

lemma fault_writes_load:
  assumes "apart f 4096 q 8" "apart p 8 q 8" "length bs \<le> 4096"
  shows "load64 (fault_writes m f bs p v) q = load64 m q"
  using assms apart_shorter [OF assms(1,3)] by (simp add: load64_store64_apart load64_write_bytes_apart)

lemma fault_writes_agree:
  assumes "frame_apart f m root a" "length bs \<le> 4096" "\<forall>q\<in>set (upper_slots m root a). apart p 8 q 8"
  shows "upper_agree m (fault_writes m f bs p v) root a"
  using assms fault_writes_load [of f _ p bs m v] by (simp add: upper_agree_def frame_apart_def walk_slots_def)

lemma fault_writes_walk:
  assumes "frame_apart f m root a" "length bs \<le> 4096" "slot_apart p m root a"
  shows "upper_agree m (fault_writes m f bs p v) root a"
    "load64 (fault_writes m f bs p v) (pte_slot m root a) = load64 m (pte_slot m root a)"
  using assms fault_writes_agree [OF assms(1,2), of p v] fault_writes_load [of f "pte_slot m root a" p bs m v]
  by (simp_all add: slot_apart_def walk_slots_def frame_apart_def)

subsection \<open>A region in memory\<close>

text \<open>A region of \<open>lay_n\<close> pages, the pages that are given to it, by the number of the fault, and their frames.\<close>

record layout =
  lay_base :: u64
  lay_n :: nat
  lay_given :: "nat \<Rightarrow> u64"
  lay_frame :: "nat \<Rightarrow> u64"

definition lay_page :: "layout \<Rightarrow> nat \<Rightarrow> u64" where
  "lay_page R i = lay_base R + of_nat (4096 * i)"

text \<open>The library can walk to every page of the region and to every given page; the tables exist; the given
  pages are mapped to frames of their own, which hold no tables; the entries of the region are entries of
  no other walk.\<close>

definition layout_ok :: "os \<Rightarrow> lib \<Rightarrow> layout \<Rightarrow> kstate \<Rightarrow> bool" where
  "layout_ok W L R s \<longleftrightarrow>
     (let m = phys s; root = root_of W L 0 s in
      take_bit 12 (lay_base R) = 0 \<and> 4096 * lay_n R < 2 ^ 64 \<and> root = kernel_root W 0 s
    \<and> (\<forall>i<lay_n R. user_ready W L (lay_page R i) 0 s \<and> user_ready W L (lay_given R i) 0 s
         \<and> reaches_pte m root (lay_page R i) \<and> pte_separate m root (lay_page R i)
         \<and> maps_page m root (lay_given R i) (lay_frame R i))
    \<and> (\<forall>i<lay_n R. \<forall>j<lay_n R.
         frame_apart (lay_frame R i) m root (lay_page R j) \<and> frame_apart (lay_frame R i) m root (lay_given R j)
       \<and> slot_apart (pte_slot m root (lay_page R i)) m root (lay_given R j)
       \<and> (i \<noteq> j \<longrightarrow> lay_frame R i \<noteq> lay_frame R j
            \<and> slot_apart (pte_slot m root (lay_page R i)) m root (lay_page R j))))"

text \<open>The first \<open>k\<close> pages are mapped and hold their letters, the others are not present.\<close>

definition filled :: "layout \<Rightarrow> (nat \<Rightarrow> u8) \<Rightarrow> nat \<Rightarrow> mem \<Rightarrow> u64 \<Rightarrow> bool" where
  "filled R letter k m root \<longleftrightarrow>
     (\<forall>i<lay_n R. if i < k then maps_page m root (lay_page R i) (lay_frame R i)
                    \<and> read_bytes m (lay_frame R i) 4096 = replicate 4096 (letter i)
                  else \<not> bit (load64 m (pte_slot m root (lay_page R i))) 0)"

lemma lay_page_aligned: "take_bit 12 (lay_base R) = 0 \<Longrightarrow> take_bit 12 (lay_page R i) = 0"
proof -
  have "(of_nat (4096 * i) :: u64) = push_bit 12 (of_nat i)" by (simp add: push_bit_eq_mult)
  then have "take_bit 12 (of_nat (4096 * i) :: u64) = 0" by (simp add: take_bit_push_bit)
  then show "take_bit 12 (lay_base R) = 0 \<Longrightarrow> ?thesis"
    using take_bit_add_aligned [of 12 "lay_base R"] by (simp add: lay_page_def del: of_nat_mult)
qed

lemma layout_okD:
  assumes "layout_ok W L R s"
  shows "take_bit 12 (lay_base R) = 0" "4096 * lay_n R < 2 ^ 64" "root_of W L 0 s = kernel_root W 0 s"
    "i < lay_n R \<Longrightarrow> user_ready W L (lay_page R i) 0 s" "i < lay_n R \<Longrightarrow> user_ready W L (lay_given R i) 0 s"
    "i < lay_n R \<Longrightarrow> reaches_pte (phys s) (root_of W L 0 s) (lay_page R i)"
    "i < lay_n R \<Longrightarrow> maps_page (phys s) (root_of W L 0 s) (lay_given R i) (lay_frame R i)"
    "i < lay_n R \<Longrightarrow> j < lay_n R \<Longrightarrow> frame_apart (lay_frame R i) (phys s) (root_of W L 0 s) (lay_given R j)"
    "i < lay_n R \<Longrightarrow> j < lay_n R \<Longrightarrow> frame_apart (lay_frame R i) (phys s) (root_of W L 0 s) (lay_page R j)"
  using assms unfolding layout_ok_def Let_def by blast+

text \<open>The writes that serve the fault of page \<open>k\<close>, seen from every walk of the layout.\<close>

abbreviation page_writes :: "os \<Rightarrow> lib \<Rightarrow> layout \<Rightarrow> nat \<Rightarrow> u8 \<Rightarrow> u64 \<Rightarrow> kstate \<Rightarrow> mem" where
  "page_writes W L R k c v s \<equiv> fault_writes (phys s) (lay_frame R k) (replicate 4096 c)
     (pte_slot (phys s) (root_of W L 0 s) (lay_page R k)) v"

lemma layout_agree:
  fixes c :: u8 and v :: u64
  assumes ok: "layout_ok W L R s" and k: "k < lay_n R" and i: "i < lay_n R"
  defines "m \<equiv> phys s" and "root \<equiv> root_of W L 0 s" and "m' \<equiv> page_writes W L R k c v s"
  shows "upper_agree m m' root (lay_given R i)"
    "load64 m' (pte_slot m root (lay_given R i)) = load64 m (pte_slot m root (lay_given R i))"
    "upper_agree m m' root (lay_page R i)"
    "i \<noteq> k \<Longrightarrow> load64 m' (pte_slot m root (lay_page R i)) = load64 m (pte_slot m root (lay_page R i))"
proof -
  note ok' = ok [unfolded layout_ok_def Let_def, folded m_def, folded root_def]
  have m': "m' = fault_writes m (lay_frame R k) (replicate 4096 c) (pte_slot m root (lay_page R k)) v"
    by (simp add: m'_def m_def root_def)
  have len: "length (replicate 4096 c) \<le> 4096" by simp
  show "upper_agree m m' root (lay_given R i)"
      "load64 m' (pte_slot m root (lay_given R i)) = load64 m (pte_slot m root (lay_given R i))"
    unfolding m' using ok' k i by (intro fault_writes_walk len; blast)+
  have ne: "upper_agree m m' root (lay_page R i)"
      "load64 m' (pte_slot m root (lay_page R i)) = load64 m (pte_slot m root (lay_page R i))" if "i \<noteq> k"
    unfolding m' using ok' k i that by (intro fault_writes_walk len; blast)+
  show "i \<noteq> k \<Longrightarrow> load64 m' (pte_slot m root (lay_page R i)) = load64 m (pte_slot m root (lay_page R i))" by (rule ne(2))
  have "upper_agree m m' root (lay_page R k)"
    unfolding m' using ok' k by (intro fault_writes_agree len) (auto simp: pte_separate_def)
  with ne show "upper_agree m m' root (lay_page R i)" by (cases "i = k") auto
qed

lemma layout_kept:
  assumes ok: "layout_ok W L R s" and k: "k < lay_n R"
  shows "layout_ok W L R (log_events es (s\<lparr>phys := page_writes W L R k c v s\<rparr>))"
proof -
  define m where "m = phys s"
  define root where "root = root_of W L 0 s"
  define m' where "m' = page_writes W L R k c v s"
  note ag = layout_agree [OF ok k, of _ c v, folded m'_def, folded m_def, folded root_def]
  have ur: "user_ready W L a 0 (log_events es (s\<lparr>phys := m'\<rparr>)) = user_ready W L a 0 s"
    if "upper_agree m m' root a" for a
    using user_ready_agree that by (simp add: m_def root_def)
  have sl: "slot_apart q m' root a = slot_apart q m root a" if "upper_agree m m' root a" for q a
    by (simp add: slot_apart_def upper_agree_preds(4) [OF that])
  have g: "maps_page m' root (lay_given R i) f = maps_page m root (lay_given R i) f" if "i < lay_n R" for i f
    using maps_page_agree ag(1,2) [OF that] by blast
  note ok' = ok [unfolded layout_ok_def Let_def, folded m_def, folded root_def]
  have rt: "root_of W L 0 (log_events es (s\<lparr>phys := m'\<rparr>)) = root" "phys (log_events es (s\<lparr>phys := m'\<rparr>)) = m'"
      "kernel_root W 0 (log_events es (s\<lparr>phys := m'\<rparr>)) = root"
    using ok' by (simp_all add: root_def)
  have "take_bit 12 (lay_base R) = 0" "4096 * lay_n R < 2 ^ 64"
      "\<forall>i<lay_n R. user_ready W L (lay_page R i) 0 s \<and> user_ready W L (lay_given R i) 0 s
        \<and> reaches_pte m root (lay_page R i) \<and> pte_separate m root (lay_page R i)
        \<and> maps_page m root (lay_given R i) (lay_frame R i)"
      "\<forall>i<lay_n R. \<forall>j<lay_n R.
        frame_apart (lay_frame R i) m root (lay_page R j) \<and> frame_apart (lay_frame R i) m root (lay_given R j)
      \<and> slot_apart (pte_slot m root (lay_page R i)) m root (lay_given R j)
      \<and> (i \<noteq> j \<longrightarrow> lay_frame R i \<noteq> lay_frame R j \<and> slot_apart (pte_slot m root (lay_page R i)) m root (lay_page R j))"
    using ok' by blast+
  then show ?thesis
    unfolding layout_ok_def Let_def m'_def [symmetric] rt
    by (simp add: ur ag(1,3) g sl upper_agree_preds [OF ag(3)] upper_agree_preds [OF ag(1)] upper_agree_walk [OF ag(3)])
qed

lemma frames_after:
  assumes ok: "layout_ok W L R s" and k: "k < lay_n R" and i: "i < lay_n R"
  shows "read_bytes (page_writes W L R k c v s) (lay_frame R i) 4096
    = (if i = k then replicate 4096 c else read_bytes (phys s) (lay_frame R i) 4096)"
proof -
  have fr: "take_bit 12 (lay_frame R j) = 0" if "j < lay_n R" for j
    using layout_okD(7) [OF ok that] frame_aligned by blast
  have "apart (pte_slot (phys s) (root_of W L 0 s) (lay_page R k)) 8 (lay_frame R i) 4096"
    using layout_okD(9) [OF ok i k] apart_sym by (auto simp: frame_apart_def walk_slots_def)
  moreover have "lay_frame R k \<noteq> lay_frame R i" if "i \<noteq> k"
    using ok k i that unfolding layout_ok_def Let_def by metis
  ultimately show ?thesis
    using fr [OF i] fr [OF k] read_page_other [of "lay_frame R k" "lay_frame R i" "replicate 4096 c" "phys s"]
      read_write_bytes_same [of "replicate 4096 c" "phys s" "lay_frame R k"]
    by (auto simp: read_bytes_store64_apart)
qed

lemma layout_step:
  assumes ok: "layout_ok W L R s" and k: "k < lay_n R" and fl: "filled R letter k (phys s) (root_of W L 0 s)"
    and v: "bit v 0" "table_base v = lay_frame R k" and c: "letter k = c"
  defines "m' \<equiv> fault_writes (phys s) (lay_frame R k) (replicate 4096 c)
      (pte_slot (phys s) (root_of W L 0 s) (lay_page R k)) v"
  shows "layout_ok W L R (log_events es (s\<lparr>phys := m'\<rparr>))" "filled R letter (Suc k) m' (root_of W L 0 s)"
proof -
  show "layout_ok W L R (log_events es (s\<lparr>phys := m'\<rparr>))" unfolding m'_def by (rule layout_kept [OF ok k])
  define m where "m = phys s"
  define root where "root = root_of W L 0 s"
  note ag = layout_agree [OF ok k, of _ c v, folded m'_def, folded m_def, folded root_def]
  note rd = frames_after [OF ok k, of _ c v, folded m'_def, folded m_def]
  have "load64 m' (pte_slot m root (lay_page R k)) = v" by (simp add: m'_def m_def root_def load64_store64_same)
  moreover have "reaches_pte m root (lay_page R k)" using layout_okD(6) [OF ok k] by (simp add: m_def root_def)
  ultimately have new: "maps_page m' root (lay_page R k) (lay_frame R k)"
    using v lay_page_aligned [OF layout_okD(1) [OF ok]]
    by (simp add: maps_page_def upper_agree_walk [OF ag(3) [OF k]] upper_agree_preds [OF ag(3) [OF k]])
  have "if i < Suc k then maps_page m' root (lay_page R i) (lay_frame R i)
        \<and> read_bytes m' (lay_frame R i) 4096 = replicate 4096 (letter i)
      else \<not> bit (load64 m' (pte_slot m' root (lay_page R i))) 0" if i: "i < lay_n R" for i
  proof (cases "i = k")
    case True
    then show ?thesis using new rd [OF k] c by simp
  next
    case False
    moreover have "if i < k then maps_page m root (lay_page R i) (lay_frame R i)
          \<and> read_bytes m (lay_frame R i) 4096 = replicate 4096 (letter i)
        else \<not> bit (load64 m (pte_slot m root (lay_page R i))) 0"
      using fl i by (simp add: filled_def m_def root_def)
    ultimately show ?thesis
      using rd [OF i] maps_page_agree [OF ag(3) [OF i] ag(4) [OF i False]] ag(4) [OF i False] upper_agree_walk(3) [OF ag(3) [OF i]]
      by auto
  qed
  then show "filled R letter (Suc k) m' (root_of W L 0 s)" unfolding filled_def root_def by blast
qed

lemma filled_load:
  assumes "layout_ok W L R s" "filled R letter k (phys s) (root_of W L 0 s)" "i < lay_n R" "off < 4096"
  shows "user_load W (lay_base R + of_nat (4096 * i + off)) s = (if i < k then Some (letter i) else None)"
proof -
  let ?m = "phys s" and ?r = "root_of W L 0 s" and ?a = "lay_page R i"
  have a: "lay_base R + of_nat (4096 * i + off) = ?a + of_nat off" by (simp add: lay_page_def add.assoc)
  note d = layout_okD [OF assms(1)]
  have al: "take_bit 12 ?a = 0" by (rule lay_page_aligned [OF d(1)])
  have r: "kernel_root W 0 s = ?r" "reaches_pte ?m ?r ?a" using d(3) d(6) [OF assms(3)] by metis+
  show ?thesis
  proof (cases "i < k")
    case True
    then have mp: "maps_page ?m ?r ?a (lay_frame R i)" "read_bytes ?m (lay_frame R i) 4096 = replicate 4096 (letter i)"
      using assms(2,3) by (simp_all add: filled_def)
    then have "translate ?m ?r (?a + of_nat off) = Some (lay_frame R i + of_nat off)"
      using translate_in_page [OF al assms(4) r(2)] by (simp add: maps_page_def)
    moreover have "?m (lay_frame R i + of_nat off) = letter i"
      using nth_read_bytes [OF assms(4), of ?m "lay_frame R i"] mp(2) assms(4) by simp
    ultimately show ?thesis using True by (simp add: user_load_def a r(1) del: of_nat_add of_nat_mult)
  next
    case False
    then have "\<not> bit (load64 ?m (pte_slot ?m ?r ?a)) 0" using assms(2,3) by (simp add: filled_def)
    moreover have "drop_bit 12 (?a + of_nat off) = drop_bit 12 ?a"
      using add_low_part(2) [OF al] assms(4) by (simp add: unat_of_nat_u64)
    ultimately have "translate ?m ?r (?a + of_nat off) = None"
      using reaches_pte_same_page slots_same_page(2) r(2) translate_reaches by metis
    then show ?thesis using False by (simp add: user_load_def a r(1) del: of_nat_add of_nat_mult)
  qed
qed

text \<open>Writing the given page and entering its frame, the part both handlers share.\<close>

lemma serve_step:
  assumes ok: "layout_ok W L R s" and k: "k < lay_n R" and fl: "filled R letter k (phys s) (root_of W L 0 s)"
    and a: "drop_bit 12 a = drop_bit 12 (lay_page R k)"
    and c: "letter k = c"
  shows "\<exists>m s'. user_write (kernel_root W 0 s) (lay_given R k) (replicate 4096 c) (phys s) = Some m
    \<and> map_given_page W L (lay_given R k) a (s\<lparr>phys := m\<rparr>) = Some s'
    \<and> layout_ok W L R s' \<and> filled R letter (Suc k) (phys s') (root_of W L 0 s')"
proof -
  let ?m = "phys s" and ?r = "root_of W L 0 s" and ?g = "lay_given R k" and ?f = "lay_frame R k"
  let ?bs = "replicate 4096 c" and ?p = "pte_slot (phys s) (root_of W L 0 s) (lay_page R k)"
  note d = layout_okD [OF ok]
  have r: "kernel_root W 0 s = ?r" using d(3) by (rule sym)
  note u = d(5,4) [OF k] and pg = d(6,7) [OF k] and ap = d(8,9) [OF k k]
  have len: "length ?bs \<le> 4096" by simp
  define m1 where "m1 = write_bytes ?m ?f ?bs"
  let ?s1 = "s\<lparr>phys := m1\<rparr>"
  have uw: "user_write (kernel_root W 0 s) ?g ?bs ?m = Some m1"
    using user_write_page [of ?g ?m ?r ?bs] pg(2) ap(1) by (simp add: r m1_def maps_page_def)
  note wg = walk_write_bytes [OF ap(1) len] and wp = walk_write_bytes [OF ap(2) len]
  note wg' = walk_write_bytes_preds [OF ap(1) len] and wp' = walk_write_bytes_preds [OF ap(2) len]
  have ua: "user_ready W L x 0 t = user_ready W L y 0 t" if "drop_bit 12 x = drop_bit 12 y" for x y t
    by (simp add: user_ready_def accessible_def narrow_walk_def slots_same_page [OF that])
  have u1: "user_ready W L ?g 0 ?s1" "user_ready W L a 0 ?s1"
    using user_ready_write [OF u(1) ap(1) len] user_ready_write [OF u(2) ap(2) len] ua [OF a]
    by (simp_all add: m1_def)
  have rt: "root_of W L 0 ?s1 = ?r" by simp
  have "reaches_pte (phys ?s1) (root_of W L 0 ?s1) ?g" "reaches_pte (phys ?s1) (root_of W L 0 ?s1) a"
    unfolding rt using wg'(2) wp'(2) pg reaches_pte_same_page [OF a] by (simp_all add: m1_def maps_page_def)
  from map_given_page_eq [OF u1 this, unfolded rt] obtain es where
    mg: "map_given_page W L ?g a ?s1 = Some (log_events es (?s1\<lparr>phys := store64 m1 ?p
      (fault_pte X86_64 (load64 ?m ?p) (ptedit_get_pfn X86_64 (load64 ?m (pte_slot ?m ?r ?g))))\<rparr>))"
    using wg wp slots_same_page(2) [OF a] by (auto simp: m1_def)
  let ?v = "fault_pte X86_64 (load64 ?m ?p) (ptedit_get_pfn X86_64 (load64 ?m (pte_slot ?m ?r ?g)))"
  have "bit ?v 0" "table_base ?v = ?f"
    using fault_pte_bits [OF pfn_frame(2)] pfn_frame(1) pg(2) by (simp_all add: maps_page_def)
  note st = layout_step(1) [OF ok k fl this c, where es = es, folded m1_def] layout_step(2) [OF ok k fl this c, folded m1_def]
  show ?thesis using uw mg st by simp
qed

subsection \<open>The two handlers are servers of faults\<close>

text \<open>The environment answers without errors, the given pages are mapped already, and the kernel reports an
  address of the page that was accessed.\<close>

definition answers_ok :: "(nat \<Rightarrow> fault_env) \<Rightarrow> (u64 \<Rightarrow> u64) \<Rightarrow> bool" where
  "answers_ok E report \<longleftrightarrow>
     (\<forall>i. ev_poll (E i) \<noteq> -1 \<and> ev_read (E i) \<noteq> 0 \<and> ev_read (E i) \<noteq> -1 \<and> ev_pagefault (E i)
        \<and> ev_touch (E i) = id \<and> ev_wake (E i) \<noteq> -1)
   \<and> (\<forall>a. drop_bit 12 (report a) = drop_bit 12 a)"

lemma woken_page: "drop_bit 12 b = drop_bit 12 a \<Longrightarrow> woken (wake_range 4096 b) a"
proof -
  have "a = push_bit 12 (drop_bit 12 a) + take_bit 12 a"
    using bits_ident [of 12 a] by (simp add: add.commute)
  then have "a - push_bit 12 (drop_bit 12 a) = take_bit 12 a" by (metis add_diff_cancel_left')
  moreover have "unat (take_bit 12 a) < 4096"
    using take_bit_nat_less_exp [of 12 "unat a"] by (simp add: unsigned_take_bit_eq)
  ultimately show "drop_bit 12 b = drop_bit 12 a \<Longrightarrow> ?thesis" by (simp add: woken_def wake_range_page)
qed

lemma lay_page_offset:
  assumes "take_bit 12 (lay_base R) = 0" "off < 4096"
  shows "drop_bit 12 (lay_base R + of_nat (4096 * k + off)) = drop_bit 12 (lay_page R k)"
proof -
  have "lay_base R + of_nat (4096 * k + off) = lay_page R k + of_nat off" by (simp add: lay_page_def add.assoc)
  then show ?thesis
    using add_low_part(2) [OF lay_page_aligned [OF assms(1)], of "of_nat off" k] assms(2)
    by (simp add: unat_of_nat_u64 del: of_nat_add of_nat_mult)
qed

text \<open>The region of \<open>ul_mmap\<close>, mapped without a file: the \<open>i\<close>-th page gets the letter \<open>'A' + i % 26\<close>.\<close>

definition region_letter :: "nat \<Rightarrow> u8" where
  "region_letter i = word_of_int (65 + int i mod 26)"

definition region_served ::
  "os \<Rightarrow> lib \<Rightarrow> (nat \<Rightarrow> fault_env) \<Rightarrow> (u64 \<Rightarrow> u64) \<Rightarrow> layout \<Rightarrow> nat \<Rightarrow> pfhandle_args \<times> kstate \<Rightarrow> bool" where
  "region_served W L E report R k = (\<lambda>(args, s).
     answers_ok E report \<and> (\<forall>i<lay_n R. ev_malloc (E i) = lay_given R i \<and> lay_given R i \<noteq> 0)
   \<and> pf_fd args = -1 \<and> pf_fault_cnt args = int k
   \<and> layout_ok W L R s \<and> filled R region_letter k (phys s) (root_of W L 0 s))"

lemma region_served_step:
  assumes "region_served W L E report R k x" "k < lay_n R" "drop_bit 12 a = drop_bit 12 (lay_page R k)"
  shows "\<exists>x'. serve_region W L 4096 E report a x = Inr x' \<and> region_served W L E report R (Suc k) x'"
proof -
  obtain args s where x: "x = (args, s)" by (cases x)
  note h = assms(1) [unfolded region_served_def x prod.case answers_ok_def]
  let ?ev = "(E k)\<lparr>ev_address := report a\<rparr>"
  have ps: "unat (4096::u32) = 4096" by simp
  have ra: "drop_bit 12 (report a) = drop_bit 12 (lay_page R k)" using h assms(3) by simp
  obtain m s' where s': "user_write (kernel_root W 0 s) (lay_given R k) (replicate 4096 (region_letter k)) (phys s) = Some m"
      "map_given_page W L (lay_given R k) (report a) (s\<lparr>phys := m\<rparr>) = Some s'"
      "layout_ok W L R s'" "filled R region_letter (Suc k) (phys s') (root_of W L 0 s')"
    using serve_step [OF _ assms(2) _ ra refl, of W L s region_letter] h by blast
  have "page_content args ?ev 4096 = replicate 4096 (region_letter k)"
    using h by (simp add: page_content_def region_letter_def)
  then have "handle_fault W L 4096 ?ev args s
      = Inr (args\<lparr>pf_fault_cnt := int k + 1\<rparr>, s', wake_range 4096 (report a))"
    using h assms(2) s'(1,2) by (simp add: handle_fault_def Let_def)
  moreover have "woken (wake_range 4096 (report a)) a" using h by (intro woken_page) simp
  ultimately have "serve_region W L 4096 E report a x = Inr (args\<lparr>pf_fault_cnt := int k + 1\<rparr>, s')"
    using h by (simp add: serve_region_def x)
  moreover have "region_served W L E report R (Suc k) (args\<lparr>pf_fault_cnt := int k + 1\<rparr>, s')"
    using h s'(3,4) by (simp add: region_served_def answers_ok_def)
  ultimately show ?thesis by blast
qed

text \<open>The demo: the \<open>i\<close>-th page gets the letter \<open>'A' + (i + 1) % 20\<close> and the \<open>i\<close>-th buffer.\<close>

definition demo_letter :: "nat \<Rightarrow> u8" where
  "demo_letter i = word_of_int (65 + (int i + 1) mod 20)"

definition demo_served ::
  "os \<Rightarrow> (nat \<Rightarrow> fault_env) \<Rightarrow> (u64 \<Rightarrow> u64) \<Rightarrow> layout \<Rightarrow> nat \<Rightarrow> udemo \<Rightarrow> bool" where
  "demo_served W E report R k d \<longleftrightarrow>
     answers_ok E report \<and> lay_n R \<le> BUFPOOLSIZE
   \<and> (\<forall>i<lay_n R. ud_bufpool d ! i = lay_given R i)
   \<and> ud_fault_cnt d = int k
   \<and> layout_ok W (ud_lib d) R (ud_k d) \<and> filled R demo_letter k (phys (ud_k d)) (root_of W (ud_lib d) 0 (ud_k d))"

lemma load_same_page:
  assumes "layout_ok W L R s" "filled R letter (Suc k) (phys s) (root_of W L 0 s)" "k < lay_n R"
    "drop_bit 12 a = drop_bit 12 (lay_page R k)"
  shows "user_load W a s = Some (letter k)"
proof -
  define off where "off = unat (take_bit 12 a)"
  have off: "off < 4096"
    using take_bit_nat_less_exp [of 12 "unat a"] by (simp add: off_def unsigned_take_bit_eq)
  have "push_bit 12 (drop_bit 12 (lay_page R k)) = lay_page R k"
    using bits_ident [of 12 "lay_page R k"] lay_page_aligned [OF layout_okD(1) [OF assms(1)], of k] by simp
  then have "a = lay_page R k + of_nat off"
    using bits_ident [of 12 a] assms(4) by (simp add: off_def)
  then have "a = lay_base R + of_nat (4096 * k + off)" by (simp add: lay_page_def add.assoc)
  then show ?thesis using filled_load [OF assms(1-3) off] by simp
qed

lemma demo_served_step:
  assumes "demo_served W E report R k d" "k < lay_n R" "drop_bit 12 a = drop_bit 12 (lay_page R k)"
  shows "\<exists>d'. serve_demo W 4096 E report a d = Inr d' \<and> demo_served W E report R (Suc k) d'"
proof -
  note h = assms(1) [unfolded demo_served_def answers_ok_def]
  let ?ev = "(E k)\<lparr>ev_address := report a\<rparr>" and ?s = "ud_k d" and ?L = "ud_lib d"
  have ps: "unat (4096::u32) = 4096" by simp
  have ra: "drop_bit 12 (report a) = drop_bit 12 (lay_page R k)" using h assms(3) by simp
  obtain m s' where s': "user_write (kernel_root W 0 ?s) (lay_given R k) (replicate 4096 (demo_letter k)) (phys ?s) = Some m"
      "map_given_page W ?L (lay_given R k) (report a) (?s\<lparr>phys := m\<rparr>) = Some s'"
      "layout_ok W ?L R s'" "filled R demo_letter (Suc k) (phys s') (root_of W ?L 0 s')"
    using serve_step [OF _ assms(2) _ ra refl, of W ?L ?s demo_letter] h by blast
  have ld: "user_load W (report a) s' = Some (demo_letter k)" by (rule load_same_page [OF s'(3,4) assms(2) ra])
  have "demo_handle_fault W 4096 ?ev d
      = Inr (d\<lparr>ud_fault_cnt := int k + 1, ud_k := s'\<rparr>, wake_range 4096 (report a))"
    using h assms(2) s'(1,2) ld
    by (simp add: demo_handle_fault_def user_memset_def demo_letter_def Let_def)
  moreover have "woken (wake_range 4096 (report a)) a" using h by (intro woken_page) simp
  ultimately have "serve_demo W 4096 E report a d = Inr (d\<lparr>ud_fault_cnt := int k + 1, ud_k := s'\<rparr>)"
    using h by (simp add: serve_demo_def)
  moreover have "demo_served W E report R (Suc k) (d\<lparr>ud_fault_cnt := int k + 1, ud_k := s'\<rparr>)"
    using h s'(3,4) by (simp add: demo_served_def answers_ok_def)
  ultimately show ?thesis by blast
qed

interpretation ul_region: fault_server "load_region W" "serve_region W L 4096 E report"
    "region_served W L E report R" "lay_base R" "lay_n R" region_letter for W L E report R
proof unfold_locales
  fix k :: nat and x :: "pfhandle_args \<times> kstate" and i off :: nat
  assume h: "region_served W L E report R k x"
  then have d: "layout_ok W L R (snd x)" "filled R region_letter k (phys (snd x)) (root_of W L 0 (snd x))"
    by (simp_all add: region_served_def split_beta)
  show "4096 * lay_n R < 2 ^ 64" using layout_okD(2) [OF d(1)] .
  show "load_region W (lay_base R + of_nat (4096 * i + off)) x = Some (region_letter i)"
    if "i < k" "i < lay_n R" "off < 4096"
    using filled_load [OF d that(2,3)] that(1) by (simp add: load_region_def split_beta)
  show "load_region W (lay_base R + of_nat (4096 * k + off)) x = None" if "k < lay_n R" "off < 4096"
    using filled_load [OF d that] by (simp add: load_region_def split_beta)
  show "\<exists>x'. serve_region W L 4096 E report (lay_base R + of_nat (4096 * k + off)) x = Inr x'
      \<and> region_served W L E report R (Suc k) x'" if "k < lay_n R" "off < 4096"
    by (rule region_served_step [OF h that(1) lay_page_offset [OF layout_okD(1) [OF d(1)] that(2)]])
qed

interpretation uffd_demo: fault_server "load_demo W" "serve_demo W 4096 E report"
    "demo_served W E report R" "lay_base R" "lay_n R" demo_letter for W E report R
proof unfold_locales
  fix k :: nat and x :: udemo and i off :: nat
  assume h: "demo_served W E report R k x"
  then have d: "layout_ok W (ud_lib x) R (ud_k x)"
      "filled R demo_letter k (phys (ud_k x)) (root_of W (ud_lib x) 0 (ud_k x))"
    by (simp_all add: demo_served_def)
  show "4096 * lay_n R < 2 ^ 64" using layout_okD(2) [OF d(1)] .
  show "load_demo W (lay_base R + of_nat (4096 * i + off)) x = Some (demo_letter i)"
    if "i < k" "i < lay_n R" "off < 4096"
    using filled_load [OF d that(2,3)] that(1) by (simp add: load_demo_def)
  show "load_demo W (lay_base R + of_nat (4096 * k + off)) x = None" if "k < lay_n R" "off < 4096"
    using filled_load [OF d that] by (simp add: load_demo_def)
  show "\<exists>x'. serve_demo W 4096 E report (lay_base R + of_nat (4096 * k + off)) x = Inr x'
      \<and> demo_served W E report R (Suc k) x'" if "k < lay_n R" "off < 4096"
    by (rule demo_served_step [OF h that(1) lay_page_offset [OF layout_okD(1) [OF d(1)] that(2)]])
qed

subsection \<open>The programs\<close>


text \<open>Initialisation of the demo's handler thread.\<close>

lemma alloc_bufpool_eq:
  "(\<forall>j. i \<le> j \<and> j < i + n \<longrightarrow> fst (al j) = 0) \<Longrightarrow>
   alloc_bufpool al i n = Inr (map (\<lambda>j. snd (al j)) [i..<i + n])"
proof (induction n arbitrary: i)
  case (Suc n)
  have "[i..<i + Suc n] = i # [Suc i..<Suc i + n]" by (simp add: upt_conv_Cons)
  then show ?case using Suc by simp
qed simp


subsection \<open>A concrete region\<close>

text \<open>Two pages behind the two mapped pages of the concrete address space.\<close>

definition region_mem :: mem where "region_mem = demo_touch demo_mem"

definition demo_layout :: layout where
  "demo_layout = \<lparr>lay_base = 0x8080606000, lay_n = 2,
     lay_given = (\<lambda>i. 0x8080604000 + of_nat (4096 * i)), lay_frame = (\<lambda>i. 0x5000 + of_nat (4096 * i))\<rparr>"

abbreviation region_state :: "kevent list \<Rightarrow> kstate" where
  "region_state es \<equiv> log_events es (demo_open\<lparr>phys := region_mem, umem_entry := True\<rparr>)"

lemma root_umem_entry [simp]:
  "kernel_root W p (s\<lparr>phys := m, umem_entry := b\<rparr>) = kernel_root W p s"
  "root_of W L p (s\<lparr>phys := m, umem_entry := b\<rparr>) = root_of W L p s"
  by (simp_all add: kernel_root_def root_of_def dev_open_def split: option.split)

lemma region_loads:
  "load64 region_mem 0x1008 = 0x2067" "load64 region_mem 0x2010 = 0x3067"
  "load64 region_mem 0x3018 = 0x4067" "load64 region_mem 0x4020 = 0x5067"
  "load64 region_mem 0x4028 = 0x6067" "load64 region_mem 0x4030 = 0" "load64 region_mem 0x4038 = 0"
proof -
  have "load64 (\<lambda>_. 0) a = 0" for a by (rule bit_eqI) (simp add: bit_load64)
  then show "load64 region_mem 0x1008 = 0x2067" "load64 region_mem 0x2010 = 0x3067"
      "load64 region_mem 0x3018 = 0x4067" "load64 region_mem 0x4020 = 0x5067"
      "load64 region_mem 0x4028 = 0x6067" "load64 region_mem 0x4030 = 0" "load64 region_mem 0x4038 = 0"
    by (simp_all add: region_mem_def demo_touch_def demo_mem_def load64_store64_same load64_store64_apart apart_def)
qed

abbreviation region_addrs :: "u64 set" where
  "region_addrs \<equiv> {0x8080604000, 0x8080605000, 0x8080606000, 0x8080607000}"

lemma region_slots:
  assumes "a \<in> region_addrs"
  shows "pgd_slot demo_root a = 0x1008" "pud_slot region_mem demo_root a = 0x2010"
    "pmd_slot region_mem demo_root a = 0x3018"
  using assms
  by (auto simp: pgd_slot_def pud_slot_def pmd_slot_def slot_def demo_root_def field_def table_base_def region_loads)

lemma region_pte_slots:
  "pte_slot region_mem demo_root 0x8080604000 = 0x4020" "pte_slot region_mem demo_root 0x8080605000 = 0x4028"
  "pte_slot region_mem demo_root 0x8080606000 = 0x4030" "pte_slot region_mem demo_root 0x8080607000 = 0x4038"
  using region_slots(3)
  by (simp_all add: pte_slot_def slot_def field_def table_base_def region_loads)

lemma region_walk:
  assumes "a \<in> region_addrs"
  shows "user_ready demo_os demo_lib a 0 (region_state es)" "reaches_pte region_mem demo_root a"
    "pte_separate region_mem demo_root a" "f \<in> {0x5000, 0x6000} \<Longrightarrow> frame_apart f region_mem demo_root a"
    "p \<in> {0x4030, 0x4038} \<Longrightarrow> p \<noteq> pte_slot region_mem demo_root a \<Longrightarrow> slot_apart p region_mem demo_root a"
proof -
  note sl = region_slots [OF assms]
  have pte: "pte_slot region_mem demo_root a \<in> {0x4020, 0x4028, 0x4030, 0x4038}"
    using assms region_pte_slots by auto
  have "accessible (access_ok demo_os demo_lib) region_mem demo_root a"
    unfolding accessible_def sl region_loads using pte
    by (auto simp: access_ok_def demo_lib_def vmem_ok_def MAP_FAILED_def)
  moreover have "narrow_walk region_mem demo_root a"
    unfolding narrow_walk_def sl region_loads by (simp add: narrow_def field_def)
  ultimately show "user_ready demo_os demo_lib a 0 (region_state es)"
    using demo_user_ready by (simp add: user_ready_def)
  show "reaches_pte region_mem demo_root a" unfolding reaches_pte_def sl region_loads by simp
  show "pte_separate region_mem demo_root a" "f \<in> {0x5000, 0x6000} \<Longrightarrow> frame_apart f region_mem demo_root a"
    unfolding pte_separate_def frame_apart_def walk_slots_def upper_slots_def sl using pte
    by (auto simp: apart_def)
  show "p \<in> {0x4030, 0x4038} \<Longrightarrow> p \<noteq> pte_slot region_mem demo_root a \<Longrightarrow> slot_apart p region_mem demo_root a"
    unfolding slot_apart_def walk_slots_def upper_slots_def sl using pte by (auto simp: apart_def)
qed

lemma region_layout: "layout_ok demo_os demo_lib demo_layout (region_state es)"
proof -
  have r: "root_of demo_os demo_lib 0 (region_state es) = demo_root" "kernel_root demo_os 0 (region_state es) = demo_root"
    using demo_root_of demo_kernel_root by simp_all
  have two: "(\<forall>i<2. P i) \<longleftrightarrow> P 0 \<and> P (Suc 0)" for P :: "nat \<Rightarrow> bool"
    by (auto simp: numeral_2_eq_2 less_Suc_eq)
  have lay: "lay_base demo_layout = 0x8080606000" "lay_n demo_layout = 2"
      "lay_given demo_layout 0 = 0x8080604000" "lay_given demo_layout (Suc 0) = 0x8080605000"
      "lay_frame demo_layout 0 = 0x5000" "lay_frame demo_layout (Suc 0) = 0x6000"
      "lay_page demo_layout 0 = 0x8080606000" "lay_page demo_layout (Suc 0) = 0x8080607000"
    by (simp_all add: demo_layout_def lay_page_def)
  have tb: "table_base 0x5067 = 0x5000" "table_base 0x6067 = 0x6000" "bit (0x5067::u64) 0" "bit (0x6067::u64) 0"
    by (simp_all add: table_base_def field_def)
  show ?thesis
    unfolding layout_ok_def Let_def r lay two
    using region_walk(1) [of _ es]
    by (simp add: region_walk region_pte_slots maps_page_def region_loads tb)
qed

lemma region_empty: "filled demo_layout letter 0 (phys (region_state es)) (root_of demo_os demo_lib 0 (region_state es))"
proof -
  have "\<not> bit (load64 region_mem (pte_slot region_mem demo_root (lay_page demo_layout i))) 0" if "i < 2" for i
    using that region_pte_slots region_loads by (auto simp: numeral_2_eq_2 less_Suc_eq lay_page_def demo_layout_def)
  then show ?thesis using demo_root_of by (simp add: filled_def demo_layout_def)
qed

definition region_env :: "nat \<Rightarrow> fault_env" where
  "region_env i = demo_fault_env\<lparr>ev_malloc := 0x8080604000 + of_nat (4096 * i)\<rparr>"

lemma region_upt: "[0..<2] = [0, 1::nat]"
  by (simp add: upt_conv_Cons numeral_2_eq_2)

lemma region_answers: "answers_ok region_env id"
  by (simp add: answers_ok_def region_env_def demo_fault_env_def)


definition demo_uffd_env :: uffd_env where
  "demo_uffd_env = \<lparr>ue_page_size = 4096, ue_userfaultfd = 8, ue_api = 0, ue_mmap = 0x8080606000, ue_register = 0,
     ue_pthread = 0, ue_memalign = (\<lambda>i. (0, 0x8080604000 + of_nat (4096 * i)))\<rparr>"

definition demo_udemo :: udemo where
  "demo_udemo = \<lparr>ud_fault_cnt = 0, ud_bufpool = [], ud_lib = demo_lib,
     ud_k = demo_kstate\<lparr>phys := region_mem, umem_entry := True\<rparr>\<rparr>"

lemma demo_handler_init:
  "\<exists>es. handler_init demo_os (ue_memalign demo_uffd_env) demo_udemo
     = Inr (demo_udemo\<lparr>ud_bufpool := map (\<lambda>i. 0x8080604000 + of_nat (4096 * i)) [0..<1024], ud_k := region_state es\<rparr>)"
proof -
  let ?s = "demo_kstate\<lparr>phys := region_mem, umem_entry := True\<rparr>"
  have init: "ptedit_init demo_os demo_lib ?s = (0, demo_lib_kernel, region_state [])"
    by (simp add: ptedit_init_def open_device_def device_open_def open_umem_file_def demo_os_def demo_kstate_def
        demo_lib_def demo_lib_kernel_def demo_open_def ptedit_use_implementation_def init_paging_definition_def Let_def)
  have demo_fd: "ptedit_fd demo_lib = 5" by (simp add: demo_lib_def)
  have "\<exists>es. ptedit_get_paging_root demo_os L 0 (region_state []) = (demo_root, region_state es)" if "ptedit_fd L = 5" for L
    using that demo_kernel_root
    by (auto simp: get_paging_root_eq dev_open_def demo_os_def int_to_size_def kernel_root_def split: option.splits)
  then obtain es where es: "ptedit_get_paging_root demo_os demo_lib 0 (region_state []) = (demo_root, region_state es)"
    using demo_fd by blast
  have use: "ptedit_use_implementation demo_os demo_lib_kernel PTEDIT_IMPL_USER (region_state []) = (demo_lib, region_state es)"
    using es by (simp add: ptedit_use_implementation_def demo_lib_kernel_def demo_lib_def PTEDIT_IMPL_KERNEL_def
        PTEDIT_IMPL_USER_PREAD_def PTEDIT_IMPL_USER_def Let_def)
  have "alloc_bufpool (ue_memalign demo_uffd_env) 0 BUFPOOLSIZE
      = Inr (map (\<lambda>i. 0x8080604000 + of_nat (4096 * i)) [0..<1024])"
    by (simp add: alloc_bufpool_eq demo_uffd_env_def BUFPOOLSIZE_def)
  with init use have "handler_init demo_os (ue_memalign demo_uffd_env) demo_udemo
     = Inr (demo_udemo\<lparr>ud_bufpool := map (\<lambda>i. 0x8080604000 + of_nat (4096 * i)) [0..<1024], ud_k := region_state es\<rparr>)"
    by (simp add: handler_init_def demo_udemo_def)
  then show ?thesis ..
qed


end
