(* ===== verification/Pt_Demos.thy ===== *)
theory Pt_Demos
  imports Touch_Region
begin

text \<open>
  The demos of PTEditor that change entries of their own process or of a child:
  \<open>PTEditor/demos/map_pt.c\<close> and \<open>map_pt_manual.c\<close>, which map the page table of a page and edit it there,
  and \<open>nx.c\<close>, which makes a function executable for a child.

  As in \<open>Demos\<close>, the definitions leave out \<open>ptedit_init\<close>, which \<open>Programs\<close> adds: what the first two programs do
  before it is a definition of its own (\<open>map_pt_fill\<close>, \<open>map_pt_manual_fill\<close>). \<open>None\<close> is a fault. Memory has no cache and no TLB here: translation is what the tables say.
\<close>

subsection \<open>Words of memory\<close>

text \<open>An aligned access of eight bytes, which lies in one page.\<close>

definition user_load64 :: "os \<Rightarrow> u64 \<Rightarrow> kstate \<Rightarrow> u64 option" where
  "user_load64 W va s = map_option (load64 (phys s)) (translate (phys s) (kernel_root W 0 s) va)"

definition user_store64 :: "os \<Rightarrow> u64 \<Rightarrow> u64 \<Rightarrow> kstate \<Rightarrow> kstate option" where
  "user_store64 W va v s =
     map_option (\<lambda>pa. s\<lparr>phys := store64 (phys s) pa v\<rparr>) (translate (phys s) (kernel_root W 0 s) va)"

text \<open>Physical memory behind \<open>ptedit_pmap(physical, len)\<close>, \<open>off\<close> bytes from its start.\<close>

definition pmap_ok :: "os \<Rightarrow> lib \<Rightarrow> u64 \<Rightarrow> u64 \<Rightarrow> bool" where
  "pmap_ok W L physical len \<longleftrightarrow>
     (let ps = int_to_size (ptedit_pagesize L)
      in mmap_umem W L (len + physical mod ps) ((physical div ps) * ps) \<noteq> MAP_FAILED)"

definition pt_entry_index :: "u64 \<Rightarrow> u64" where
  "pt_entry_index target = drop_bit 12 target AND 0x1ff"

subsection \<open>\<open>map_pt.c\<close>\<close>

text \<open>\<open>touch_t\<close> and \<open>touch_s\<close> are what the kernel does when the two pages are first written. The result has
  the outcomes of the two comparisons.\<close>

definition map_pt_fill :: "os \<Rightarrow> u64 \<Rightarrow> u64 \<Rightarrow> (mem \<Rightarrow> mem) \<Rightarrow> (mem \<Rightarrow> mem) \<Rightarrow> kstate \<Rightarrow> kstate option" where
  "map_pt_fill W target secret touch_t touch_s s =
     do {
       s1 \<leftarrow> user_memset W target 66 4096 (s\<lparr>phys := touch_t (phys s)\<rparr>);
       user_memset W secret 83 4096 (s1\<lparr>phys := touch_s (phys s1)\<rparr>)
     }"

definition map_pt_edit :: "os \<Rightarrow> lib \<Rightarrow> u64 \<Rightarrow> u64 \<Rightarrow> kstate \<Rightarrow> (bool list \<times> kstate) option" where
  "map_pt_edit W L target secret s2 =
     do {
       (secret_entry, s3) \<leftarrow> ptedit_resolve W L secret 0 s2;
       (target_entry, s4) \<leftarrow> ptedit_resolve W L target 0 s3;
       let pt_pfn = table_pfn (os_arch W) (e_pmd target_entry);
       let pagesize = word_of_int (ptedit_get_pagesize W L s4);
       let mapped_entry = pt_pfn * pagesize + 8 * pt_entry_index target;
       if \<not> pmap_ok W L (pt_pfn * pagesize) pagesize then None
       else do {
         let worked = (load64 (phys s4) mapped_entry = e_pte target_entry);
         let v = ptedit_set_pfn (os_arch W) (load64 (phys s4) mapped_entry)
                   (ptedit_get_pfn (os_arch W) (e_pte secret_entry));
         let s5 = s4\<lparr>phys := store64 (phys s4) mapped_entry v\<rparr>;
         let s6 = ptedit_invalidate_tlb W L target s5;
         c \<leftarrow> user_load W target s6;
         let s7 = s6\<lparr>phys := store64 (phys s6) mapped_entry (e_pte target_entry)\<rparr>;
         Some ([worked, c = 83], ptedit_cleanup W L s7)
       }
     }"

subsection \<open>\<open>map_pt_manual.c\<close>\<close>

definition map_pt_manual_fill ::
  "os \<Rightarrow> u64 \<Rightarrow> u64 \<Rightarrow> u64 \<Rightarrow> (mem \<Rightarrow> mem) \<Rightarrow> (mem \<Rightarrow> mem) \<Rightarrow> (mem \<Rightarrow> mem) \<Rightarrow> kstate \<Rightarrow> kstate option" where
  "map_pt_manual_fill W pt target secret touch_p touch_t touch_s s =
     do {
       s0 \<leftarrow> user_memset W pt 65 4096 (s\<lparr>phys := touch_p (phys s)\<rparr>);
       s1 \<leftarrow> user_memset W target 66 4096 (s0\<lparr>phys := touch_t (phys s0)\<rparr>);
       user_memset W secret 83 4096 (s1\<lparr>phys := touch_s (phys s1)\<rparr>)
     }"

definition map_pt_manual_edit :: "os \<Rightarrow> lib \<Rightarrow> u64 \<Rightarrow> u64 \<Rightarrow> u64 \<Rightarrow> kstate \<Rightarrow> (bool list \<times> kstate) option" where
  "map_pt_manual_edit W L pt target secret s2 =
     do {
       (secret_entry, s3) \<leftarrow> ptedit_resolve W L secret 0 s2;
       (target_entry, s4) \<leftarrow> ptedit_resolve W L target 0 s3;
       (pt_entry, s5) \<leftarrow> ptedit_resolve W L pt 0 s4;
       let old_pte = e_pte pt_entry;
       (pt_entry1, s6) \<leftarrow> ptedit_update W L pt 0
         (pt_entry\<lparr>e_pte := ptedit_set_pfn (os_arch W) (e_pte pt_entry) (ptedit_get_pfn (os_arch W) (e_pmd target_entry)),
                   e_valid := PTEDIT_VALID_MASK_PTE\<rparr>) s5;
       let mapped_entry = pt + 8 * pt_entry_index target;
       w \<leftarrow> user_load64 W mapped_entry s6;
       let worked = (w = e_pte target_entry);
       s7 \<leftarrow> user_store64 W mapped_entry
         (ptedit_set_pfn (os_arch W) w (ptedit_get_pfn (os_arch W) (e_pte secret_entry))) s6;
       let s8 = ptedit_invalidate_tlb W L target s7;
       c \<leftarrow> user_load W target s8;
       s9 \<leftarrow> user_store64 W mapped_entry (e_pte target_entry) s8;
       (_, s10) \<leftarrow> ptedit_update W L pt 0 (pt_entry1\<lparr>e_pte := old_pte, e_valid := PTEDIT_VALID_MASK_PTE\<rparr>) s9;
       Some ([worked, c = 83], ptedit_cleanup W L s10)
     }"

subsection \<open>\<open>nx.c\<close>\<close>

text \<open>The page after the one the function starts in.\<close>

definition nx_function_aligned :: "u64 \<Rightarrow> u64" where
  "nx_function_aligned nx_function = (nx_function + 4096) AND NOT 0xfff"

definition NX_BIT :: "arch \<Rightarrow> nat" where
  "NX_BIT A = (case A of X86_64 \<Rightarrow> bit_pos PTEDIT_PAGE_BIT_NX | AARCH64 \<Rightarrow> arm_bit_pos ARM_PAGE_BIT_XN)"

text \<open>The parent, with the child's process id: whether the child's entry has the bit before and after it is
  cleared, and whether its own entry has it.\<close>

definition nx_parent :: "os \<Rightarrow> lib \<Rightarrow> u64 \<Rightarrow> u32 \<Rightarrow> kstate \<Rightarrow> (bool \<times> bool \<times> bool \<times> kstate) option" where
  "nx_parent W L nx_function pid s =
     do {
       let a = nx_function_aligned nx_function;
       let b = NX_BIT (os_arch W);
       (before, s1) \<leftarrow> ptedit_pte_get_bit W L a pid b s;
       s2 \<leftarrow> ptedit_pte_clear_bit W L a pid b s1;
       (after, s3) \<leftarrow> ptedit_pte_get_bit W L a pid b s2;
       (own, s4) \<leftarrow> ptedit_pte_get_bit W L a 0 b s3;
       Some (before \<noteq> 0, after \<noteq> 0, own \<noteq> 0, ptedit_cleanup W L s4)
     }"

subsection \<open>The page table of a page, mapped\<close>

lemma pt_entry_slot: "table_base (load64 m (pmd_slot m root a)) + 8 * pt_entry_index a = pte_slot m root a"
proof -
  have "drop_bit 12 a AND 0x1ff = field 12 9 a"
  proof -
    have "(0x1ff :: u64) = mask 9" by (simp add: mask_eq_exp_minus_1)
    then show ?thesis by (simp add: field_def take_bit_eq_mask)
  qed
  then show ?thesis by (simp add: pte_slot_def slot_def pt_entry_index_def)
qed

lemma kernel_resolve_walk:
  assumes "kernel_ready W L a 0 s" "reaches_pte (phys s) (kernel_root W 0 s) a"
  shows "\<exists>e es. ptedit_resolve W L a 0 s = Some (e, log_events es s)
    \<and> e_pmd e = load64 (phys s) (pmd_slot (phys s) (kernel_root W 0 s) a)
    \<and> e_pte e = load64 (phys s) (pte_slot (phys s) (kernel_root W 0 s) a)"
  using kernel_resolve [OF assms(1)] assms(2)
  by (auto simp: resolved_entry_def Let_def walk_valid_bits empty_entry_def reaches_pte_def)

text \<open>The steps of the two programs on a page that is mapped: filling it, resolving it, writing its entry.\<close>

lemma fill_page:
  assumes "maps_page M (kernel_root W 0 s) a f" "frame_apart f M (kernel_root W 0 s) a"
  shows "user_memset W a c 4096 (s\<lparr>phys := M\<rparr>) = Some (s\<lparr>phys := write_bytes M f (replicate 4096 c)\<rparr>)"
  using user_memset_page [of "s\<lparr>phys := M\<rparr>" W a f c] assms by simp

lemma resolve_page:
  assumes "kernel_ready W L a 0 (s\<lparr>phys := m\<rparr>)" "maps_page m (kernel_root W 0 s) a f"
  shows "\<exists>e es'. ptedit_resolve W L a 0 (log_events es (s\<lparr>phys := m\<rparr>)) = Some (e, log_events es' (s\<lparr>phys := m\<rparr>))
    \<and> e_pmd e = load64 m (pmd_slot m (kernel_root W 0 s) a) \<and> e_pte e = load64 m (pte_slot m (kernel_root W 0 s) a)"
  using kernel_resolve_walk [of W L a "log_events es (s\<lparr>phys := m\<rparr>)"] assms
  by (auto simp: kernel_ready_def maps_page_def)

lemma update_page:
  assumes "kernel_ready W L a 0 (s\<lparr>phys := m\<rparr>)" "reaches_pte m (kernel_root W 0 s) a" "e_valid u = PTEDIT_VALID_MASK_PTE"
  shows "\<exists>vm es'. ptedit_update W L a 0 u (log_events es (s\<lparr>phys := m\<rparr>))
    = Some (vm, log_events es' (s\<lparr>phys := store64 m (pte_slot m (kernel_root W 0 s) a) (e_pte u)\<rparr>))"
  using kernel_update [of W L a 0 "log_events es (s\<lparr>phys := m\<rparr>)" u] assms by (auto simp: kernel_ready_def)

lemma filled_page: "read_bytes (write_bytes M f (replicate 4096 c)) f 4096 = replicate 4096 c"
  using read_write_bytes_same [of "replicate 4096 c" M f] by simp

text \<open>Pointing the entry of a page to the frame of another page, in memory.\<close>

lemma redirect_page:
  fixes m :: mem and r a :: u64
  defines "v p \<equiv> ptedit_set_pfn X86_64 (load64 m (pte_slot m r a)) p"
  assumes "maps_page m r a fa" "maps_page m r b fb" "pte_separate m r a" "frame_apart fb m r a"
    and "read_bytes m fb 4096 = replicate 4096 c"
  shows "let m' = store64 m (pte_slot m r a) (v (ptedit_get_pfn X86_64 (load64 m (pte_slot m r b))))
    in maps_page m' r a fb \<and> m' fb = c \<and> pte_slot m' r a = pte_slot m r a"
proof -
  let ?p = "ptedit_get_pfn X86_64 (load64 m (pte_slot m r b))"
  have p: "push_bit 12 ?p = fb" "unat ?p < 2 ^ 40" using pfn_frame assms(3) by (simp_all add: maps_page_def)
  have e: "bit (load64 m (pte_slot m r a)) 0" using assms(2) by (simp add: maps_page_def)
  note f = set_pfn_frame [OF p(2) e, unfolded p(1)]
  note st = maps_page_store [OF assms(2,4) f(2), unfolded f(1)]
  have "apart (pte_slot m r a) 8 fb 4096"
    using assms(5) apart_sym by (auto simp: frame_apart_def walk_slots_def)
  then have "read_bytes (store64 m (pte_slot m r a) (v ?p)) fb 4096 = replicate 4096 c"
    using assms(6) by (simp add: read_bytes_store64_apart)
  then have "store64 m (pte_slot m r a) (v ?p) fb = c" using first_byte [of 4096] by simp
  then show ?thesis using st(1,2) by (simp add: v_def Let_def)
qed

text \<open>Both programs resolve \<open>secret\<close> and then \<open>target\<close>.\<close>

lemma resolve_secret_target:
  fixes W :: os and s :: kstate
  defines "r \<equiv> kernel_root W 0 s" and "S \<equiv> (\<lambda>es m. log_events es (s\<lparr>phys := m\<rparr>))"
  assumes "kernel_ready W L secret 0 (s\<lparr>phys := m\<rparr>)" "kernel_ready W L target 0 (s\<lparr>phys := m\<rparr>)"
    "maps_page m r secret fs" "maps_page m r target ft"
  shows "\<exists>es e3 et e4. ptedit_resolve W L secret 0 (s\<lparr>phys := m\<rparr>) = Some (es, S e3 m)
    \<and> e_pte es = load64 m (pte_slot m r secret) \<and> ptedit_resolve W L target 0 (S e3 m) = Some (et, S e4 m)
    \<and> e_pmd et = load64 m (pmd_slot m r target) \<and> e_pte et = load64 m (pte_slot m r target)"
proof -
  note res = resolve_page [where W = W and L = L and s = s and m = m, folded r_def]
  obtain es e3 where "ptedit_resolve W L secret 0 (s\<lparr>phys := m\<rparr>) = Some (es, S e3 m)"
      "e_pte es = load64 m (pte_slot m r secret)"
    using res [OF assms(3,5), of "[]"] by (auto simp: S_def)
  moreover obtain et e4 where "ptedit_resolve W L target 0 (S e3 m) = Some (et, S e4 m)"
      "e_pmd et = load64 m (pmd_slot m r target)" "e_pte et = load64 m (pte_slot m r target)"
    using res [OF assms(4,6), of e3] by (auto simp: S_def)
  ultimately show ?thesis by blast
qed

text \<open>The two pages of \<open>map_pt.c\<close>, after the kernel has mapped them and they are filled: \<open>M\<close> is memory after the
  first access to \<open>secret\<close>.\<close>

definition map_pt_ready ::
  "os \<Rightarrow> lib \<Rightarrow> u64 \<Rightarrow> u64 \<Rightarrow> u64 \<Rightarrow> u64 \<Rightarrow> (mem \<Rightarrow> mem) \<Rightarrow> (mem \<Rightarrow> mem) \<Rightarrow> kstate \<Rightarrow> bool" where
  "map_pt_ready W L target secret ft fs touch_t touch_s s \<longleftrightarrow>
     (let r = kernel_root W 0 s; M1 = touch_t (phys s); M = touch_s (write_bytes M1 ft (replicate 4096 66))
      in os_arch W = X86_64
       \<and> maps_page M1 r target ft \<and> frame_apart ft M1 r target
       \<and> kernel_ready W L target 0 (s\<lparr>phys := M\<rparr>) \<and> kernel_ready W L secret 0 (s\<lparr>phys := M\<rparr>)
       \<and> maps_page M r target ft \<and> maps_page M r secret fs
       \<and> frame_apart fs M r target \<and> frame_apart fs M r secret
       \<and> pte_separate M r target \<and> narrow (load64 M (pmd_slot M r target))
       \<and> pmap_ok W L (table_base (load64 M (pmd_slot M r target))) 4096)"

lemma get_pagesize_ready: "kernel_ready W L a pid s \<Longrightarrow> ptedit_get_pagesize W L s = 4096"
  by (simp add: ptedit_get_pagesize_def kernel_ready_def lib_ioctl_open dev_open_def real_page_size_def lib_ioctl_def)

text \<open>
  \<open>map_pt.c\<close> edits its own page table through a mapping of physical memory: the word it finds there is
  the entry of \<open>target\<close>; with the frame number of \<open>secret\<close> in it \<open>target\<close> shows the content of \<open>secret\<close>; and
  in the end memory is exactly what it was before.\<close>

lemma map_pt_succeeds:
  assumes "map_pt_ready W L target secret ft fs touch_t touch_s s"
  shows "\<exists>s'. do { s2 \<leftarrow> map_pt_fill W target secret touch_t touch_s s; map_pt_edit W L target secret s2 } = Some ([True, True], s')
    \<and> phys s' = write_bytes (touch_s (write_bytes (touch_t (phys s)) ft (replicate 4096 66))) fs (replicate 4096 83)"
proof -
  define r where "r = kernel_root W 0 s"
  define M1 where "M1 = touch_t (phys s)"
  define M where "M = touch_s (write_bytes M1 ft (replicate 4096 66))"
  define m where "m = write_bytes M fs (replicate 4096 83)"
  note rd = assms [unfolded map_pt_ready_def Let_def, folded r_def, folded M1_def, folded M_def]
  have arch: "os_arch W = X86_64" and t1: "maps_page M1 r target ft" "frame_apart ft M1 r target"
    and k: "kernel_ready W L target 0 (s\<lparr>phys := M\<rparr>)" "kernel_ready W L secret 0 (s\<lparr>phys := M\<rparr>)"
    and pg: "maps_page M r target ft" "maps_page M r secret fs" "frame_apart fs M r target" "frame_apart fs M r secret"
      "pte_separate M r target" "narrow (load64 M (pmd_slot M r target))"
      "pmap_ok W L (table_base (load64 M (pmd_slot M r target))) 4096"
    using rd by blast+
  have len: "length (replicate 4096 (83::u8)) \<le> 4096" by simp
  note wt = walk_write_bytes [OF pg(3) len, folded m_def] and wtp = walk_write_bytes_preds [OF pg(3) len, folded m_def]
  have pm: "maps_page m r target ft" "maps_page m r secret fs" "pte_separate m r target" "frame_apart fs m r target"
    using maps_page_write [OF pg(3) len] maps_page_write [OF pg(4) len] pg wtp(5) by (simp_all add: m_def)
  have nar: "narrow (load64 m (pmd_slot m r target))" "pmap_ok W L (table_base (load64 m (pmd_slot m r target))) 4096"
    using pg(6,7) wt by simp_all
  note s1 = fill_page [OF t1 [unfolded r_def], of 66] and s2 = fill_page [OF pg(2,4) [unfolded r_def], of 83, folded m_def]
  have k2: "kernel_ready W L secret 0 (s\<lparr>phys := m\<rparr>)" "kernel_ready W L target 0 (s\<lparr>phys := m\<rparr>)"
    using kernel_ready_write [OF k(2), of fs "replicate 4096 83"] kernel_ready_write [OF k(1), of fs "replicate 4096 83"] pg(3,4)
    by (simp_all add: m_def r_def)
  obtain es e3 et e4 where e34: "ptedit_resolve W L secret 0 (s\<lparr>phys := m\<rparr>) = Some (es, log_events e3 (s\<lparr>phys := m\<rparr>))"
      "e_pte es = load64 m (pte_slot m r secret)"
      "ptedit_resolve W L target 0 (log_events e3 (s\<lparr>phys := m\<rparr>)) = Some (et, log_events e4 (s\<lparr>phys := m\<rparr>))"
      "e_pmd et = load64 m (pmd_slot m r target)" "e_pte et = load64 m (pte_slot m r target)"
    using resolve_secret_target [OF k2 pm(2,1) [unfolded r_def], folded r_def] by blast
  let ?s4 = "log_events e4 (s\<lparr>phys := m\<rparr>)" and ?p = "pte_slot m r target"
  have ps: "ptedit_get_pagesize W L ?s4 = 4096"
    by (rule get_pagesize_ready [of W L target 0]) (use k2(2) in \<open>simp add: kernel_ready_def\<close>)
  have slot: "table_pfn X86_64 (load64 m (pmd_slot m r target)) * 4096 + 8 * pt_entry_index target = ?p"
    using pt_entry_slot [of m r target] table_pfn_base [OF nar(1)] by simp
  have pm_ok: "pmap_ok W L (table_pfn X86_64 (load64 m (pmd_slot m r target)) * 4096) 4096"
    using nar(2) table_pfn_base [OF nar(1)] by simp
  define v where "v = ptedit_set_pfn X86_64 (load64 m ?p) (ptedit_get_pfn X86_64 (load64 m (pte_slot m r secret)))"
  from redirect_page [OF pm(1-4) filled_page [of M fs 83, folded m_def]] have rp: "maps_page (store64 m ?p v) r target fs" "store64 m ?p v fs = 83"
    by (simp_all add: v_def Let_def)
  obtain e6 where e6: "ptedit_invalidate_tlb W L target (?s4\<lparr>phys := store64 m ?p v\<rparr>) = log_events e6 (s\<lparr>phys := store64 m ?p v\<rparr>)"
    by (auto simp: invalidate_tlb_eq)
  have c: "user_load W target (log_events e6 (s\<lparr>phys := store64 m ?p v\<rparr>)) = Some 83"
    using maps_page_translate [OF rp(1)] rp(2) by (simp add: user_load_def r_def)
  show ?thesis
    using s1 s2 e34 c pm_ok e6
    by (simp add: map_pt_fill_def map_pt_edit_def M1_def [symmetric] M_def [symmetric] m_def [symmetric] arch ps slot v_def [symmetric]
        store64_twice store64_load64 Let_def)
qed

text \<open>The three pages of \<open>map_pt_manual.c\<close>: each can be filled when it has been touched, and with the memory \<open>m\<close>
  after that the entries of \<open>pt\<close> and \<open>target\<close> are in none of each other's walks.\<close>

definition manual_ready ::
  "os \<Rightarrow> lib \<Rightarrow> u64 \<Rightarrow> u64 \<Rightarrow> u64 \<Rightarrow> u64 \<Rightarrow> u64 \<Rightarrow> u64 \<Rightarrow> mem \<Rightarrow> mem \<Rightarrow> mem \<Rightarrow> kstate \<Rightarrow> bool" where
  "manual_ready W L pt target secret fp ft fs M0 M1 M2 s \<longleftrightarrow>
     (let r = kernel_root W 0 s; m = write_bytes M2 fs (replicate 4096 83)
      in os_arch W = X86_64
       \<and> maps_page M0 r pt fp \<and> frame_apart fp M0 r pt
       \<and> maps_page M1 r target ft \<and> frame_apart ft M1 r target
       \<and> maps_page M2 r secret fs \<and> frame_apart fs M2 r secret
       \<and> (\<forall>a\<in>{pt, target, secret}. kernel_ready W L a 0 (s\<lparr>phys := m\<rparr>) \<and> frame_apart fs m r a)
       \<and> maps_page m r pt fp \<and> maps_page m r target ft \<and> maps_page m r secret fs
       \<and> pte_separate m r pt \<and> pte_separate m r target
       \<and> slot_apart (pte_slot m r pt) m r target \<and> slot_apart (pte_slot m r target) m r pt)"

lemma slot_apart_agree:
  assumes "slot_apart q m r a"
  shows "upper_agree m (store64 m q v) r a" "load64 (store64 m q v) (pte_slot m r a) = load64 m (pte_slot m r a)"
  using assms by (simp_all add: slot_apart_def upper_agree_def walk_slots_def load64_store64_apart)

lemma pt_in_page: "unat (8 * pt_entry_index a) < 4096"
proof -
  have "pt_entry_index a = field 12 9 a"
    using pt_entry_slot [of "\<lambda>_. 0" 0 a] by (simp add: pt_entry_index_def field_def take_bit_eq_mask mask_eq_exp_minus_1)
  then show ?thesis using index_bound [of 12 a] by simp
qed

lemma translate_page_offset:
  assumes "maps_page m r a f" "unat k < 4096"
  shows "translate m r (a + k) = Some (f + k)"
  using translate_in_page [of a "unat k" m r] assms by (simp add: maps_page_def)

text \<open>Memory while the page table of \<open>target\<close> is mapped at \<open>pt\<close>: \<open>m6\<close>, and \<open>m7\<close> with the entry of \<open>target\<close> changed.\<close>

lemma manual_memory:
  fixes m :: mem and r pt target secret fs ft fp :: u64
  defines "q \<equiv> pte_slot m r pt" and "p \<equiv> pte_slot m r target" and "e1 \<equiv> load64 m (pmd_slot m r target)"
  defines "m6 \<equiv> store64 m q (ptedit_set_pfn X86_64 (load64 m q) (ptedit_get_pfn X86_64 e1))"
    and "v \<equiv> ptedit_set_pfn X86_64 (load64 m p) (ptedit_get_pfn X86_64 (load64 m (pte_slot m r secret)))"
  assumes pg: "maps_page m r pt fp" "maps_page m r target ft" "maps_page m r secret fs"
    and sep: "pte_separate m r pt" "pte_separate m r target"
    and sl: "slot_apart q m r target" "slot_apart p m r pt"
    and fr: "frame_apart fs m r target" "frame_apart fs m r pt" "read_bytes m fs 4096 = replicate 4096 83"
  shows "translate m6 r (pt + 8 * pt_entry_index target) = Some p" "load64 m6 p = load64 m p"
    "translate (store64 m6 p v) r (pt + 8 * pt_entry_index target) = Some p"
    "translate (store64 m6 p v) r target = Some fs" "store64 m6 p v fs = 83"
    "store64 m6 p (load64 m p) = m6" "pte_slot m6 r pt = q" "store64 m6 q (load64 m q) = m"
    "reaches_pte m6 r pt"
proof -
  have e: "bit (load64 m q) 0" using pg(1) by (simp add: maps_page_def q_def)
  note f6 = set_pfn_frame [OF pfn_frame(2) e, of e1, unfolded pfn_frame(1)]
  note st6 = maps_page_store [OF pg(1) sep(1) f6(2)[unfolded q_def], folded q_def, unfolded f6(1), folded m6_def]
  have slot: "table_base e1 + 8 * pt_entry_index target = p" using pt_entry_slot by (simp add: e1_def p_def)
  show "translate m6 r (pt + 8 * pt_entry_index target) = Some p"
    using translate_page_offset [OF st6(1) pt_in_page, of target] slot by simp
  have ag: "upper_agree m m6 r target" using slot_apart_agree [OF sl(1)] by (simp add: m6_def)
  show lp: "load64 m6 p = load64 m p"
    using slot_apart_agree [OF sl(1)] by (simp_all add: m6_def p_def)
  show "reaches_pte m6 r pt" "pte_slot m6 r pt = q" using st6(1,2) by (simp_all add: maps_page_def)
  show "store64 m6 p (load64 m p) = m6" "store64 m6 q (load64 m q) = m"
    using store64_load64 [of m6 p] store64_load64 [of m q] lp by (simp_all add: m6_def store64_twice)
  have s6: "slot_apart p m6 r pt"
    using sl(2) st6(2) write_pte(4) [OF sep(1)] by (simp add: slot_apart_def walk_slots_def m6_def q_def)
  then have "maps_page (store64 m6 p v) r pt (table_base e1)"
    using maps_page_agree [OF slot_apart_agree] st6(1) by blast
  then show "translate (store64 m6 p v) r (pt + 8 * pt_entry_index target) = Some p"
    using translate_page_offset [OF _ pt_in_page] slot by metis
  have e': "bit (load64 m p) 0" using pg(2) by (simp add: maps_page_def p_def)
  have v: "bit v 0" "table_base v = fs"
    using set_pfn_frame [OF pfn_frame(2) e', of "load64 m (pte_slot m r secret)"] pfn_frame(1) pg(3)
    by (simp_all add: v_def maps_page_def)
  have "maps_page m6 r target ft" "pte_separate m6 r target" "pte_slot m6 r target = p"
    using pg(2) maps_page_agree [OF ag] lp upper_agree_preds(5) [OF ag] upper_agree_walk(3) [OF ag] sep(2)
    by (simp_all add: p_def)
  then show "translate (store64 m6 p v) r target = Some fs"
    using maps_page_translate maps_page_store(1) [of m6 r target ft v] v by metis
  have "apart q 8 fs 4096" "apart p 8 fs 4096"
    using fr(1,2) apart_sym by (auto simp: frame_apart_def walk_slots_def q_def p_def)
  then have "read_bytes (store64 m6 p v) fs 4096 = replicate 4096 83"
    using fr(3) by (simp add: m6_def read_bytes_store64_apart)
  then show "store64 m6 p v fs = 83" using first_byte [of 4096] by simp
qed

text \<open>
  \<open>map_pt_manual.c\<close> does the same with nothing but page-table entries: it points the entry of \<open>pt\<close> to the
  page table of \<open>target\<close>, so that the stores to \<open>pt\<close> are stores into the page table. Both comparisons
  hold, and in the end both entries and all of memory are what they were.\<close>

lemma map_pt_manual_succeeds:
  assumes "M0 = touch_p (phys s)" "M1 = touch_t (write_bytes M0 fp (replicate 4096 65))"
    "M2 = touch_s (write_bytes M1 ft (replicate 4096 66))"
    and "manual_ready W L pt target secret fp ft fs M0 M1 M2 s"
  shows "\<exists>s'. do { s2 \<leftarrow> map_pt_manual_fill W pt target secret touch_p touch_t touch_s s;
      map_pt_manual_edit W L pt target secret s2 } = Some ([True, True], s')
    \<and> phys s' = write_bytes M2 fs (replicate 4096 83)"
proof -
  define r where "r = kernel_root W 0 s"
  define m where "m = write_bytes M2 fs (replicate 4096 83)"
  note rd = assms(4) [unfolded manual_ready_def Let_def, folded r_def, folded m_def]
  have arch: "os_arch W = X86_64"
    and fill: "maps_page M0 r pt fp" "frame_apart fp M0 r pt" "maps_page M1 r target ft" "frame_apart ft M1 r target"
      "maps_page M2 r secret fs" "frame_apart fs M2 r secret"
    and k: "kernel_ready W L pt 0 (s\<lparr>phys := m\<rparr>)" "kernel_ready W L target 0 (s\<lparr>phys := m\<rparr>)"
      "kernel_ready W L secret 0 (s\<lparr>phys := m\<rparr>)"
    and fr: "frame_apart fs m r target" "frame_apart fs m r pt"
    and pg: "maps_page m r pt fp" "maps_page m r target ft" "maps_page m r secret fs"
    and sep: "pte_separate m r pt" "pte_separate m r target"
    and sl: "slot_apart (pte_slot m r pt) m r target" "slot_apart (pte_slot m r target) m r pt"
    using rd by blast+
  note set = fill_page [of _ W s, folded r_def] and res = resolve_page [where W = W and L = L and s = s and m = m, folded r_def]
  obtain es e3 et e4 where e34: "ptedit_resolve W L secret 0 (s\<lparr>phys := m\<rparr>) = Some (es, log_events e3 (s\<lparr>phys := m\<rparr>))"
      "e_pte es = load64 m (pte_slot m r secret)"
      "ptedit_resolve W L target 0 (log_events e3 (s\<lparr>phys := m\<rparr>)) = Some (et, log_events e4 (s\<lparr>phys := m\<rparr>))"
      "e_pmd et = load64 m (pmd_slot m r target)" "e_pte et = load64 m (pte_slot m r target)"
    using resolve_secret_target [OF k(3,2) pg(3,2) [unfolded r_def], folded r_def] by blast
  obtain ep e5 where e5: "ptedit_resolve W L pt 0 (log_events e4 (s\<lparr>phys := m\<rparr>)) = Some (ep, log_events e5 (s\<lparr>phys := m\<rparr>))"
      "e_pte ep = load64 m (pte_slot m r pt)"
    using res [OF k(1) pg(1), of e4] by auto
  define q where "q = pte_slot m r pt"
  define p where "p = pte_slot m r target"
  define m6 where "m6 = store64 m q (ptedit_set_pfn X86_64 (load64 m q) (ptedit_get_pfn X86_64 (load64 m (pmd_slot m r target))))"
  define v where "v = ptedit_set_pfn X86_64 (load64 m p) (ptedit_get_pfn X86_64 (load64 m (pte_slot m r secret)))"
  note mem = manual_memory [OF pg sep sl fr filled_page [of M2 fs 83, folded m_def], folded q_def p_def, folded m6_def v_def]
  note upd = update_page [where W = W and L = L and a = pt and s = s, folded r_def]
  have "reaches_pte m r pt" using pg(1) by (simp add: maps_page_def)
  from upd [OF k(1) this, of "ep\<lparr>e_pte := ptedit_set_pfn X86_64 (e_pte ep) (ptedit_get_pfn X86_64 (e_pmd et)), e_valid := PTEDIT_VALID_MASK_PTE\<rparr>" e5]
  obtain vm6 e6 where e6: "ptedit_update W L pt 0 (ep\<lparr>e_pte := ptedit_set_pfn X86_64 (e_pte ep) (ptedit_get_pfn X86_64 (e_pmd et)),
      e_valid := PTEDIT_VALID_MASK_PTE\<rparr>) (log_events e5 (s\<lparr>phys := m\<rparr>)) = Some (vm6, log_events e6 (s\<lparr>phys := m6\<rparr>))"
    by (auto simp: m6_def q_def e5(2) e34(4))
  have k6: "kernel_ready W L pt 0 (s\<lparr>phys := m6\<rparr>)"
    using kernel_ready_store [OF k(1)] sep(1) by (simp add: m6_def q_def r_def)
  obtain e8 where e8: "ptedit_invalidate_tlb W L target (log_events e6 (s\<lparr>phys := store64 m6 p v\<rparr>))
      = log_events e8 (s\<lparr>phys := store64 m6 p v\<rparr>)"
    by (auto simp: invalidate_tlb_eq)
  obtain vm10 e10 where e10: "ptedit_update W L pt 0 (vm6\<lparr>e_pte := load64 m q, e_valid := PTEDIT_VALID_MASK_PTE\<rparr>)
        (log_events e8 (s\<lparr>phys := m6\<rparr>)) = Some (vm10, log_events e10 (s\<lparr>phys := m\<rparr>))"
    using upd [OF k6 mem(9), of "vm6\<lparr>e_pte := load64 m q, e_valid := PTEDIT_VALID_MASK_PTE\<rparr>" e8] mem(7,8) by (auto simp: q_def)
  show ?thesis
    using set [OF fill(1,2), of 65] set [OF fill(3,4), of 66] set [OF fill(5,6), of 83] e34 e5 e6 e8 e10 mem(1-6)
    by (simp add: map_pt_manual_fill_def map_pt_manual_edit_def assms(1-3) [symmetric] m_def [symmetric] arch user_load64_def user_store64_def
        user_load_def r_def [symmetric] p_def [symmetric] q_def [symmetric] v_def [symmetric] store64_twice)
qed


subsection \<open>Three pages\<close>

text \<open>The concrete address space with three mapped pages; \<open>shows_pages m\<close> says that memory has its tables, whatever
  the frames hold.\<close>

definition shows_pages :: "mem \<Rightarrow> bool" where
  "shows_pages m \<longleftrightarrow> load64 m 0x1008 = 0x2067 \<and> load64 m 0x2010 = 0x3067 \<and> load64 m 0x3018 = 0x4067
     \<and> load64 m 0x4020 = 0x5067 \<and> load64 m 0x4028 = 0x6067 \<and> load64 m 0x4030 = 0x7067"

definition touch_third :: "mem \<Rightarrow> mem" where
  "touch_third m = store64 m 0x4030 0x7067"

lemma shows_touch: "shows_pages (touch_third region_mem)"
  by (simp add: shows_pages_def touch_third_def load64_store64_same load64_store64_apart apart_def region_loads)

lemma shows_write:
  assumes "shows_pages m" "f \<in> {0x5000, 0x6000, 0x7000}"
  shows "shows_pages (write_bytes m f (replicate 4096 c))"
  using assms by (auto simp: shows_pages_def load64_write_bytes_apart apart_def)

abbreviation "third_addrs \<equiv> {0x8080604000, 0x8080605000, 0x8080606000 :: u64}"

lemma shows_slots:
  assumes "shows_pages m" "a \<in> third_addrs"
  shows "pgd_slot demo_root a = 0x1008" "pud_slot m demo_root a = 0x2010" "pmd_slot m demo_root a = 0x3018"
    "pte_slot m demo_root a = 0x4020 + drop_bit 9 (a - 0x8080604000)"
  using assms
  by (auto simp: shows_pages_def pgd_slot_def pud_slot_def pmd_slot_def pte_slot_def slot_def demo_root_def
      field_def table_base_def)

lemma shows_walk:
  assumes "shows_pages m" "a \<in> third_addrs"
  shows "kernel_ready demo_os demo_lib_kernel a 0 (demo_open\<lparr>phys := m\<rparr>)"
    "maps_page m demo_root a (a - 0x8080604000 + 0x5000)" "pte_separate m demo_root a"
    "f \<in> {0x5000, 0x6000, 0x7000} \<Longrightarrow> frame_apart f m demo_root a"
    "b \<in> third_addrs \<Longrightarrow> b \<noteq> a \<Longrightarrow> slot_apart (pte_slot m demo_root b) m demo_root a"
    "load64 m (pmd_slot m demo_root a) = 0x4067"
proof -
  note sl = shows_slots [OF assms] and sp = assms(1) [unfolded shows_pages_def]
  have "regular_walk (linux_x86 3 9) m demo_root a"
    using demo_regular [of 3 9] unfolding regular_walk_def sl demo_slots demo_loads using sp by simp
  then show "kernel_ready demo_os demo_lib_kernel a 0 (demo_open\<lparr>phys := m\<rparr>)"
    using demo_kernel_ready demo_kernel_root by (simp add: kernel_ready_def dev_open_def demo_os_def)
  show "load64 m (pmd_slot m demo_root a) = 0x4067" unfolding sl using sp by simp
  show "maps_page m demo_root a (a - 0x8080604000 + 0x5000)"
    unfolding maps_page_def reaches_pte_def sl using sp assms(2) by (auto simp: table_base_def field_def)
  show "pte_separate m demo_root a" "f \<in> {0x5000, 0x6000, 0x7000} \<Longrightarrow> frame_apart f m demo_root a"
    unfolding pte_separate_def frame_apart_def walk_slots_def upper_slots_def sl using assms(2)
    by (auto simp: apart_def)
  show "slot_apart (pte_slot m demo_root b) m demo_root a" if "b \<in> third_addrs" "b \<noteq> a"
    unfolding slot_apart_def walk_slots_def upper_slots_def sl shows_slots(4) [OF assms(1) that(1)]
    using assms(2) that by (auto simp: apart_def)
qed

lemma demo_pmap_ok: "pmap_ok demo_os demo_lib_kernel p n"
  by (simp add: pmap_ok_def mmap_umem_def demo_lib_kernel_def demo_lib_def demo_os_def MAP_FAILED_def Let_def)

subsection \<open>A bit of the child's entry\<close>

text \<open>The entry functions for one process while the page table of another is written elsewhere.\<close>

lemma pte_root_state [simp]:
  "pte_root W L pid (log_events es s) = pte_root W L pid s"
  "pte_root W L pid (s\<lparr>phys := m\<rparr>) = pte_root W L pid s"
  by (simp_all add: pte_root_def)

lemma pte_ready_agree:
  assumes "upper_agree (phys s) m' (pte_root W L pid s) a" "pte_ready W L a pid s"
  shows "pte_ready W L a pid (log_events es (s\<lparr>phys := m'\<rparr>))"
  using assms(2) unfolding pte_ready_def
proof
  assume u: "user_ready W L a pid s"
  then show "user_ready W L a pid (log_events es (s\<lparr>phys := m'\<rparr>)) \<or> kernel_ready W L a pid (log_events es (s\<lparr>phys := m'\<rparr>))"
    using upper_agree_preds [OF assms(1) [unfolded user_ready_pte_root [OF u]]] by (simp add: user_ready_def)
next
  assume k: "kernel_ready W L a pid s"
  then show "user_ready W L a pid (log_events es (s\<lparr>phys := m'\<rparr>)) \<or> kernel_ready W L a pid (log_events es (s\<lparr>phys := m'\<rparr>))"
    using upper_agree_walk [OF assms(1) [unfolded kernel_ready_pte_root [OF k]]]
    by (simp add: kernel_ready_def regular_walk_def Let_def)
qed

lemma get_bit_agree:
  assumes "pte_ready W L a pid s" "reaches_pte (phys s) (pte_root W L pid s) a"
    and "slot_apart q (phys s) (pte_root W L pid s) a"
  shows "\<exists>es'. ptedit_pte_get_bit W L a pid b (log_events es (s\<lparr>phys := store64 (phys s) q v\<rparr>))
    = Some (bit_flag (load64 (phys s) (pte_slot (phys s) (pte_root W L pid s) a)) b,
        log_events es' (s\<lparr>phys := store64 (phys s) q v\<rparr>))"
proof -
  let ?s = "log_events es (s\<lparr>phys := store64 (phys s) q v\<rparr>)"
  note ag = slot_apart_agree [OF assms(3), of v]
  have "reaches_pte (phys ?s) (pte_root W L pid ?s) a"
    using assms(2) upper_agree_preds(1) [OF ag(1)] by simp
  from selected.get_bit [OF pte_ready_agree [OF ag(1) assms(1)] this, of b]
  show ?thesis using ag(2) upper_agree_walk(3) [OF ag(1)] by auto
qed

text \<open>
  \<open>nx.c\<close>: the parent sees the bit of the child's entry as it is; clears it; then sees it cleared, and its own
  entry's bit as it was. Memory differs from before in the child's entry alone, and there in that bit alone.\<close>

lemma nx_child_executable:
  assumes "pte_ready W L (nx_function_aligned f) pid s" "pte_ready W L (nx_function_aligned f) 0 s"
    and "reaches_pte (phys s) (pte_root W L pid s) (nx_function_aligned f)"
    and "reaches_pte (phys s) (pte_root W L 0 s) (nx_function_aligned f)"
    and "pte_separate (phys s) (pte_root W L pid s) (nx_function_aligned f)"
    and "slot_apart (pte_slot (phys s) (pte_root W L pid s) (nx_function_aligned f)) (phys s)
      (pte_root W L 0 s) (nx_function_aligned f)"
  shows "let b = NX_BIT (os_arch W); q = pte_slot (phys s) (pte_root W L pid s) (nx_function_aligned f);
      child = load64 (phys s) q;
      own = load64 (phys s) (pte_slot (phys s) (pte_root W L 0 s) (nx_function_aligned f))
    in \<exists>s'. nx_parent W L f pid s = Some (bit child b, False, bit own b, s')
      \<and> phys s' = store64 (phys s) q (child AND NOT (push_bit b 1)) \<and> mm_pgd s' = mm_pgd s"
proof -
  define a where "a = nx_function_aligned f"
  define b where "b = NX_BIT (os_arch W)"
  note as = assms [folded a_def]
  let ?c = "load64 (phys s) (pte_slot (phys s) (pte_root W L pid s) a)"
  let ?v = "?c AND NOT (push_bit b 1)"
  let ?m = "store64 (phys s) (pte_slot (phys s) (pte_root W L pid s) a) ?v"
  have b: "b < 64" by (simp add: b_def NX_BIT_def split: arch.split)
  obtain e1 where e1: "ptedit_pte_get_bit W L a pid b s = Some (bit_flag ?c b, log_events e1 s)"
    using selected.get_bit [OF as(1,3)] by blast
  have r1: "pte_ready W L a pid (log_events e1 s)" "reaches_pte (phys (log_events e1 s)) (pte_root W L pid (log_events e1 s)) a"
    using selected.ready_log as(1,3) by simp_all
  obtain e2 where e2: "ptedit_pte_clear_bit W L a pid b (log_events e1 s) = Some (log_events e2 (s\<lparr>phys := ?m\<rparr>))"
    using selected.clear_bit [OF r1, of b] by auto
  note w = selected.after_write [OF as(1,3,5), of e2 ?v]
  obtain e3 where e3: "ptedit_pte_get_bit W L a pid b (log_events e2 (s\<lparr>phys := ?m\<rparr>)) = Some (bit_flag ?v b, log_events e3 (s\<lparr>phys := ?m\<rparr>))"
    using selected.get_bit [OF w(1,2), of b] unfolding w(3) by auto
  obtain e4 where e4: "ptedit_pte_get_bit W L a 0 b (log_events e3 (s\<lparr>phys := ?m\<rparr>))
      = Some (bit_flag (load64 (phys s) (pte_slot (phys s) (pte_root W L 0 s) a)) b, log_events e4 (s\<lparr>phys := ?m\<rparr>))"
    using get_bit_agree [OF as(2,4,6), where b = b and es = e3] by blast
  have "bit_flag e b \<noteq> 0 \<longleftrightarrow> bit e b" for e using b by (simp add: bit_flag_iff)
  moreover have "\<not> bit ?v b" using b by (simp add: bit_and_iff bit_not_iff bit_fields)
  ultimately show ?thesis
    using e1 e2 e3 e4
    by (simp add: nx_parent_def a_def [symmetric] b_def [symmetric] Let_def ptedit_cleanup_def device_release_def)
qed

text \<open>A child with tables of its own at the same address, both entries with the bit.\<close>

definition nx_mem :: mem where
  "nx_mem = store64 (store64 (store64 (store64 (store64 demo_mem 0x9008 0xa067) 0xa010 0xb067) 0xb018 0xc067)
     0xc020 0x8000000000005067) 0x4020 0x8000000000005067"

definition nx_open :: kstate where
  "nx_open = demo_open\<lparr>phys := nx_mem, mm_pgd := (\<lambda>mm. if mm = 4 then 0x9000 + PAGE_OFFSET else demo_root + PAGE_OFFSET)\<rparr>"

lemma nx_loads:
  "load64 nx_mem 0x1008 = 0x2067" "load64 nx_mem 0x2010 = 0x3067" "load64 nx_mem 0x3018 = 0x4067"
  "load64 nx_mem 0x4020 = 0x8000000000005067" "load64 nx_mem 0x9008 = 0xa067" "load64 nx_mem 0xa010 = 0xb067"
  "load64 nx_mem 0xb018 = 0xc067" "load64 nx_mem 0xc020 = 0x8000000000005067"
  by (simp_all add: nx_mem_def load64_store64_same load64_store64_apart apart_def demo_loads)

lemma nx_slots:
  "pgd_slot demo_root 0x8080604000 = 0x1008" "pud_slot nx_mem demo_root 0x8080604000 = 0x2010"
  "pmd_slot nx_mem demo_root 0x8080604000 = 0x3018" "pte_slot nx_mem demo_root 0x8080604000 = 0x4020"
  "pgd_slot 0x9000 0x8080604000 = 0x9008" "pud_slot nx_mem 0x9000 0x8080604000 = 0xa010"
  "pmd_slot nx_mem 0x9000 0x8080604000 = 0xb018" "pte_slot nx_mem 0x9000 0x8080604000 = 0xc020"
  by (simp_all add: pgd_slot_def pud_slot_def pmd_slot_def pte_slot_def slot_def demo_root_def field_def table_base_def nx_loads)

end
