(* ===== verification/Measure_Demos.thy ===== *)
theory Measure_Demos
  imports Pt_Demos
begin

text \<open>
  The demos of PTEditor that measure: \<open>PTEditor/demos/tlb_test.c\<close>, the time of a TLB flush, and \<open>uncachable.c\<close>,
  the time of an access under different memory types, for a 4 KiB page and for a 2 MiB page.

  The clock is an argument; what the programs print are values, without their texts. The definitions
  start after \<open>ptedit_init\<close>, as in \<open>Demos\<close>; \<open>Programs\<close> adds it.
\<close>

subsection \<open>\<open>tlb_test.c\<close>\<close>

text \<open>\<open>n\<close> rounds: the clock before and after each flush is an argument, by the number of the round.\<close>

fun flush_rounds :: "os \<Rightarrow> lib \<Rightarrow> u64 \<Rightarrow> (nat \<Rightarrow> u64 \<times> u64) \<Rightarrow> nat \<Rightarrow> nat \<Rightarrow> u64 \<Rightarrow> kstate \<Rightarrow> u64 \<times> kstate" where
  "flush_rounds W L target clock i 0 tot s = (tot, s)"
| "flush_rounds W L target clock i (Suc n) tot s =
     (let (_, _, s1) = lib_ioctl W L (IOCTL_INVALIDATE_TLB target) s;
          (start, stop) = clock i
      in flush_rounds W L target clock (Suc i) n (tot + (stop - start)) s1)"

text \<open>The two totals that are divided by \<open>REPEAT\<close> and printed; the variable is not reset in between.\<close>

definition tlb_test_main :: "os \<Rightarrow> lib \<Rightarrow> u64 \<Rightarrow> (nat \<Rightarrow> u64 \<times> u64) \<Rightarrow> kstate \<Rightarrow> u64 \<times> u64 \<times> kstate" where
  "tlb_test_main W L target clock s =
     (let (_, s1) = ptedit_switch_tlb_invalidation W L PTEDITOR_TLB_INVALIDATION_KERNEL s;
          (tot1, s2) = flush_rounds W L target clock 0 REPEAT 0 s1;
          (_, s3) = ptedit_switch_tlb_invalidation W L PTEDITOR_TLB_INVALIDATION_CUSTOM s2;
          (tot2, s4) = flush_rounds W L target clock REPEAT REPEAT tot1 s3
      in (tot1, tot2, ptedit_cleanup W L s4))"

subsection \<open>\<open>uncachable.c\<close>\<close>

definition MEASUREMENTS :: nat where "MEASUREMENTS = 1000000"

text \<open>The average of the measured times, truncated to \<open>int\<close>.\<close>

definition access_time :: "(nat \<Rightarrow> u64 \<times> u64) \<Rightarrow> u32" where
  "access_time clock =
     (let sum = fold (\<lambda>i acc. acc + (snd (clock i) - fst (clock i))) [0..<MEASUREMENTS] 0
      in size_to_int (sum div of_nat MEASUREMENTS))"

text \<open>What the program prints: the name of a memory type, an access time, the table of memory types, the number
  of types of a kind with the first of them, and the three failures.\<close>

datatype um_out =
    Mapping_is "string option"
  | Access_time u32
  | Mts u64 "(nat \<times> u8 \<times> string option) list"
  | Mts_for memtype nat int
  | No_mt memtype
  | No_huge_page

definition dump_mts :: "os \<Rightarrow> lib \<Rightarrow> kstate \<Rightarrow> um_out" where
  "dump_mts W L s =
     Mts (ptedit_get_mts W L s)
       (map (\<lambda>i. let t = ptedit_get_mt W L (of_nat i) s in (i, t, ptedit_mt_to_string (os_arch W) t)) [0..<8])"

definition popcount :: "u8 \<Rightarrow> nat" where
  "popcount w = length (filter (bit w) [0..<8])"

text \<open>The name of the memory type of an entry, from the number of the type.\<close>

definition mapping_is :: "os \<Rightarrow> lib \<Rightarrow> u8 \<Rightarrow> kstate \<Rightarrow> um_out" where
  "mapping_is W L mt s = Mapping_is (ptedit_mt_to_string (os_arch W) (ptedit_get_mt W L mt s))"

text \<open>The 4 KiB page gets the first memory type of a kind: the program asks for uncachable, then for write-back.
  Without such a type it goes to its end, which is the result \<open>None\<close>.\<close>

definition set_page_mt ::
  "os \<Rightarrow> lib \<Rightarrow> u64 \<Rightarrow> memtype \<Rightarrow> ptedit_entry_t \<Rightarrow> kstate \<Rightarrow> (um_out \<times> (ptedit_entry_t \<times> int) option \<times> kstate) option" where
  "set_page_mt W L pt type entry s =
     (let t = the (memtype_val (os_arch W) type); mt = ptedit_find_first_mt W L t s in
      if mt = -1 then Some (No_mt type, None, s)
      else do {
        let entry' = entry\<lparr>e_pte := ptedit_apply_mt (os_arch W) (e_pte entry) (word_of_int mt),
                           e_valid := PTEDIT_VALID_MASK_PTE\<rparr>;
        (vm, s1) \<leftarrow> ptedit_update W L pt 0 entry' s;
        Some (Mts_for type (popcount (ptedit_find_mt W L t s)) mt, Some (vm, mt), s1)
      })"

text \<open>The 2 MiB page: its type, then the type \<open>uc_mt\<close>, then its old entry again.\<close>

definition huge_page_mt ::
  "os \<Rightarrow> lib \<Rightarrow> u64 \<Rightarrow> u8 \<Rightarrow> (nat \<Rightarrow> nat \<Rightarrow> u64 \<times> u64) \<Rightarrow> kstate \<Rightarrow> (um_out list \<times> kstate) option" where
  "huge_page_mt W L huge_page uc_mt clock s =
     do {
       (huge_entry, s1) \<leftarrow> ptedit_resolve W L huge_page 0 s;
       let mt = ptedit_extract_mt_huge (os_arch W) (e_pmd huge_entry);
       let original_pmd = e_pmd huge_entry;
       (vm, s2) \<leftarrow> ptedit_update W L huge_page 0
         (huge_entry\<lparr>e_pmd := ptedit_apply_mt_huge (os_arch W) (e_pmd huge_entry) uc_mt, e_valid := PTEDIT_VALID_MASK_PMD\<rparr>) s1;
       (_, s3) \<leftarrow> ptedit_update W L huge_page 0 (vm\<lparr>e_pmd := original_pmd, e_valid := PTEDIT_VALID_MASK_PMD\<rparr>) s2;
       Some ([mapping_is W L mt s1, Access_time (access_time (clock 3)), Access_time (access_time (clock 4)),
              Access_time (access_time (clock 5))], s3)
     }"

text \<open>\<open>huge_page\<close> is the result of the second \<open>mmap\<close>, \<open>clock k\<close> the times of the measurement number \<open>k\<close>.\<close>

definition uncachable_main ::
  "os \<Rightarrow> lib \<Rightarrow> u64 \<Rightarrow> u64 \<Rightarrow> (nat \<Rightarrow> nat \<Rightarrow> u64 \<times> u64) \<Rightarrow> kstate \<Rightarrow> (um_out list \<times> kstate) option" where
  "uncachable_main W L pt huge_page clock s =
     do {
       (entry, s1) \<leftarrow> ptedit_resolve W L pt 0 s;
       let out = [mapping_is W L (ptedit_extract_mt (os_arch W) (e_pte entry)) s1, Access_time (access_time (clock 0)),
                  dump_mts W L s1];
       (o1, r1, s2) \<leftarrow> set_page_mt W L pt PTEDIT_MT_UC entry s1;
       case r1 of
         None \<Rightarrow> Some (out @ [o1], ptedit_cleanup W L s2)
       | Some (entry1, uc_mt) \<Rightarrow>
           do {
             (o2, r2, s3) \<leftarrow> set_page_mt W L pt PTEDIT_MT_WB entry1 s2;
             let out2 = out @ [o1, Access_time (access_time (clock 1)), o2];
             if r2 = None then Some (out2, ptedit_cleanup W L s3)
             else do {
               let out3 = out2 @ [Access_time (access_time (clock 2))];
               if huge_page = MAP_FAILED then Some (out3 @ [No_huge_page], ptedit_cleanup W L s3)
               else do {
                 (hout, s4) \<leftarrow> huge_page_mt W L huge_page (word_of_int uc_mt) clock s3;
                 Some (out3 @ hout, ptedit_cleanup W L s4)
               }
             }
           }
     }"

subsection \<open>The flushes of \<open>tlb_test.c\<close>\<close>

definition round_time :: "(nat \<Rightarrow> u64 \<times> u64) \<Rightarrow> nat \<Rightarrow> u64" where
  "round_time clock i = snd (clock i) - fst (clock i)"

lemma flush_rounds_eq:
  assumes "dev_open W L s"
  shows "flush_rounds W L target clock i n tot s
    = (tot + sum_list (map (round_time clock) [i..<i + n]),
       log_events (concat (replicate n (flush_events (os_kernel W) target (invalidate_tlb_p s)))) s)"
  using assms
proof (induction n arbitrary: i tot s)
  case (Suc n)
  let ?s = "log_events (flush_events (os_kernel W) target (invalidate_tlb_p s)) s"
  have "lib_ioctl W L (IOCTL_INVALIDATE_TLB target) s = (0, Out_none, ?s)"
    using Suc.prems by (simp add: lib_ioctl_open invalidate_tlb_log)
  moreover have "[i..<i + Suc n] = i # [Suc i..<Suc i + n]" by (simp add: upt_conv_Cons del: upt_Suc)
  ultimately show ?case
    using Suc.IH [of ?s "Suc i" "tot + round_time clock i"] Suc.prems
    by (simp add: round_time_def add.assoc split_beta del: upt_Suc)
qed simp

lemma switch_tlb_eq:
  assumes "dev_open W L s"
  shows "snd (ptedit_switch_tlb_invalidation W L PTEDITOR_TLB_INVALIDATION_KERNEL s)
      = s\<lparr>invalidate_tlb_p := Some Invalidate_tlb_kernel\<rparr>"
    "snd (ptedit_switch_tlb_invalidation W L PTEDITOR_TLB_INVALIDATION_CUSTOM s)
      = s\<lparr>invalidate_tlb_p := Some Invalidate_tlb_custom\<rparr>"
  using assms
  by (simp_all add: ptedit_switch_tlb_invalidation_def lib_ioctl_open switch_tlb_invalidation_def int_to_size_def size_to_int_def
      PTEDITOR_TLB_INVALIDATION_KERNEL_def PTEDITOR_TLB_INVALIDATION_CUSTOM_def)

text \<open>
  \<open>tlb_test.c\<close> flushes the page \<open>REPEAT\<close> times with the kernel's function and then \<open>REPEAT\<close> times with the
  custom one, in this order and with nothing in between, and leaves the custom one selected. The first
  number is the time of the first rounds; the second is the time of all rounds, not of the second ones.\<close>

lemma tlb_test_flushes:
  assumes "dev_open W L s"
  shows "\<exists>s'. tlb_test_main W L target clock s
      = (sum_list (map (round_time clock) [0..<REPEAT]), sum_list (map (round_time clock) [0..<2 * REPEAT]), s')
    \<and> events s' = events s
        @ concat (replicate REPEAT (flush_events (os_kernel W) target (Some Invalidate_tlb_kernel)))
        @ concat (replicate REPEAT (flush_events (os_kernel W) target (Some Invalidate_tlb_custom)))
    \<and> invalidate_tlb_p s' = Some Invalidate_tlb_custom \<and> phys s' = phys s"
proof -
  let ?K = "os_kernel W"
  let ?s1 = "s\<lparr>invalidate_tlb_p := Some Invalidate_tlb_kernel\<rparr>"
  let ?e1 = "concat (replicate REPEAT (flush_events ?K target (Some Invalidate_tlb_kernel)))"
  let ?e2 = "concat (replicate REPEAT (flush_events ?K target (Some Invalidate_tlb_custom)))"
  let ?s3 = "(log_events ?e1 ?s1)\<lparr>invalidate_tlb_p := Some Invalidate_tlb_custom\<rparr>"
  let ?t1 = "sum_list (map (round_time clock) [0..<REPEAT])"
  have o1: "dev_open W L ?s1" "dev_open W L (log_events ?e1 ?s1)" "dev_open W L ?s3"
    using assms by (simp_all add: dev_open_def)
  have f1: "flush_rounds W L target clock 0 REPEAT 0 ?s1 = (?t1, log_events ?e1 ?s1)"
    using flush_rounds_eq [OF o1(1), of target clock 0 REPEAT 0] by simp
  have "[0..<REPEAT] @ [REPEAT..<REPEAT + REPEAT] = [0..<2 * REPEAT]"
    using upt_add_eq_append [of 0 REPEAT REPEAT] by (simp add: mult_2)
  then have t2: "?t1 + sum_list (map (round_time clock) [REPEAT..<REPEAT + REPEAT]) = sum_list (map (round_time clock) [0..<2 * REPEAT])"
    by (metis map_append sum_list_append)
  have f2: "flush_rounds W L target clock REPEAT REPEAT ?t1 ?s3
      = (sum_list (map (round_time clock) [0..<2 * REPEAT]), log_events ?e2 ?s3)"
    using flush_rounds_eq [OF o1(3), of target clock REPEAT REPEAT ?t1] unfolding t2 by simp
  have "tlb_test_main W L target clock s
      = (?t1, sum_list (map (round_time clock) [0..<2 * REPEAT]), ptedit_cleanup W L (log_events ?e2 ?s3))"
    unfolding tlb_test_main_def split_beta Let_def switch_tlb_eq(1) [OF assms] f1 fst_conv snd_conv
      switch_tlb_eq(2) [OF o1(2)] f2 ..
  then show ?thesis
    by (simp add: ptedit_cleanup_def device_release_def log_events_def)
qed

subsection \<open>The memory type of a page\<close>

lemma mts_state [simp]:
  "ptedit_get_mts W L (log_events es s) = ptedit_get_mts W L s"
  "ptedit_get_mts W L (s\<lparr>phys := m\<rparr>) = ptedit_get_mts W L s"
  by (simp_all add: ptedit_get_mts_def lib_ioctl_def get_pat_def)

lemma mt_state [simp]:
  "ptedit_get_mt W L t (log_events es s) = ptedit_get_mt W L t s"
  "ptedit_get_mt W L t (s\<lparr>phys := m\<rparr>) = ptedit_get_mt W L t s"
  "ptedit_find_mt W L t (log_events es s) = ptedit_find_mt W L t s"
  "ptedit_find_mt W L t (s\<lparr>phys := m\<rparr>) = ptedit_find_mt W L t s"
  "ptedit_find_first_mt W L t (log_events es s) = ptedit_find_first_mt W L t s"
  "ptedit_find_first_mt W L t (s\<lparr>phys := m\<rparr>) = ptedit_find_first_mt W L t s"
  "mapping_is W L k (log_events es s) = mapping_is W L k s"
  "mapping_is W L k (s\<lparr>phys := m\<rparr>) = mapping_is W L k s"
  "dump_mts W L (log_events es s) = dump_mts W L s"
  "dump_mts W L (s\<lparr>phys := m\<rparr>) = dump_mts W L s"
  by (simp_all add: ptedit_get_mt_def ptedit_find_mt_def ptedit_find_first_mt_def mapping_is_def dump_mts_def)

lemma first_mt_index:
  assumes "os_arch W = X86_64" "ptedit_find_first_mt W L t s \<noteq> -1"
  defines "k \<equiv> word_of_int (ptedit_find_first_mt W L t s) :: u8"
  shows "unat k < 8" "ptedit_get_mt W L k s = t"
proof -
  let ?mts = "ptedit_get_mts W L s" and ?P = "\<lambda>i. i < 8 \<and> mt_matches X86_64 (ptedit_get_mts W L s) t i"
  have f: "ptedit_find_first_mt W L t s = (if \<exists>i<8. mt_matches X86_64 ?mts t i then int (Least ?P) else -1)"
    using find_first_mt_least [of X86_64 ?mts t] assms(1)
    by (simp add: ptedit_find_first_mt_def ptedit_find_mt_def find_first_mt_in_def)
  then have ex: "\<exists>i. ?P i" and k: "k = of_nat (Least ?P)" using assms(2) by (auto simp: k_def split: if_splits)
  have l: "?P (Least ?P)" using LeastI_ex [OF ex] .
  then have u: "unat k = Least ?P" unfolding k by (simp add: unat_of_nat)
  then show "unat k < 8" using l by simp
  have "ucast (ucast t :: u64) = t" by (rule bit_word_eqI) (simp add: bit_ucast_iff)
  then show "ptedit_get_mt W L k s = t"
    using l u by (simp add: ptedit_get_mt_def assms(1) mt_of_mts_def mt_matches_def)
qed

lemma apply_mt_twice: "ptedit_apply_mt X86_64 (ptedit_apply_mt X86_64 e a) b = ptedit_apply_mt X86_64 e b"
  by (rule bit_word_eqI) (simp add: bit_fields)

lemma apply_mt_same: "ptedit_apply_mt X86_64 e (ptedit_extract_mt X86_64 e) = e"
  using apply_extract_mt [of X86_64 e 0] apply_mt_twice by metis

lemma small_take_bit: "unat (k::u8) < 8 \<Longrightarrow> take_bit 3 k = k"
  by (simp add: take_bit_eq_mod word_less_nat_alt unat_mod word_unat_eq_iff)

lemma set_page_mt_eq:
  fixes type :: memtype and pt :: u64
  assumes "kernel_ready W L pt 0 s" "reaches_pte (phys s) (kernel_root W 0 s) pt" "os_arch W = X86_64"
  defines "w \<equiv> ptedit_find_first_mt W L (the (memtype_val X86_64 type)) s"
    and "q \<equiv> pte_slot (phys s) (kernel_root W 0 s) pt"
  assumes "w \<noteq> -1"
  shows "\<exists>vm es. set_page_mt W L pt type entry s
      = Some (Mts_for type (popcount (ptedit_find_mt W L (the (memtype_val X86_64 type)) s)) w, Some (vm, w),
          log_events es (s\<lparr>phys := store64 (phys s) q (ptedit_apply_mt X86_64 (e_pte entry) (word_of_int w))\<rparr>))
    \<and> e_pte vm = ptedit_apply_mt X86_64 (e_pte entry) (word_of_int w)"
proof -
  let ?u = "entry\<lparr>e_pte := ptedit_apply_mt X86_64 (e_pte entry) (word_of_int w), e_valid := PTEDIT_VALID_MASK_PTE\<rparr>"
  have "e_valid ?u = PTEDIT_VALID_MASK_PTE" by simp
  from kernel_update [OF assms(1,2) this] assms(6) show ?thesis
    by (auto simp: set_page_mt_def assms(3) w_def [symmetric] q_def)
qed

text \<open>
  The step of \<open>uncachable.c\<close> that changes the type of its page: the entry then has the first memory type of
  the wanted kind, read back through \<open>ptedit_extract_mt\<close> and \<open>ptedit_get_mt\<close> it is that kind, and the address is
  mapped where it was. Without a type of the kind nothing is written.\<close>

lemma page_type_set:
  assumes "kernel_ready W L pt 0 s" "os_arch W = X86_64" "maps_page (phys s) (kernel_root W 0 s) pt f"
    "pte_separate (phys s) (kernel_root W 0 s) pt"
    "e_pte entry = load64 (phys s) (pte_slot (phys s) (kernel_root W 0 s) pt)"
    "memtype_val X86_64 type = Some t"
  shows "if ptedit_find_first_mt W L t s = -1 then set_page_mt W L pt type entry s = Some (No_mt type, None, s)
    else \<exists>out r s'. set_page_mt W L pt type entry s = Some (out, Some r, s')
      \<and> ptedit_get_mt W L (ptedit_extract_mt X86_64 (load64 (phys s') (pte_slot (phys s') (kernel_root W 0 s') pt))) s' = t
      \<and> translate (phys s') (kernel_root W 0 s') pt = Some f"
proof (cases "ptedit_find_first_mt W L t s = -1")
  case True
  then show ?thesis by (simp add: set_page_mt_def assms(2,6))
next
  case False
  define w where "w = ptedit_find_first_mt W L t s"
  let ?q = "pte_slot (phys s) (kernel_root W 0 s) pt" and ?k = "word_of_int w :: u8"
  let ?v = "ptedit_apply_mt X86_64 (load64 (phys s) ?q) ?k"
  have reach: "reaches_pte (phys s) (kernel_root W 0 s) pt" and pr: "bit (load64 (phys s) ?q) 0"
    using assms(3) by (simp_all add: maps_page_def)
  obtain vm es where e: "set_page_mt W L pt type entry s = Some (Mts_for type (popcount (ptedit_find_mt W L t s)) w, Some (vm, w),
      log_events es (s\<lparr>phys := store64 (phys s) ?q ?v\<rparr>))"
    using set_page_mt_eq [OF assms(1) reach assms(2), of type entry] False assms(5,6) by (auto simp: w_def)
  have v: "bit ?v 0" "table_base ?v = f"
  proof -
    show "bit ?v 0" using pr by (simp add: bit_fields)
    have "table_base ?v = table_base (load64 (phys s) ?q)"
      by (rule bit_word_eqI) (auto simp: table_base_def bit_push_bit_iff bit_field bit_fields)
    then show "table_base ?v = f" using assms(3) by (simp add: maps_page_def)
  qed
  note st = maps_page_store [OF assms(3,4) v(1), unfolded v(2)]
  have "ptedit_get_mt W L (ptedit_extract_mt X86_64 ?v) s = t"
    using first_mt_index [OF assms(2), of L t s] False small_take_bit [of ?k] by (simp add: extract_apply_mt w_def)
  then show ?thesis using e st(2,3) maps_page_translate [OF st(1)] False by simp
qed

subsection \<open>The 2 MiB page\<close>

text \<open>The entry of a 2 MiB page, away from the two entries above it.\<close>

definition pmd_separate :: "mem \<Rightarrow> u64 \<Rightarrow> u64 \<Rightarrow> bool" where
  "pmd_separate m root a \<longleftrightarrow>
     apart (pmd_slot m root a) 8 (pgd_slot root a) 8 \<and> apart (pmd_slot m root a) 8 (pud_slot m root a) 8"

definition maps_huge :: "mem \<Rightarrow> u64 \<Rightarrow> u64 \<Rightarrow> bool" where
  "maps_huge m root a \<longleftrightarrow> reaches_pmd m root a \<and> bit (load64 m (pmd_slot m root a)) 7"

lemma write_pmd:
  assumes "pmd_separate m root a"
  defines "p \<equiv> pmd_slot m root a"
  shows "pud_slot (store64 m p v) root a = pud_slot m root a" "pmd_slot (store64 m p v) root a = p"
    "load64 (store64 m p v) (pgd_slot root a) = load64 m (pgd_slot root a)"
    "load64 (store64 m p v) (pud_slot m root a) = load64 m (pud_slot m root a)"
    "load64 (store64 m p v) p = v"
proof -
  show l3: "load64 (store64 m p v) (pgd_slot root a) = load64 m (pgd_slot root a)"
    and l2: "load64 (store64 m p v) (pud_slot m root a) = load64 m (pud_slot m root a)"
    and "load64 (store64 m p v) p = v"
    using assms(1) by (simp_all add: pmd_separate_def p_def load64_store64_same load64_store64_apart)
  show p2: "pud_slot (store64 m p v) root a = pud_slot m root a" using l3 by (simp add: pud_slot_def)
  show "pmd_slot (store64 m p v) root a = p" using l2 p2 by (simp add: pmd_slot_def p_def)
qed

lemma huge_write:
  assumes "maps_huge m root a" "pmd_separate m root a" "bit v 0" "bit v 7" "regular_walk K m root a"
    "linux_paging K"
  defines "m' \<equiv> store64 m (pmd_slot m root a) v"
  shows "maps_huge m' root a" "regular_walk K m' root a"
proof -
  note w = write_pmd [OF assms(2), of v]
  note no = linux_paging.none_absent [OF assms(6)]
  show "maps_huge m' root a"
    using assms(1,3,4) w by (simp add: maps_huge_def reaches_pmd_def m'_def)
  show "regular_walk K m' root a"
    using assms(1,3-5) no unfolding regular_walk_def Let_def m'_def w
    by (auto simp: maps_huge_def reaches_pmd_def)
qed

lemma huge_apply_bits: "bit (ptedit_apply_mt_huge X86_64 e k) 0 = bit e 0" "bit (ptedit_apply_mt_huge X86_64 e k) 7 = bit e 7"
  by (simp_all add: bit_fields)

text \<open>The three steps on the 2 MiB page leave memory as it was.\<close>

lemma huge_page_mt_eq:
  assumes "kernel_ready W L a 0 s" "os_arch W = X86_64"
    "maps_huge (phys s) (kernel_root W 0 s) a" "pmd_separate (phys s) (kernel_root W 0 s) a"
  shows "\<exists>es. huge_page_mt W L a k clock s
    = Some ([mapping_is W L (ptedit_extract_mt_huge X86_64 (load64 (phys s) (pmd_slot (phys s) (kernel_root W 0 s) a))) s,
        Access_time (access_time (clock 3)), Access_time (access_time (clock 4)), Access_time (access_time (clock 5))],
        log_events es s)"
proof -
  define m where "m = phys s"
  define r where "r = kernel_root W 0 s"
  define p where "p = pmd_slot m r a"
  let ?v = "ptedit_apply_mt_huge X86_64 (load64 m p) k"
  let ?m = "store64 m p ?v"
  have reach: "reaches_pmd m r a" "bit (load64 m p) 0" "bit (load64 m p) 7"
    using assms(3) by (auto simp: maps_huge_def reaches_pmd_def m_def r_def p_def)
  obtain e e1 where e1: "ptedit_resolve W L a 0 s = Some (e, log_events e1 s)" "e_pmd e = load64 m p"
    using kernel_resolve [OF assms(1)] reach(1)
    by (auto simp: resolved_entry_def Let_def walk_valid_bits empty_entry_def reaches_pmd_def m_def r_def p_def)
  let ?u = "e\<lparr>e_pmd := ?v, e_valid := PTEDIT_VALID_MASK_PMD\<rparr>"
  have k1: "kernel_ready W L a 0 (log_events e1 s)" using assms(1) by (simp add: kernel_ready_def)
  obtain vm e2 where e2: "ptedit_update W L a 0 ?u (log_events e1 s) = Some (vm, log_events e2 (s\<lparr>phys := ?m\<rparr>))"
    using kernel_update_pmd [OF k1, of ?u] reach(1) by (auto simp: m_def r_def p_def)
  note hw = huge_write [OF assms(3,4), of ?v "os_kernel W", folded m_def r_def, folded p_def]
  have k2: "kernel_ready W L a 0 (log_events e2 (s\<lparr>phys := ?m\<rparr>))"
    using assms(1) hw reach by (simp add: kernel_ready_def huge_apply_bits m_def [symmetric] r_def [symmetric])
  have h2: "reaches_pmd ?m r a"
    using assms(1) hw(1) reach by (simp add: kernel_ready_def huge_apply_bits maps_huge_def m_def [symmetric] r_def [symmetric])
  have p2: "pmd_slot ?m r a = p" using write_pmd(2) [OF assms(4)] by (simp add: m_def r_def p_def)
  obtain vm3 e3 where e3: "ptedit_update W L a 0 (vm\<lparr>e_pmd := load64 m p, e_valid := PTEDIT_VALID_MASK_PMD\<rparr>)
      (log_events e2 (s\<lparr>phys := ?m\<rparr>)) = Some (vm3, log_events e3 s)"
    using kernel_update_pmd [OF k2, of "vm\<lparr>e_pmd := load64 m p, e_valid := PTEDIT_VALID_MASK_PMD\<rparr>"] h2 p2
    by (auto simp: r_def [symmetric] store64_twice store64_load64 m_def)
  show ?thesis
    using e1 e2 e3 by (simp add: huge_page_mt_def assms(2) m_def [symmetric] r_def [symmetric] p_def [symmetric]) blast
qed

subsection \<open>\<open>uncachable.c\<close> as a whole\<close>

definition uncachable_ready :: "os \<Rightarrow> lib \<Rightarrow> u64 \<Rightarrow> u64 \<Rightarrow> kstate \<Rightarrow> bool" where
  "uncachable_ready W L pt huge_page s \<longleftrightarrow>
     (let m = phys s; r = kernel_root W 0 s
      in os_arch W = X86_64 \<and> kernel_ready W L pt 0 s \<and> reaches_pte m r pt \<and> pte_separate m r pt
       \<and> (huge_page \<noteq> MAP_FAILED \<longrightarrow> kernel_ready W L huge_page 0 s \<and> maps_huge m r huge_page \<and> pmd_separate m r huge_page
          \<and> (\<forall>p\<in>set (upper_slots m r huge_page). apart (pte_slot m r pt) 8 p 8)))"

lemma kernel_ready_agree:
  assumes "kernel_ready W L a pid s" "upper_agree (phys s) m' (kernel_root W pid s) a"
  shows "kernel_ready W L a pid (log_events es (s\<lparr>phys := m'\<rparr>))"
  using assms(1) upper_agree_walk [OF assms(2)] by (simp add: kernel_ready_def regular_walk_def Let_def)

text \<open>The output while the page gets its two types.\<close>

definition page_output :: "os \<Rightarrow> lib \<Rightarrow> u64 \<Rightarrow> (nat \<Rightarrow> nat \<Rightarrow> u64 \<times> u64) \<Rightarrow> kstate \<Rightarrow> um_out list" where
  "page_output W L e clock s =
     [mapping_is W L (ptedit_extract_mt X86_64 e) s, Access_time (access_time (clock 0)), dump_mts W L s,
      Mts_for PTEDIT_MT_UC (popcount (ptedit_find_mt W L 0 s)) (ptedit_find_first_mt W L 0 s),
      Access_time (access_time (clock 1)),
      Mts_for PTEDIT_MT_WB (popcount (ptedit_find_mt W L 6 s)) (ptedit_find_first_mt W L 6 s),
      Access_time (access_time (clock 2))]"

definition huge_output :: "os \<Rightarrow> lib \<Rightarrow> u64 \<Rightarrow> (nat \<Rightarrow> nat \<Rightarrow> u64 \<times> u64) \<Rightarrow> kstate \<Rightarrow> um_out list" where
  "huge_output W L h clock s =
     (if h = MAP_FAILED then [No_huge_page]
      else [mapping_is W L (ptedit_extract_mt_huge X86_64 (load64 (phys s) (pmd_slot (phys s) (kernel_root W 0 s) h))) s,
        Access_time (access_time (clock 3)), Access_time (access_time (clock 4)), Access_time (access_time (clock 5))])"

text \<open>The two changes of the 4 KiB page, one after the other.\<close>

lemma page_types_eq:
  fixes W :: os and L :: lib and s :: kstate and pt :: u64
  defines "m \<equiv> phys s" and "r \<equiv> kernel_root W 0 s"
  defines "q \<equiv> pte_slot m r pt"
  defines "e \<equiv> load64 m q"
  defines "u \<equiv> ptedit_find_first_mt W L 0 s" and "w \<equiv> ptedit_find_first_mt W L 6 s"
  assumes ready: "kernel_ready W L pt 0 s" "os_arch W = X86_64" "reaches_pte m r pt" "pte_separate m r pt"
    and mts: "u \<noteq> -1" "w \<noteq> -1"
  shows "\<exists>en e1 vm s2 vm3 e3. ptedit_resolve W L pt 0 s = Some (en, log_events e1 s) \<and> e_pte en = e
    \<and> set_page_mt W L pt PTEDIT_MT_UC en (log_events e1 s)
      = Some (Mts_for PTEDIT_MT_UC (popcount (ptedit_find_mt W L 0 s)) u, Some (vm, u), s2)
    \<and> set_page_mt W L pt PTEDIT_MT_WB vm s2
      = Some (Mts_for PTEDIT_MT_WB (popcount (ptedit_find_mt W L 6 s)) w, Some (vm3, w),
          log_events e3 (s\<lparr>phys := store64 m q (ptedit_apply_mt X86_64 e (word_of_int w))\<rparr>))"
proof -
  let ?v1 = "ptedit_apply_mt X86_64 e (word_of_int u)" and ?v2 = "ptedit_apply_mt X86_64 e (word_of_int w)"
  let ?s1 = "s\<lparr>phys := store64 m q ?v1\<rparr>"
  obtain en e1 where e1: "ptedit_resolve W L pt 0 s = Some (en, log_events e1 s)" "e_pte en = e"
    using kernel_resolve_walk [OF ready(1)] ready(3) by (auto simp: m_def r_def q_def e_def)
  have k1: "kernel_ready W L pt 0 (log_events es s)" for es using ready(1) by (simp add: kernel_ready_def)
  have t: "the (memtype_val X86_64 PTEDIT_MT_UC) = 0" "the (memtype_val X86_64 PTEDIT_MT_WB) = 6" by simp_all
  obtain vm e2 where e2: "set_page_mt W L pt PTEDIT_MT_UC en (log_events e1 s)
      = Some (Mts_for PTEDIT_MT_UC (popcount (ptedit_find_mt W L 0 s)) u, Some (vm, u), log_events e2 ?s1)" "e_pte vm = ?v1"
    using set_page_mt_eq [OF k1, where type = PTEDIT_MT_UC and entry = en, unfolded t, of e1] ready(2,3) mts(1) e1(2)
    by (auto simp: m_def r_def q_def u_def)
  note st = write_pte [OF ready(4), of ?v1, folded q_def]
  have k2: "kernel_ready W L pt 0 (log_events e2 ?s1)"
    using kernel_ready_store [OF ready(1)] ready(4) by (simp add: kernel_ready_def m_def r_def q_def)
  have r2: "reaches_pte (store64 m q ?v1) r pt" using st ready(3) by simp
  have tw: "ptedit_apply_mt X86_64 ?v1 (word_of_int w) = ?v2" by (rule apply_mt_twice)
  have "\<exists>vm3 e3. set_page_mt W L pt PTEDIT_MT_WB vm (log_events e2 ?s1)
      = Some (Mts_for PTEDIT_MT_WB (popcount (ptedit_find_mt W L 6 s)) w, Some (vm3, w),
          log_events e3 (s\<lparr>phys := store64 m q ?v2\<rparr>))"
    using set_page_mt_eq [OF k2, where type = PTEDIT_MT_WB and entry = vm, unfolded t] ready(2) r2 mts(2) e2(2) st
    by (auto simp: r_def [symmetric] w_def [symmetric] tw store64_twice)
  then show ?thesis using e1 e2(1) by blast
qed

text \<open>The 2 MiB page, after a store to the entry of the other page.\<close>

lemma huge_part_eq:
  assumes "uncachable_ready W L pt h s" "h \<noteq> MAP_FAILED"
  shows "\<exists>e4. huge_page_mt W L h k clock
      (log_events e3 (s\<lparr>phys := store64 (phys s) (pte_slot (phys s) (kernel_root W 0 s) pt) v\<rparr>))
    = Some (huge_output W L h clock s,
        log_events e4 (s\<lparr>phys := store64 (phys s) (pte_slot (phys s) (kernel_root W 0 s) pt) v\<rparr>))"
proof -
  let ?m = "phys s" and ?r = "kernel_root W 0 s"
  let ?m' = "store64 ?m (pte_slot ?m ?r pt) v"
  have rd: "os_arch W = X86_64" "kernel_ready W L h 0 s" "maps_huge ?m ?r h" "pmd_separate ?m ?r h"
      "\<forall>p\<in>set (upper_slots ?m ?r h). apart (pte_slot ?m ?r pt) 8 p 8"
    using assms unfolding uncachable_ready_def Let_def by blast+
  have ag: "upper_agree ?m ?m' ?r h" using rd(5) by (auto simp: upper_agree_def load64_store64_apart)
  note wk = upper_agree_walk [OF ag]
  have "maps_huge ?m' ?r h" "pmd_separate ?m' ?r h"
    using rd(3,4) by (simp_all add: maps_huge_def reaches_pmd_def pmd_separate_def wk)
  then show ?thesis
    using huge_page_mt_eq [of W L h "log_events e3 (s\<lparr>phys := ?m'\<rparr>)" k clock] rd(1) assms(2) wk
      kernel_ready_agree [OF rd(2) ag, of e3]
    by (auto simp: huge_output_def)
qed

text \<open>
  \<open>uncachable.c\<close>, where the PAT has types of both kinds: the program runs to its end, with or without a 2 MiB
  page. In the end the entry of the 4 KiB page has the first write-back type and is otherwise what it was, and
  nothing else in memory has changed, the entry of the 2 MiB page included. When the page had that type
  before, memory is as it was.\<close>

lemma uncachable_restores:
  assumes "uncachable_ready W L pt huge_page s"
    "ptedit_find_first_mt W L 0 s \<noteq> -1" "ptedit_find_first_mt W L 6 s \<noteq> -1"
  shows "let q = pte_slot (phys s) (kernel_root W 0 s) pt; e = load64 (phys s) q;
      wb = word_of_int (ptedit_find_first_mt W L 6 s)
    in \<exists>s'. uncachable_main W L pt huge_page clock s
        = Some (page_output W L e clock s @ huge_output W L huge_page clock s, s')
      \<and> phys s' = store64 (phys s) q (ptedit_apply_mt X86_64 e wb)
      \<and> (ptedit_extract_mt X86_64 e = wb \<longrightarrow> phys s' = phys s)"
proof -
  define m where "m = phys s"
  define r where "r = kernel_root W 0 s"
  define q where "q = pte_slot m r pt"
  define e where "e = load64 m q"
  define w where "w = ptedit_find_first_mt W L 6 s"
  let ?s2 = "s\<lparr>phys := store64 m q (ptedit_apply_mt X86_64 e (word_of_int w))\<rparr>"
  have pt: "kernel_ready W L pt 0 s" "os_arch W = X86_64" "reaches_pte m r pt" "pte_separate m r pt"
    using assms(1) unfolding uncachable_ready_def Let_def m_def r_def by blast+
  note pe = page_types_eq [OF pt(1,2) pt(3,4) [unfolded m_def r_def] assms(2,3),
    folded m_def r_def, folded q_def, folded e_def, folded w_def]
  have main: "\<exists>es. uncachable_main W L pt huge_page clock s
      = Some (page_output W L e clock s @ huge_output W L huge_page clock s, ptedit_cleanup W L (log_events es ?s2))"
  proof (cases "huge_page = MAP_FAILED")
    case True
    then show ?thesis
      using pe by (auto simp: uncachable_main_def pt(2) page_output_def huge_output_def w_def)
  next
    case False
    note hp = huge_part_eq [OF assms(1) False, of _ clock _ "ptedit_apply_mt X86_64 e (word_of_int w)",
      folded m_def r_def, folded q_def]
    obtain en e1 vm s2 vm3 e3 where st: "ptedit_resolve W L pt 0 s = Some (en, log_events e1 s)" "e_pte en = e"
        "set_page_mt W L pt PTEDIT_MT_UC en (log_events e1 s) = Some (Mts_for PTEDIT_MT_UC (popcount (ptedit_find_mt W L 0 s))
          (ptedit_find_first_mt W L 0 s), Some (vm, ptedit_find_first_mt W L 0 s), s2)"
        "set_page_mt W L pt PTEDIT_MT_WB vm s2
          = Some (Mts_for PTEDIT_MT_WB (popcount (ptedit_find_mt W L 6 s)) w, Some (vm3, w), log_events e3 ?s2)"
      using pe by blast
    then show ?thesis
      using hp [of "word_of_int (ptedit_find_first_mt W L 0 s)" e3] False
      by (auto simp: uncachable_main_def pt(2) page_output_def w_def)
  qed
  have same: "ptedit_extract_mt X86_64 e = word_of_int w \<Longrightarrow> store64 m q (ptedit_apply_mt X86_64 e (word_of_int w)) = m"
    using apply_mt_same [of e] by (simp add: e_def store64_load64)
  show ?thesis
    unfolding Let_def m_def [symmetric] r_def [symmetric] q_def [symmetric] e_def [symmetric] w_def [symmetric]
    using main same by auto
qed

end
