(* ===== verification/Win_Loader.thy ===== *)
theory Win_Loader
  imports Win_Driver "HOL-Library.AList"
begin

text \<open>
  The loader of the Windows driver, \<open>PTEditor/driver/PTEditorLoader/PTEditorLoader.cpp\<close>: a program that
  registers \<open>PTEdit.sys\<close> as a service and starts it, or stops and deletes the service.

  The calls of the Win32 interface are the record \<open>win32\<close>, an argument of \<open>loader_main\<close>; the state they work on
  is a type variable. What the interface documents of them is the locale \<open>service_control\<close>, in terms of a view
  of the state, and the proofs use nothing else. It is interpreted on a service manager that loads
  the driver by running \<open>DriverEntry\<close> and \<open>Unload\<close> of \<open>Win_Driver\<close>.
\<close>

subsection \<open>The program\<close>

type_synonym handle = nat

text \<open>A result \<open>None\<close> is \<open>INVALID_HANDLE_VALUE\<close> of \<open>CreateFile\<close>, \<open>NULL\<close> of the other calls, and a path
  that was not written by \<open>GetFullPathName\<close>.\<close>

record svc_config =
  svc_display :: string
  svc_type :: u32
  svc_start :: u32
  svc_error :: u32
  svc_path :: string

record 'w win32 =
  CreateFile :: "string \<Rightarrow> u32 \<Rightarrow> 'w \<Rightarrow> handle option \<times> 'w"
  CloseHandle :: "handle \<Rightarrow> 'w \<Rightarrow> 'w"
  GetFullPathName :: "string \<Rightarrow> nat \<Rightarrow> 'w \<Rightarrow> string option"
  OpenSCManager :: "u32 \<Rightarrow> 'w \<Rightarrow> handle option \<times> 'w"
  CreateService :: "handle \<Rightarrow> string \<Rightarrow> u32 \<Rightarrow> svc_config \<Rightarrow> 'w \<Rightarrow> handle option \<times> 'w"
  OpenService :: "handle \<Rightarrow> string \<Rightarrow> u32 \<Rightarrow> 'w \<Rightarrow> handle option \<times> 'w"
  StartService :: "handle \<Rightarrow> 'w \<Rightarrow> bool \<times> 'w"
  ControlService :: "handle \<Rightarrow> u32 \<Rightarrow> 'w \<Rightarrow> bool \<times> 'w"
  DeleteService :: "handle \<Rightarrow> 'w \<Rightarrow> bool \<times> 'w"
  CloseServiceHandle :: "handle \<Rightarrow> 'w \<Rightarrow> 'w"

definition GENERIC_READ :: u32 where "GENERIC_READ = 0x80000000"
definition GENERIC_ALL :: u32 where "GENERIC_ALL = 0x10000000"
definition SC_MANAGER_CREATE_SERVICE :: u32 where "SC_MANAGER_CREATE_SERVICE = 0x2"
definition SERVICE_START :: u32 where "SERVICE_START = 0x10"
definition SERVICE_STOP :: u32 where "SERVICE_STOP = 0x20"
definition DELETE :: u32 where "DELETE = 0x10000"
definition SERVICE_CONTROL_STOP :: u32 where "SERVICE_CONTROL_STOP = 0x1"
definition SERVICE_KERNEL_DRIVER :: u32 where "SERVICE_KERNEL_DRIVER = 0x1"
definition SERVICE_DEMAND_START :: u32 where "SERVICE_DEMAND_START = 0x3"
definition SERVICE_ERROR_IGNORE :: u32 where "SERVICE_ERROR_IGNORE = 0x0"

definition PTEDITOR_DEVICE_PATH :: string where
  "PTEDITOR_DEVICE_PATH = [CHR 0x5C, CHR 0x5C, CHR ''.'', CHR 0x5C] @ ''PTEditorLink''"

definition DRIVER_NAME :: string where "DRIVER_NAME = ''PTEdit.sys''"
definition SERVICE_NAME :: string where "SERVICE_NAME = ''PTEditor''"

definition service_access :: u32 where
  "service_access = SERVICE_START OR DELETE OR SERVICE_STOP"

definition driver_config :: "string \<Rightarrow> svc_config" where
  "driver_config driverPath =
     \<lparr>svc_display = ''PTEditor Driver'', svc_type = SERVICE_KERNEL_DRIVER, svc_start = SERVICE_DEMAND_START,
      svc_error = SERVICE_ERROR_IGNORE, svc_path = driverPath\<rparr>"

definition unload_flag :: "string list \<Rightarrow> bool" where
  "unload_flag argv = (2 \<le> length argv \<and> argv ! 1 = ''--unload'')"

text \<open>The body of \<open>if (hSCManager)\<close>: the lines printed and the state.\<close>

definition use_service :: "'w win32 \<Rightarrow> bool \<Rightarrow> handle \<Rightarrow> 'w \<Rightarrow> string list \<times> 'w" where
  "use_service A unload hService w =
     (if \<not> unload then ([''[+] Starting service''], CloseServiceHandle A hService (snd (StartService A hService w)))
      else let w1 = snd (ControlService A hService SERVICE_CONTROL_STOP w);
               w2 = snd (DeleteService A hService w1)
           in ([''[+] Stopping service''], CloseServiceHandle A hService w2))"

definition with_manager :: "'w win32 \<Rightarrow> bool \<Rightarrow> string \<Rightarrow> handle \<Rightarrow> 'w \<Rightarrow> string list \<times> 'w" where
  "with_manager A unload driverPath hSCManager w =
     (let out1 = [if \<not> unload then ''[+] Creating service'' else ''[+] Connecting to service''];
          (created, w1) = CreateService A hSCManager SERVICE_NAME service_access (driver_config driverPath) w;
          (hService, out2, w2) =
            (case created of
               Some h \<Rightarrow> (Some h, [], w1)
             | None \<Rightarrow> let (h, w') = OpenService A hSCManager SERVICE_NAME service_access w1
                       in (h, [''[+] Service not running, try to open service''], w'));
          (out3, w3) = (case hService of Some h \<Rightarrow> use_service A unload h w2 | None \<Rightarrow> ([], w2))
      in (out1 @ out2 @ out3, CloseServiceHandle A hSCManager w3))"

definition manage_service :: "'w win32 \<Rightarrow> bool \<Rightarrow> string \<Rightarrow> 'w \<Rightarrow> string list \<times> 'w" where
  "manage_service A unload driverPath w =
     (let (hSCManager, w1) = OpenSCManager A SC_MANAGER_CREATE_SERVICE w;
          what = (if unload then ''[+] Unload PTEditor driver'' else ''[+] Load PTEditor driver'');
          (out, w2) = (case hSCManager of Some m \<Rightarrow> with_manager A unload driverPath m w1 | None \<Rightarrow> ([], w1))
      in (what # out, w2))"

text \<open>\<open>main\<close>: the lines printed, the exit code and the state. \<open>stack\<close> is what \<open>driverPath\<close> holds before it
  is written.\<close>

definition loader_main :: "'w win32 \<Rightarrow> string \<Rightarrow> string list \<Rightarrow> 'w \<Rightarrow> string list \<times> int \<times> 'w" where
  "loader_main A stack argv w =
     (let unload = unload_flag argv
      in case CreateFile A DRIVER_NAME GENERIC_READ w of
           (None, w1) \<Rightarrow> ([''[-] Could not find driver PTEdit.sys in current directory''], 1, w1)
         | (Some fd, w1) \<Rightarrow>
             let w2 = CloseHandle A fd w1;
                 driverPath = (case GetFullPathName A DRIVER_NAME 1023 w2 of Some p \<Rightarrow> p | None \<Rightarrow> stack);
                 found = ''[+] Found driver: '' @ driverPath
             in case CreateFile A PTEDITOR_DEVICE_PATH GENERIC_ALL w2 of
                  (None, w3) \<Rightarrow>
                    if unload then ([found, ''[-] Could not unload driver, driver is not loaded''], 1, w3)
                    else let (out, w4) = manage_service A unload driverPath w3 in (found # out, 0, w4)
                | (Some fd, w3) \<Rightarrow>
                    let w4 = CloseHandle A fd w3
                    in if \<not> unload
                       then ([found, ''[+] PTEditor driver is already loaded. To unload the driver, run '' @ argv ! 0 @ '' --unload''],
                             0, w4)
                       else let (out, w5) = manage_service A unload driverPath w4 in (found # out, 0, w5))"

subsection \<open>What the service-control interface promises\<close>

text \<open>
  The view of a system: the names \<open>CreateFile\<close> can open and their full paths, whether the caller may manage services, the service named
  \<open>PTEditor\<close> with its state, and the open handles of files, of the service manager and of the service, the latter two
  with the rights they were opened with.
\<close>

record sview =
  v_exists :: "string \<Rightarrow> bool"
  v_full :: "string \<Rightarrow> string"
  v_admin :: bool
  v_service :: "svc_config option"
  v_running :: bool
  v_deleted :: bool
  v_open :: "handle set"
  v_scm :: "handle \<rightharpoonup> u32"
  v_svc :: "handle \<rightharpoonup> u32"

abbreviation v_device :: "sview \<Rightarrow> bool" where
  "v_device v \<equiv> v_exists v PTEDITOR_DEVICE_PATH"

text \<open>A service that is marked for deletion is still in use; handles, the running state and the mark
  belong to a service; the running driver has its device.\<close>

definition sv_ok :: "sview \<Rightarrow> bool" where
  "sv_ok v \<longleftrightarrow>
     (v_service v = None \<longrightarrow> \<not> v_running v \<and> \<not> v_deleted v \<and> v_svc v = Map.empty)
   \<and> (v_deleted v \<longrightarrow> v_running v \<or> v_svc v \<noteq> Map.empty)
   \<and> (v_running v \<longrightarrow> v_device v)"

definition sv_start :: "(string \<Rightarrow> bool) \<Rightarrow> sview \<Rightarrow> sview" where
  "sv_start loads v =
     (case v_service v of
        Some c \<Rightarrow> if v_running v \<or> v_deleted v \<or> v_device v \<or> \<not> loads (svc_path c) then v
                  else v\<lparr>v_running := True, v_exists := (v_exists v)(PTEDITOR_DEVICE_PATH := True)\<rparr>
      | None \<Rightarrow> v)"

definition sv_stop :: "sview \<Rightarrow> sview" where
  "sv_stop v =
     (if v_running v then v\<lparr>v_running := False, v_exists := (v_exists v)(PTEDITOR_DEVICE_PATH := False)\<rparr> else v)"

text \<open>A service marked for deletion is removed with its last handle, if it does not run.\<close>

definition sv_reap :: "sview \<Rightarrow> sview" where
  "sv_reap v =
     (if v_deleted v \<and> \<not> v_running v \<and> v_svc v = Map.empty then v\<lparr>v_service := None, v_deleted := False\<rparr> else v)"

definition has_right :: "(handle \<rightharpoonup> u32) \<Rightarrow> handle \<Rightarrow> u32 \<Rightarrow> bool" where
  "has_right m h r = (case m h of Some a \<Rightarrow> a AND r = r | None \<Rightarrow> False)"

locale service_control =
  fixes A :: "'w win32"
    and view :: "'w \<Rightarrow> sview"
    and loads :: "string \<Rightarrow> bool"
  assumes create_file:
      "case CreateFile A name acc w of
         (None, w') \<Rightarrow> \<not> v_exists (view w) name \<and> view w' = view w
       | (Some h, w') \<Rightarrow> v_exists (view w) name \<and> h \<notin> v_open (view w)
           \<and> view w' = (view w)\<lparr>v_open := insert h (v_open (view w))\<rparr>"
    and close_handle:
      "h \<in> v_open (view w) \<Longrightarrow> view (CloseHandle A h w) = (view w)\<lparr>v_open := v_open (view w) - {h}\<rparr>"
    and full_path:
      "GetFullPathName A name n w = (if length (v_full (view w) name) < n then Some (v_full (view w) name) else None)"
    and open_manager:
      "case OpenSCManager A acc w of
         (None, w') \<Rightarrow> \<not> v_admin (view w) \<and> view w' = view w
       | (Some h, w') \<Rightarrow> v_admin (view w) \<and> v_scm (view w) h = None \<and> v_svc (view w) h = None
           \<and> view w' = (view w)\<lparr>v_scm := (v_scm (view w))(h \<mapsto> acc)\<rparr>"
    and create_service:
      "has_right (v_scm (view w)) m SC_MANAGER_CREATE_SERVICE \<Longrightarrow>
       case CreateService A m SERVICE_NAME acc c w of
         (None, w') \<Rightarrow> v_service (view w) \<noteq> None \<and> view w' = view w
       | (Some h, w') \<Rightarrow> v_service (view w) = None \<and> v_scm (view w) h = None \<and> v_svc (view w) h = None
           \<and> view w' = (view w)\<lparr>v_service := Some c, v_svc := (v_svc (view w))(h \<mapsto> acc)\<rparr>"
    and open_service:
      "m \<in> dom (v_scm (view w)) \<Longrightarrow>
       case OpenService A m SERVICE_NAME acc w of
         (None, w') \<Rightarrow> v_service (view w) = None \<and> view w' = view w
       | (Some h, w') \<Rightarrow> v_service (view w) \<noteq> None \<and> v_scm (view w) h = None \<and> v_svc (view w) h = None
           \<and> view w' = (view w)\<lparr>v_svc := (v_svc (view w))(h \<mapsto> acc)\<rparr>"
    and start_service:
      "has_right (v_svc (view w)) h SERVICE_START \<Longrightarrow> view (snd (StartService A h w)) = sv_start loads (view w)"
    and stop_service:
      "has_right (v_svc (view w)) h SERVICE_STOP \<Longrightarrow>
       view (snd (ControlService A h SERVICE_CONTROL_STOP w)) = sv_stop (view w)"
    and delete_service:
      "has_right (v_svc (view w)) h DELETE \<Longrightarrow> view (snd (DeleteService A h w)) = (view w)\<lparr>v_deleted := True\<rparr>"
    and close_manager:
      "m \<in> dom (v_scm (view w)) \<Longrightarrow> view (CloseServiceHandle A m w) = (view w)\<lparr>v_scm := (v_scm (view w))(m := None)\<rparr>"
    and close_service:
      "h \<in> dom (v_svc (view w)) \<Longrightarrow> v_scm (view w) h = None \<Longrightarrow>
       view (CloseServiceHandle A h w) = sv_reap ((view w)\<lparr>v_svc := (v_svc (view w))(h := None)\<rparr>)"

subsection \<open>What the loader is to do\<close>

definition load_spec :: "(string \<Rightarrow> bool) \<Rightarrow> string \<Rightarrow> sview \<Rightarrow> sview" where
  "load_spec loads path v =
     sv_start loads (if v_service v = None then v\<lparr>v_service := Some (driver_config path)\<rparr> else v)"

definition unload_spec :: "sview \<Rightarrow> sview" where
  "unload_spec v = (if v_service v = None then v else sv_reap ((sv_stop v)\<lparr>v_deleted := True\<rparr>))"

text \<open>The path given to the service, which is what the stack held where the path is too long.\<close>

definition service_path :: "string \<Rightarrow> sview \<Rightarrow> string" where
  "service_path stack v = (if length (v_full v DRIVER_NAME) < 1023 then v_full v DRIVER_NAME else stack)"

definition loader_spec :: "(string \<Rightarrow> bool) \<Rightarrow> bool \<Rightarrow> string \<Rightarrow> sview \<Rightarrow> int \<times> sview" where
  "loader_spec loads unload stack v =
     (if \<not> v_exists v DRIVER_NAME then (1, v)
      else if unload then (if \<not> v_device v then (1, v) else (0, if v_admin v then unload_spec v else v))
      else (0, if v_device v \<or> \<not> v_admin v then v else load_spec loads (service_path stack v) v))"

subsection \<open>The loader does it\<close>

lemma service_rights:
  "has_right (m(h \<mapsto> service_access)) h SERVICE_START" "has_right (m(h \<mapsto> service_access)) h SERVICE_STOP"
  "has_right (m(h \<mapsto> service_access)) h DELETE"
  "has_right (m(h \<mapsto> SC_MANAGER_CREATE_SERVICE)) h SC_MANAGER_CREATE_SERVICE"
  by (simp_all add: has_right_def service_access_def SERVICE_START_def SERVICE_STOP_def DELETE_def)

lemma sv_fields [simp]:
  "v_svc (sv_start l v) = v_svc v" "v_scm (sv_start l v) = v_scm v" "v_open (sv_start l v) = v_open v"
  "v_svc (sv_stop v) = v_svc v" "v_scm (sv_stop v) = v_scm v" "v_open (sv_stop v) = v_open v"
  "v_svc (sv_reap v) = v_svc v" "v_scm (sv_reap v) = v_scm v" "v_open (sv_reap v) = v_open v"
  "v_running (sv_reap v) = v_running v" "v_exists (sv_reap v) = v_exists v"
  by (auto simp: sv_start_def sv_stop_def sv_reap_def split: option.splits)

lemma sv_frame [simp]:
  "sv_start l (v\<lparr>v_svc := s\<rparr>) = (sv_start l v)\<lparr>v_svc := s\<rparr>" "sv_start l (v\<lparr>v_scm := m\<rparr>) = (sv_start l v)\<lparr>v_scm := m\<rparr>"
  "sv_stop (v\<lparr>v_svc := s\<rparr>) = (sv_stop v)\<lparr>v_svc := s\<rparr>" "sv_stop (v\<lparr>v_scm := m\<rparr>) = (sv_stop v)\<lparr>v_scm := m\<rparr>"
  "sv_reap (v\<lparr>v_scm := m\<rparr>) = (sv_reap v)\<lparr>v_scm := m\<rparr>"
  by (auto simp: sv_start_def sv_stop_def sv_reap_def split: option.splits)

lemma spec_frame [simp]:
  "unload_spec (v\<lparr>v_scm := s\<rparr>) = (unload_spec v)\<lparr>v_scm := s\<rparr>"
  "load_spec loads path (v\<lparr>v_scm := s\<rparr>) = (load_spec loads path v)\<lparr>v_scm := s\<rparr>"
  "v_scm (unload_spec v) = v_scm v" "v_scm (load_spec loads path v) = v_scm v"
  by (auto simp: unload_spec_def load_spec_def sv_reap_def sv_stop_def sv_start_def split: option.splits)

lemma v_svc_same: "v_svc v = s \<Longrightarrow> v\<lparr>v_svc := s\<rparr> = v"
  by auto

lemma v_scm_same: "v_scm v = s \<Longrightarrow> v\<lparr>v_scm := s\<rparr> = v"
  by auto

text \<open>Closing the handle of a service that was started: nothing is removed.\<close>

lemma reap_started:
  assumes "sv_ok v"
  shows "sv_reap (sv_start l v) = sv_start l v"
  using assms by (auto simp: sv_reap_def sv_start_def sv_ok_def split: option.splits)

lemma sv_ok_created: "sv_ok v \<Longrightarrow> v_service v = None \<Longrightarrow> sv_ok (v\<lparr>v_service := Some c\<rparr>)"
  by (simp add: sv_ok_def)

lemma sv_ok_load: "sv_ok v \<Longrightarrow> sv_ok (load_spec loads path v)"
  by (auto simp: sv_ok_def load_spec_def sv_start_def split: option.splits)

lemma sv_ok_unload: "sv_ok v \<Longrightarrow> sv_ok (unload_spec v)"
  by (auto simp: sv_ok_def unload_spec_def sv_reap_def sv_stop_def)

lemma sv_ok_loader: "sv_ok v \<Longrightarrow> sv_ok (snd (loader_spec loads unload path v))"
  by (simp add: loader_spec_def sv_ok_load sv_ok_unload)

text \<open>A service created for the unloading goes away with its handle.\<close>

lemma reap_created:
  assumes "sv_ok v" "v_service v = None"
  shows "sv_reap ((sv_stop (v\<lparr>v_service := Some c\<rparr>))\<lparr>v_deleted := True\<rparr>) = v"
  using assms by (simp add: sv_ok_def sv_reap_def sv_stop_def)

context service_control
begin

lemma use_service_view:
  assumes "v_svc (view w) h = Some service_access" "v_scm (view w) h = None"
  shows "view (snd (use_service A unload h w)) =
    (if unload then sv_reap ((sv_stop (view w))\<lparr>v_deleted := True, v_svc := (v_svc (view w))(h := None)\<rparr>)
     else sv_reap ((sv_start loads (view w))\<lparr>v_svc := (v_svc (view w))(h := None)\<rparr>))"
proof -
  have r: "has_right (v_svc (view w)) h SERVICE_START" "has_right (v_svc (view w)) h SERVICE_STOP"
      "has_right (v_svc (view w)) h DELETE"
    using assms(1) by (metis fun_upd_triv service_rights)+
  have d: "h \<in> dom (v_svc (view w))" using assms(1) by auto
  show ?thesis
    by (simp add: use_service_def Let_def close_service delete_service stop_service start_service r d assms(2))
qed

lemma opened_service:
  assumes "has_right (v_scm (view w)) m SC_MANAGER_CREATE_SERVICE"
  obtains h w' out where
    "with_manager A unload path m w =
       (let (out', w'') = use_service A unload h w' in (out @ out', CloseServiceHandle A m w''))"
    "v_svc (view w) h = None" "v_scm (view w) h = None"
    "view w' = (view w)\<lparr>v_service := (if v_service (view w) = None then Some (driver_config path) else v_service (view w)),
       v_svc := (v_svc (view w))(h \<mapsto> service_access)\<rparr>"
proof -
  have m: "m \<in> dom (v_scm (view w))" using assms by (auto simp: has_right_def split: option.splits)
  obtain r1 w1 where c: "CreateService A m SERVICE_NAME service_access (driver_config path) w = (r1, w1)" by fastforce
  note cs = create_service [OF assms, of service_access "driver_config path", unfolded c]
  show thesis
  proof (cases r1)
    case (Some h)
    show thesis
      by (rule that [of h w1 "[if \<not> unload then ''[+] Creating service'' else ''[+] Connecting to service'']"])
        (use cs Some in \<open>simp_all add: with_manager_def c Let_def split: prod.splits\<close>)
  next
    case None
    then have v1: "v_service (view w) \<noteq> None" "view w1 = view w" using cs by simp_all
    obtain r2 w2 where o: "OpenService A m SERVICE_NAME service_access w1 = (r2, w2)" by fastforce
    note os = open_service [of m w1 service_access, unfolded o v1(2), OF m]
    obtain h where h: "r2 = Some h" using os v1(1) by (cases r2) simp_all
    show thesis
      by (rule that [of h w2 "[if \<not> unload then ''[+] Creating service'' else ''[+] Connecting to service'',
            ''[+] Service not running, try to open service'']"])
        (use os v1 None h in \<open>simp_all add: with_manager_def c o Let_def split: prod.splits\<close>)
  qed
qed

lemma with_manager_view:
  assumes "v_scm (view w) m = Some SC_MANAGER_CREATE_SERVICE"
    and "sv_ok (view w)"
  shows "view (snd (with_manager A unload path m w)) =
    (if unload then unload_spec (view w) else load_spec loads path (view w))\<lparr>v_scm := (v_scm (view w))(m := None)\<rparr>"
proof -
  let ?v = "view w"
  have "has_right (v_scm ?v) m SC_MANAGER_CREATE_SERVICE" using assms(1) by (simp add: has_right_def)
  then obtain h w' out where h: "with_manager A unload path m w =
       (let (out', w'') = use_service A unload h w' in (out @ out', CloseServiceHandle A m w''))"
    "v_svc ?v h = None" "v_scm ?v h = None"
    "view w' = ?v\<lparr>v_service := (if v_service ?v = None then Some (driver_config path) else v_service ?v),
       v_svc := (v_svc ?v)(h \<mapsto> service_access)\<rparr>"
    by (rule opened_service)
  define v1 where "v1 = ?v\<lparr>v_service := (if v_service ?v = None then Some (driver_config path) else v_service ?v)\<rparr>"
  have ok: "sv_ok v1" using assms(2) sv_ok_created by (simp add: v1_def)
  have clr: "(v_svc ?v)(h := None) = v_svc ?v" using h(2) by (simp add: fun_upd_idem)
  have w': "view w' = v1\<lparr>v_svc := (v_svc ?v)(h \<mapsto> service_access)\<rparr>" using h(4) by (simp add: v1_def)
  have used: "view (snd (use_service A unload h w')) =
      (if unload then sv_reap ((sv_stop v1)\<lparr>v_deleted := True\<rparr>) else sv_start loads v1)"
  proof -
    have f: "v_svc v1 = v_svc ?v" "v_scm v1 h = None" by (simp_all add: v1_def h(3))
    show ?thesis
      using use_service_view [of w' h unload] reap_started [OF ok]
      by (simp add: w' clr f fun_upd_idem_iff v_svc_same del: if_split cong: if_cong)
  qed
  have "v_scm (view (snd (use_service A unload h w'))) = v_scm ?v" by (simp add: used v1_def)
  then have "view (snd (with_manager A unload path m w)) =
      (view (snd (use_service A unload h w')))\<lparr>v_scm := (v_scm ?v)(m := None)\<rparr>"
    using assms(1) by (cases "use_service A unload h w'") (simp add: h(1) close_manager domI)
  then show ?thesis
    using used reap_created [OF assms(2)] by (simp add: load_spec_def unload_spec_def v1_def)
qed

text \<open>Opening a name and closing the handle again.\<close>

lemma probe_file:
  obtains w1 where "CreateFile A name acc w = (None, w1)" "\<not> v_exists (view w) name" "view w1 = view w"
  | h w1 where "CreateFile A name acc w = (Some h, w1)" "v_exists (view w) name" "view (CloseHandle A h w1) = view w"
proof -
  obtain r w1 where c: "CreateFile A name acc w = (r, w1)" by fastforce
  note cf = create_file [where name = name and acc = acc and w = w, unfolded c]
  show thesis
  proof (cases r)
    case None
    then show thesis using cf c that(1) by simp
  next
    case (Some h)
    then have o: "v_exists (view w) name" "h \<notin> v_open (view w)" "view w1 = (view w)\<lparr>v_open := insert h (v_open (view w))\<rparr>"
      using cf by simp_all
    then have "view (CloseHandle A h w1) = view w" by (simp add: close_handle)
    then show thesis using that(2) c Some o(1) by simp
  qed
qed

lemma manage_service_view:
  assumes "sv_ok (view w)"
  shows "view (snd (manage_service A unload path w)) =
    (if v_admin (view w) then if unload then unload_spec (view w) else load_spec loads path (view w) else view w)"
proof -
  let ?v = "view w"
  obtain r w1 where c: "OpenSCManager A SC_MANAGER_CREATE_SERVICE w = (r, w1)" by fastforce
  note om = open_manager [where acc = SC_MANAGER_CREATE_SERVICE and w = w, unfolded c]
  show ?thesis
  proof (cases r)
    case None
    then show ?thesis using om c by (simp add: manage_service_def)
  next
    case (Some m)
    define s where "s = (v_scm ?v)(m \<mapsto> SC_MANAGER_CREATE_SERVICE)"
    have o: "v_admin ?v" "v_scm ?v m = None" "view w1 = ?v\<lparr>v_scm := s\<rparr>" using om Some by (simp_all add: s_def)
    have ok: "sv_ok (view w1)" using assms by (simp add: o(3) sv_ok_def)
    have "view (snd (with_manager A unload path m w1)) =
        (if unload then unload_spec ?v else load_spec loads path ?v)\<lparr>v_scm := v_scm ?v\<rparr>"
      using with_manager_view [OF _ ok, of m unload path] o(2) by (simp add: o(3) s_def fun_upd_idem)
    then show ?thesis
      using c Some o(1)
      by (cases "with_manager A unload path m w1") (simp add: manage_service_def v_scm_same)
  qed
qed

lemma main_view:
  assumes "sv_ok (view w)"
  shows "(fst (snd (loader_main A stack argv w)), view (snd (snd (loader_main A stack argv w)))) =
    loader_spec loads (unload_flag argv) stack (view w)"
proof (cases rule: probe_file [of DRIVER_NAME GENERIC_READ w])
  case (1 w1)
  then show ?thesis by (simp add: loader_main_def loader_spec_def)
next
  case (2 h w1)
  define w2 where "w2 = CloseHandle A h w1"
  have v2: "view w2 = view w" using 2 by (simp add: w2_def)
  define path where "path = service_path stack (view w)"
  have path: "(case GetFullPathName A DRIVER_NAME 1023 w2 of Some p \<Rightarrow> p | None \<Rightarrow> stack) = path"
    by (simp add: full_path v2 path_def service_path_def)
  note main = loader_main_def 2(1) w2_def [symmetric] path
  show ?thesis
  proof (cases rule: probe_file [of PTEDITOR_DEVICE_PATH GENERIC_ALL w2])
    case d: (1 w3)
    then show ?thesis
      using 2(2) manage_service_view [of w3 False path] assms v2
      by (cases "manage_service A False path w3") (simp add: main loader_spec_def Let_def flip: path_def)
  next
    case d: (2 h2 w3)
    then show ?thesis
      using 2(2) manage_service_view [of "CloseHandle A h2 w3" True path] assms v2
      by (cases "manage_service A True path (CloseHandle A h2 w3)") (simp add: main loader_spec_def Let_def flip: path_def)
  qed
qed

end

subsection \<open>A service manager that loads the driver of \<open>Win_Driver\<close>\<close>

text \<open>Who made the device link: nobody, the driver under another service, or the driver under this one.\<close>

datatype link = No_link | Other_link | Own_link driver

record wsys =
  ws_files :: "string list"
  ws_dir :: string
  ws_admin :: bool
  ws_service :: "svc_config option"
  ws_link :: link
  ws_deleted :: bool
  ws_open :: "handle list"
  ws_scm :: "(handle \<times> u32) list"
  ws_svc :: "(handle \<times> u32) list"

definition link_there :: "link \<Rightarrow> bool" where
  "link_there l = (case l of No_link \<Rightarrow> False | Other_link \<Rightarrow> True | Own_link d \<Rightarrow> d_link d)"

definition own_link :: "link \<Rightarrow> bool" where
  "own_link l = (case l of Own_link d \<Rightarrow> True | _ \<Rightarrow> False)"

definition sys_view :: "wsys \<Rightarrow> sview" where
  "sys_view w =
     \<lparr>v_exists = (\<lambda>n. if n = PTEDITOR_DEVICE_PATH then link_there (ws_link w) else n \<in> set (ws_files w)),
      v_full = (\<lambda>n. ws_dir w @ n), v_admin = ws_admin w, v_service = ws_service w, v_running = own_link (ws_link w),
      v_deleted = ws_deleted w, v_open = set (ws_open w), v_scm = map_of (ws_scm w), v_svc = map_of (ws_svc w)\<rparr>"

definition fresh_handle :: "wsys \<Rightarrow> handle" where
  "fresh_handle w = Suc (sum_list (ws_open w @ map fst (ws_scm w) @ map fst (ws_svc w)))"

definition new_driver :: driver where
  "new_driver = \<lparr>d_unload = False, d_major = replicate 28 H_unset, d_device = False, d_link = False\<rparr>"

text \<open>Starting the service: \<open>img\<close> says at which paths there is a driver the system accepts. A second device of the
  name is refused.\<close>

definition sys_start :: "nt \<Rightarrow> (string \<Rightarrow> bool) \<Rightarrow> wsys \<Rightarrow> bool \<times> wsys" where
  "sys_start N img w =
     (case ws_service w of
        None \<Rightarrow> (False, w)
      | Some c \<Rightarrow>
          if own_link (ws_link w) \<or> ws_deleted w \<or> \<not> img (svc_path c) then (False, w)
          else let N' = (if link_there (ws_link w) then N\<lparr>nt_create_device := 0xC0000035 - 2 ^ 32\<rparr> else N);
                   (status, d) = DriverEntry N' new_driver
               in if status < 0 then (False, w) else (True, w\<lparr>ws_link := Own_link d\<rparr>))"

definition sys_stop :: "wsys \<Rightarrow> bool \<times> wsys" where
  "sys_stop w =
     (case ws_link w of
        Own_link d \<Rightarrow> (True, w\<lparr>ws_link := (if d_link (Unload d) then Own_link (Unload d) else No_link)\<rparr>)
      | _ \<Rightarrow> (False, w))"

definition sys_close :: "handle \<Rightarrow> wsys \<Rightarrow> wsys" where
  "sys_close h w =
     (if h \<in> fst ` set (ws_scm w) then w\<lparr>ws_scm := AList.delete h (ws_scm w)\<rparr>
      else let w1 = w\<lparr>ws_svc := AList.delete h (ws_svc w)\<rparr>
           in if ws_deleted w1 \<and> \<not> own_link (ws_link w1) \<and> ws_svc w1 = []
              then w1\<lparr>ws_service := None, ws_deleted := False\<rparr> else w1)"

definition sys_api :: "nt \<Rightarrow> (string \<Rightarrow> bool) \<Rightarrow> wsys win32" where
  "sys_api N img =
     \<lparr>CreateFile = (\<lambda>name acc w. if v_exists (sys_view w) name
        then (Some (fresh_handle w), w\<lparr>ws_open := fresh_handle w # ws_open w\<rparr>) else (None, w)),
      CloseHandle = (\<lambda>h w. w\<lparr>ws_open := removeAll h (ws_open w)\<rparr>),
      GetFullPathName = (\<lambda>name n w. if length (ws_dir w @ name) < n then Some (ws_dir w @ name) else None),
      OpenSCManager = (\<lambda>acc w. if ws_admin w
        then (Some (fresh_handle w), w\<lparr>ws_scm := (fresh_handle w, acc) # ws_scm w\<rparr>) else (None, w)),
      CreateService = (\<lambda>m name acc c w. if ws_service w = None
        then (Some (fresh_handle w), w\<lparr>ws_service := Some c, ws_svc := (fresh_handle w, acc) # ws_svc w\<rparr>) else (None, w)),
      OpenService = (\<lambda>m name acc w. if ws_service w \<noteq> None
        then (Some (fresh_handle w), w\<lparr>ws_svc := (fresh_handle w, acc) # ws_svc w\<rparr>) else (None, w)),
      StartService = (\<lambda>h w. sys_start N img w),
      ControlService = (\<lambda>h c w. sys_stop w),
      DeleteService = (\<lambda>h w. (True, w\<lparr>ws_deleted := True\<rparr>)),
      CloseServiceHandle = sys_close\<rparr>"

definition sys_loads :: "nt \<Rightarrow> (string \<Rightarrow> bool) \<Rightarrow> string \<Rightarrow> bool" where
  "sys_loads N img p = (img p \<and> 0 \<le> nt_create_device N \<and> 0 \<le> nt_create_link N)"

lemma fresh_handle_new:
  "fresh_handle w \<notin> set (ws_open w)" "map_of (ws_scm w) (fresh_handle w) = None" "map_of (ws_svc w) (fresh_handle w) = None"
proof -
  have "x < fresh_handle w" if "x \<in> set (ws_open w @ map fst (ws_scm w) @ map fst (ws_svc w))" for x
    using member_le_sum_list [OF that] by (simp add: fresh_handle_def)
  then show "fresh_handle w \<notin> set (ws_open w)" "map_of (ws_scm w) (fresh_handle w) = None"
    "map_of (ws_svc w) (fresh_handle w) = None"
    by (fastforce simp: map_of_eq_None_iff)+
qed

lemma start_view: "sys_view (snd (sys_start N img w)) = sv_start (sys_loads N img) (sys_view w)"
  by (cases "ws_link w")
    (auto simp: sys_start_def sys_view_def sv_start_def sys_loads_def DriverEntry_def link_there_def own_link_def new_driver_def
      Let_def fun_eq_iff split: option.splits)

lemma stop_view: "sys_view (snd (sys_stop w)) = sv_stop (sys_view w)"
  by (cases "ws_link w") (auto simp: sys_stop_def sys_view_def sv_stop_def Unload_def link_there_def own_link_def fun_eq_iff)

lemma close_view:
  "h \<in> dom (v_scm (sys_view w)) \<Longrightarrow>
     sys_view (sys_close h w) = (sys_view w)\<lparr>v_scm := (v_scm (sys_view w))(h := None)\<rparr>"
  "v_scm (sys_view w) h = None \<Longrightarrow>
     sys_view (sys_close h w) = sv_reap ((sys_view w)\<lparr>v_svc := (v_svc (sys_view w))(h := None)\<rparr>)"
  by (auto simp: sys_close_def sys_view_def sv_reap_def Let_def delete_conv' map_of_eq_None_iff dom_map_of_conv_image_fst
      simp flip: map_of_eq_empty_iff)

lemmas api_calls = sys_api_def start_view stop_view close_view

interpretation sc: service_control "sys_api N img" sys_view "sys_loads N img"
proof (unfold_locales, goal_cases)
  case 1 show ?case using fresh_handle_new by (simp add: sys_api_def sys_view_def)
next
  case 2 then show ?case by (auto simp: sys_api_def sys_view_def)
next
  case 3 show ?case by (simp add: sys_api_def sys_view_def)
next
  case 4 show ?case using fresh_handle_new by (simp add: sys_api_def sys_view_def)
next
  case 5 show ?case using fresh_handle_new by (simp add: sys_api_def sys_view_def)
next
  case 6 show ?case using fresh_handle_new by (auto simp: sys_api_def sys_view_def)
next
  case 7 show ?case by (simp add: api_calls)
next
  case 8 show ?case by (simp add: api_calls)
next
  case 9 show ?case by (simp add: sys_api_def sys_view_def)
next
  case 10 then show ?case by (simp add: api_calls)
next
  case 11 then show ?case by (simp add: api_calls)
qed

subsection \<open>Properties\<close>

definition demo_sys :: wsys where
  "demo_sys = \<lparr>ws_files = [''PTEdit.sys''], ws_dir = ''C:/'', ws_admin = True, ws_service = None, ws_link = No_link,
     ws_deleted = False, ws_open = [], ws_scm = [], ws_svc = []\<rparr>"

definition demo_image :: "string \<Rightarrow> bool" where
  "demo_image p = (p = ''C:/PTEdit.sys'')"

lemma device_not_driver [simp]: "DRIVER_NAME \<noteq> PTEDITOR_DEVICE_PATH" "PTEDITOR_DEVICE_PATH \<noteq> DRIVER_NAME"
  by (simp_all add: DRIVER_NAME_def PTEDITOR_DEVICE_PATH_def)

lemma demo_sys_ok: "sv_ok (sys_view demo_sys)"
  by (simp add: sv_ok_def sys_view_def demo_sys_def own_link_def)

lemma demo_sys_loads:
  "sys_loads demo_nt demo_image (service_path stack (sys_view demo_sys))" "v_exists (sys_view demo_sys) DRIVER_NAME"
  "\<not> v_device (sys_view demo_sys)" "v_admin (sys_view demo_sys)" "v_service (sys_view demo_sys) = None"
  by (simp_all add: sys_loads_def demo_image_def service_path_def sys_view_def demo_sys_def DRIVER_NAME_def
      PTEDITOR_DEVICE_PATH_def link_there_def demo_nt_def)

text \<open>
  C27. On every system whose calls behave as documented, the loader does what its specification says, for every
  command line: it returns 1 and changes nothing where the driver file is missing or there is nothing to unload; else it
  returns 0, with the service registered and started, or stopped and deleted, or, where the driver is loaded already or
  the caller may not manage services, nothing changed. Every handle it opened is closed.\<close>

theorem loader_refines:
  assumes "service_control A view loads" "sv_ok (view w)"
  shows "(fst (snd (loader_main A stack argv w)), view (snd (snd (loader_main A stack argv w)))) =
    loader_spec loads (unload_flag argv) stack (view w)"
  using assms by (rule service_control.main_view)

theorem loader_refines_witness:
  "(fst (snd (loader_main (sys_api demo_nt demo_image) [] [''PTEditorLoader''] demo_sys)),
    sys_view (snd (snd (loader_main (sys_api demo_nt demo_image) [] [''PTEditorLoader''] demo_sys)))) =
   (0, (sys_view demo_sys)\<lparr>v_service := Some (driver_config ''C:/PTEdit.sys''), v_running := True,
      v_exists := (v_exists (sys_view demo_sys))(PTEDITOR_DEVICE_PATH := True)\<rparr>)"
proof -
  have p: "service_path [] (sys_view demo_sys) = ''C:/PTEdit.sys''"
    by (simp add: service_path_def sys_view_def demo_sys_def DRIVER_NAME_def)
  have s: "\<not> v_running (sys_view demo_sys)" "\<not> v_deleted (sys_view demo_sys)"
    by (simp_all add: sys_view_def demo_sys_def own_link_def)
  show ?thesis
    using demo_sys_loads(2-5) demo_sys_loads(1) [of "[]", unfolded p]
    by (subst loader_refines [OF sc.service_control_axioms demo_sys_ok])
      (simp add: loader_spec_def load_spec_def sv_start_def driver_config_def unload_flag_def s p)
qed

text \<open>
  C28. Loading and unloading: from a state without the service and the device, the loader brings the device
  into being; started again, it reports this and changes nothing; and with \<open>--unload\<close> it restores the state
  from before, so that no service, no device and no handle is left. All three runs return 0.\<close>

theorem loader_roundtrip:
  assumes "service_control A view loads" "sv_ok (view w)"
    and "v_exists (view w) DRIVER_NAME" "\<not> v_device (view w)" "v_admin (view w)" "v_service (view w) = None"
    and "loads (service_path stack (view w))" "\<not> unload_flag argv" "unload_flag argv'"
  shows "let (out1, c1, w1) = loader_main A stack argv w;
             (out2, c2, w2) = loader_main A stack argv w1;
             (out3, c3, w3) = loader_main A stack argv' w2
         in c1 = 0 \<and> c2 = 0 \<and> c3 = 0 \<and> v_device (view w1) \<and> view w2 = view w1 \<and> view w3 = view w"
proof -
  obtain out1 c1 w1 where r1: "loader_main A stack argv w = (out1, c1, w1)" by (metis prod_cases3)
  obtain out2 c2 w2 where r2: "loader_main A stack argv w1 = (out2, c2, w2)" by (metis prod_cases3)
  obtain out3 c3 w3 where r3: "loader_main A stack argv' w2 = (out3, c3, w3)" by (metis prod_cases3)
  note m = service_control.main_view [OF assms(1)]
  note down = sv_ok_def [of "view w"]
  have v1: "c1 = 0 \<and> view w1 = (view w)\<lparr>v_service := Some (driver_config (service_path stack (view w))), v_running := True,
      v_exists := (v_exists (view w))(PTEDITOR_DEVICE_PATH := True)\<rparr>"
    using m [OF assms(2), of stack argv] assms(2-8)
    by (simp add: r1 loader_spec_def load_spec_def sv_start_def driver_config_def down)
  have ok1: "sv_ok (view w1)" using assms(2,6) v1 by (simp add: sv_ok_def)
  have v2: "c2 = 0 \<and> view w2 = view w1" using m [OF ok1, of stack argv] assms(3,8) v1 by (simp add: r2 loader_spec_def)
  have "c3 = 0 \<and> view w3 = view w"
    using m [of w2 stack argv'] ok1 v1 v2 assms(2-9)
    by (auto simp: r3 loader_spec_def unload_spec_def sv_stop_def sv_reap_def down fun_upd_idem)
  then show ?thesis using v1 v2 by (simp add: r1 r2 r3)
qed

theorem loader_roundtrip_witness:
  "let (out1, c1, w1) = loader_main (sys_api demo_nt demo_image) [] [''PTEditorLoader''] demo_sys;
       (out2, c2, w2) = loader_main (sys_api demo_nt demo_image) [] [''PTEditorLoader''] w1;
       (out3, c3, w3) = loader_main (sys_api demo_nt demo_image) [] [''PTEditorLoader'', ''--unload''] w2
   in c1 = 0 \<and> c2 = 0 \<and> c3 = 0 \<and> v_device (sys_view w1) \<and> sys_view w2 = sys_view w1 \<and> sys_view w3 = sys_view demo_sys"
  using demo_sys_loads
  by (intro loader_roundtrip [OF sc.service_control_axioms demo_sys_ok]) (simp_all add: unload_flag_def)

text \<open>
  Exit code 0 does not mean that the driver is loaded: the results of \<open>OpenSCManager\<close> and \<open>StartService\<close> have no
  influence on it.\<close>

lemma loader_silent_failure:
  assumes "service_control A view loads" "sv_ok (view w)" "v_exists (view w) DRIVER_NAME" "\<not> v_device (view w)"
    "\<not> unload_flag argv" "\<not> v_admin (view w) \<or> v_service (view w) = None \<and> \<not> loads (service_path stack (view w))"
  shows "fst (snd (loader_main A stack argv w)) = 0 \<and> \<not> v_device (view (snd (snd (loader_main A stack argv w))))"
  using service_control.main_view [OF assms(1,2), of stack argv] assms(3-6)
  by (auto simp: loader_spec_def load_spec_def sv_start_def driver_config_def prod_eq_iff split: if_splits)

text \<open>A service that is registered already is started with the path it was registered with: the driver that
  the loader found and reports is not the one it loads.\<close>

lemma loader_stale_path:
  assumes "service_control A view loads" "sv_ok (view w)" "\<not> v_device (view w)" "\<not> unload_flag argv"
    "v_service (view w) = Some c"
  shows "v_service (view (snd (snd (loader_main A stack argv w)))) = Some c"
  using service_control.main_view [OF assms(1,2), of stack argv] assms(3-5)
  by (auto simp: loader_spec_def load_spec_def sv_start_def prod_eq_iff split: if_splits)

text \<open>A driver that another service has loaded is not unloaded: the loader registers a service of its own, fails to
  stop it, deletes it and returns 0.\<close>

lemma loader_foreign_driver:
  assumes "service_control A view loads" "sv_ok (view w)" "v_exists (view w) DRIVER_NAME" "v_device (view w)"
    "v_service (view w) = None" "unload_flag argv"
  shows "fst (snd (loader_main A stack argv w)) = 0 \<and> view (snd (snd (loader_main A stack argv w))) = view w"
  using service_control.main_view [OF assms(1,2), of stack argv] assms(3-6)
  by (auto simp: loader_spec_def unload_spec_def prod_eq_iff split: if_splits)

end
