(* ===== verification/Programs.thy ===== *)
theory Programs
  imports Measure_Demos Memmap
begin

text \<open>
  The programs of PTEditor from their first to their last statement: \<open>PTEditor/example.c\<close> and those under
  \<open>PTEditor/demos\<close>. What each does between set-up and clean-up is modelled in \<open>Memmap\<close>, \<open>Demos\<close>, \<open>Pt_Demos\<close> and
  \<open>Measure_Demos\<close>; here it runs on the library as \<open>ptedit_init\<close> leaves it, starting from the static variables of a
  new process, and the theorems are about the module's state before the program starts.

  A result is the exit code, the output (none where \<open>ptedit_init\<close> fails) and the state; \<open>None\<close> is a fault.
\<close>

subsection \<open>Set-up\<close>

text \<open>The static variables of \<open>ptedit.c\<close> at program start.\<close>

definition lib0 :: lib where
  "lib0 = \<lparr>ptedit_fd = 0, ptedit_umem = 0, ptedit_pagesize = 0, ptedit_pfn_multiply = 4096, ptedit_entry_size = 8,
     ptedit_paging_root = 0, ptedit_vmem = 0,
     ptedit_paging_definition = \<lparr>has_pgd = False, has_p4d = False, has_pud = False, has_pmd = False, has_pt = False,
       pgd_entries = 0, p4d_entries = 0, pud_entries = 0, pmd_entries = 0, pt_entries = 0, page_offset = 0\<rparr>,
     ptedit_resolve_p = None, ptedit_update_p = None\<rparr>"

text \<open>\<open>if (ptedit_init()) { ...; return 1; }\<close> followed by the rest of the program.\<close>

definition with_ptedit ::
  "os \<Rightarrow> (lib \<Rightarrow> kstate \<Rightarrow> ('o \<times> kstate) option) \<Rightarrow> kstate \<Rightarrow> (int \<times> 'o option \<times> kstate) option" where
  "with_ptedit W rest s =
     (let (r, L, s1) = ptedit_init W lib0 s
      in if r \<noteq> 0 then Some (1, None, s1) else map_option (\<lambda>(out, s2). (0, Some out, s2)) (rest L s1))"

subsection \<open>The programs\<close>

text \<open>\<open>atoi\<close> of the C library: white space, a sign, digits.\<close>

definition is_space :: "char \<Rightarrow> bool" where
  "is_space c = (of_char c \<in> {9, 10, 11, 12, 13, 32 :: nat})"

definition is_digit :: "char \<Rightarrow> bool" where
  "is_digit c = (48 \<le> (of_char c :: nat) \<and> (of_char c :: nat) \<le> 57)"

definition atoi :: "string \<Rightarrow> int" where
  "atoi s =
     (let s1 = dropWhile is_space s;
          value = (\<lambda>t. int (digits_val 10 (takeWhile is_digit t)))
      in case s1 of
           [] \<Rightarrow> 0
         | c # t \<Rightarrow> if c = CHR ''-'' then - value t else if c = CHR ''+'' then value t else value s1)"

text \<open>\<open>memmap.c\<close>: the argument as a process id, and what is printed before the listing.\<close>

definition memmap_pid :: "string list \<Rightarrow> u64" where
  "memmap_pid argv = (if 2 \<le> length argv then word_of_int (atoi (argv ! 1)) else 0)"

definition memmap_main :: "os \<Rightarrow> string list \<Rightarrow> u8 list \<Rightarrow> kstate \<Rightarrow> (int \<times> (string \<times> memmap) option \<times> kstate) option" where
  "memmap_main W argv stack s =
     with_ptedit W (\<lambda>L s1.
       let pid = memmap_pid argv;
           (st, s2) = memmap_dump W L (size_to_int pid) stack s1
       in Some ((''Dumping PID '' @ (if sint pid < 0 then ''-'' else []) @ digits 19 10 (nat \<bar>sint pid\<bar>) @ [CHR 0x0A]
                   @ memmap_text W st, st), ptedit_cleanup W L s2)) s"

text \<open>\<open>virt2phys.c\<close>: \<open>target\<close> is the address of the variable of that name.\<close>

definition virt2phys_main :: "os \<Rightarrow> u64 \<Rightarrow> kstate \<Rightarrow> (int \<times> u64 option \<times> kstate) option" where
  "virt2phys_main W target s =
     with_ptedit W (\<lambda>L s1. map_option (\<lambda>(n, s2). (n, ptedit_cleanup W L s2)) (virt2phys W L target s1)) s"

definition example_program ::
  "os \<Rightarrow> u64 \<Rightarrow> u64 \<Rightarrow> (mem \<Rightarrow> mem) \<Rightarrow> u8 list \<Rightarrow> kstate \<Rightarrow> (int \<times> bool list option \<times> kstate) option" where
  "example_program W address target touch page0 s =
     with_ptedit W (\<lambda>L. example_main W L address target touch page0) s"

definition performance_program :: "os \<Rightarrow> u64 \<Rightarrow> ptedit_entry_t \<Rightarrow> kstate \<Rightarrow> (int \<times> (bool \<times> bool) option \<times> kstate) option" where
  "performance_program W target uninit s =
     with_ptedit W (\<lambda>L s1. map_option (\<lambda>(a, b, s2). ((a, b), s2)) (performance_main W L target uninit s1)) s"

definition map_pt_program ::
  "os \<Rightarrow> u64 \<Rightarrow> u64 \<Rightarrow> (mem \<Rightarrow> mem) \<Rightarrow> (mem \<Rightarrow> mem) \<Rightarrow> kstate \<Rightarrow> (int \<times> bool list option \<times> kstate) option" where
  "map_pt_program W target secret touch_t touch_s s =
     do { s2 \<leftarrow> map_pt_fill W target secret touch_t touch_s s; with_ptedit W (\<lambda>L. map_pt_edit W L target secret) s2 }"

definition map_pt_manual_program ::
  "os \<Rightarrow> u64 \<Rightarrow> u64 \<Rightarrow> u64 \<Rightarrow> (mem \<Rightarrow> mem) \<Rightarrow> (mem \<Rightarrow> mem) \<Rightarrow> (mem \<Rightarrow> mem) \<Rightarrow> kstate
   \<Rightarrow> (int \<times> bool list option \<times> kstate) option" where
  "map_pt_manual_program W pt target secret touch_p touch_t touch_s s =
     do {
       s2 \<leftarrow> map_pt_manual_fill W pt target secret touch_p touch_t touch_s s;
       with_ptedit W (\<lambda>L. map_pt_manual_edit W L pt target secret) s2
     }"

text \<open>\<open>tlb_test.c\<close>; the totals are what is divided by \<open>REPEAT\<close> and printed.\<close>

definition tlb_test_program :: "os \<Rightarrow> u64 \<Rightarrow> (nat \<Rightarrow> u64 \<times> u64) \<Rightarrow> kstate \<Rightarrow> (int \<times> (u64 \<times> u64) option \<times> kstate) option" where
  "tlb_test_program W target clock s =
     with_ptedit W (\<lambda>L s1. let (t1, t2, s2) = tlb_test_main W L target clock s1 in Some ((t1, t2), s2)) s"

definition uncachable_program ::
  "os \<Rightarrow> u64 \<Rightarrow> u64 \<Rightarrow> (mem \<Rightarrow> mem) \<Rightarrow> (nat \<Rightarrow> nat \<Rightarrow> u64 \<times> u64) \<Rightarrow> kstate \<Rightarrow> (int \<times> um_out list option \<times> kstate) option" where
  "uncachable_program W pt huge_page touch clock s =
     do {
       s1 \<leftarrow> user_memset W pt 65 4096 (s\<lparr>phys := touch (phys s)\<rparr>);
       with_ptedit W (\<lambda>L. uncachable_main W L pt huge_page clock) s1
     }"

text \<open>
  \<open>nx.c\<close> from \<open>fork\<close> on: the child reads the first byte of the page; the parent edits the child's entry meanwhile, which the
  calls of \<open>sleep\<close> are there for; then the child calls the function. The call is allowed where the page is mapped and no entry of
  its walk has the bit; otherwise the child dies of a signal, and \<open>WIFEXITED\<close> of its status is false. The other pages of the
  function are as they were when it was called before.
\<close>

definition executable :: "arch \<Rightarrow> mem \<Rightarrow> u64 \<Rightarrow> u64 \<Rightarrow> bool" where
  "executable A m root va \<longleftrightarrow>
     translate m root va \<noteq> None \<and> (\<forall>p\<in>set (walk_slots m root va). \<not> bit (load64 m p) (NX_BIT A))"

definition nx_child_read :: "os \<Rightarrow> u64 \<Rightarrow> u32 \<Rightarrow> kstate \<Rightarrow> bool option" where
  "nx_child_read W nx_function pid s =
     map_option (\<lambda>pa. phys s pa \<noteq> 0) (translate (phys s) (kernel_root W pid s) (nx_function_aligned nx_function))"

definition nx_child_call :: "os \<Rightarrow> u64 \<Rightarrow> u32 \<Rightarrow> kstate \<Rightarrow> int option" where
  "nx_child_call W nx_function pid s =
     (if executable (os_arch W) (phys s) (kernel_root W pid s) (nx_function_aligned nx_function) then Some 0 else None)"

text \<open>The output: whether the child found the page mapped with content, the three bits the parent reads, and whether the child
  exited.\<close>

definition nx_main :: "os \<Rightarrow> u64 \<Rightarrow> u32 \<Rightarrow> kstate \<Rightarrow> (int \<times> bool list option \<times> kstate) option" where
  "nx_main W nx_function pid s =
     do {
       mapped \<leftarrow> nx_child_read W nx_function pid s;
       with_ptedit W (\<lambda>L s1.
         do {
           (before, after, own, s2) \<leftarrow> nx_parent W L nx_function pid s1;
           Some ([mapped, before, after, own, nx_child_call W nx_function pid s2 \<noteq> None], s2)
         }) s
     }"

text \<open>\<open>clear_bits.c\<close>: the body of \<open>main\<close> is a comment.\<close>

definition clear_bits_main :: "kstate \<Rightarrow> int \<times> kstate" where
  "clear_bits_main s = (0, s)"

subsection \<open>What set-up and clean-up do\<close>

definition device_free :: "kstate \<Rightarrow> bool" where
  "device_free s \<longleftrightarrow> misc_registered s \<and> \<not> device_busy s"

text \<open>The library after a successful \<open>ptedit_init\<close> in a new process.\<close>

definition booted :: "os \<Rightarrow> kstate \<Rightarrow> lib" where
  "booted W s = lib0\<lparr>ptedit_fd := os_dev_fd W, ptedit_umem := open_umem_file W s, ptedit_resolve_p := Some Impl_kernel,
     ptedit_update_p := Some Impl_kernel, ptedit_pagesize := os_getpagesize W,
     ptedit_paging_definition := init_paging_definition X86_64 0\<rparr>"

lemma booted_fields [simp]:
  "ptedit_fd (booted W s) = os_dev_fd W" "ptedit_umem (booted W s) = open_umem_file W s"
  "ptedit_resolve_p (booted W s) = Some Impl_kernel" "ptedit_update_p (booted W s) = Some Impl_kernel"
  "ptedit_pagesize (booted W s) = os_getpagesize W" "ptedit_vmem (booted W s) = 0"
  "booted W (s\<lparr>phys := m\<rparr>) = booted W s"
  by (simp_all add: booted_def lib0_def open_umem_file_def)

lemma init_new_process:
  assumes "os_arch W = X86_64" "0 \<le> os_dev_fd W"
  shows "ptedit_init W lib0 s =
    (if device_free s then (0, booted W s, s\<lparr>device_busy := True\<rparr>) else (-1, lib0\<lparr>ptedit_fd := -1\<rparr>, s))"
  using assms
  by (auto simp: ptedit_init_def open_device_def device_open_def EBUSY_def device_free_def booted_def lib0_def
      ptedit_use_implementation_def open_umem_file_def)

text \<open>A program: without the device it returns 1 and changes nothing; otherwise it is its body on the new library.\<close>

lemma with_ptedit_eq:
  assumes "os_arch W = X86_64" "0 \<le> os_dev_fd W"
  shows "with_ptedit W rest s =
    (if device_free s then map_option (\<lambda>(out, s2). (0, Some out, s2)) (rest (booted W s) (s\<lparr>device_busy := True\<rparr>))
     else Some (1, None, s))"
  by (simp add: with_ptedit_def init_new_process [OF assms])

lemma cleanup_frees:
  assumes "ptedit_fd L = os_dev_fd W" "0 \<le> os_dev_fd W"
  shows "\<not> device_busy (ptedit_cleanup W L s)"
  using assms by (simp add: ptedit_cleanup_def device_release_def)

text \<open>Every program body that returns has closed the device, on whichever path.\<close>

lemma bodies_free_device:
  assumes "ptedit_fd L = os_dev_fd W" "0 \<le> os_dev_fd W"
  shows "example_main W L address target touch page0 s = Some (out, s') \<Longrightarrow> \<not> device_busy s'"
    and "map_pt_edit W L target secret s = Some (out, s') \<Longrightarrow> \<not> device_busy s'"
    and "map_pt_manual_edit W L pt target secret s = Some (out, s') \<Longrightarrow> \<not> device_busy s'"
    and "nx_parent W L f pid s = Some (b1, b2, b3, s') \<Longrightarrow> \<not> device_busy s'"
    and "uncachable_main W L pt huge clock s = Some (out2, s') \<Longrightarrow> \<not> device_busy s'"
    and "tlb_test_main W L target clock2 s = (t1, t2, s') \<Longrightarrow> \<not> device_busy s'"
  using cleanup_frees [OF assms]
  by (auto simp: example_main_def map_pt_edit_def map_pt_manual_edit_def nx_parent_def uncachable_main_def tlb_test_main_def
      Let_def bind_eq_Some_conv split: if_splits option.splits prod.splits)

lemma use_implementation_fd: "ptedit_fd (fst (ptedit_use_implementation W L impl s)) = ptedit_fd L"
  by (auto simp: ptedit_use_implementation_def Let_def split: prod.splits)

lemma performance_frees_device:
  assumes "ptedit_fd L = os_dev_fd W" "0 \<le> os_dev_fd W" "performance_main W L target uninit s = Some (a, b, s')"
  shows "\<not> device_busy s'"
  using assms
  by (auto simp: performance_main_def Let_def bind_eq_Some_conv split_beta cleanup_frees use_implementation_fd)

text \<open>Only memory matters to the accesses of a process; the device does not.\<close>

lemma memset_device:
  "user_memset W a c n (s\<lparr>device_busy := b\<rparr>) = map_option (\<lambda>t. t\<lparr>device_busy := b\<rparr>) (user_memset W a c n s)"
  "user_memset W a c n s = Some t \<Longrightarrow> t = s\<lparr>phys := phys t\<rparr>"
  by (auto simp: user_memset_def option.map_comp comp_def kernel_root_def cong: option.case_cong intro!: option.map_cong)

lemma root_device [simp]: "kernel_root W pid (s\<lparr>device_busy := b\<rparr>) = kernel_root W pid s"
  by (simp add: kernel_root_def cong: option.case_cong)

lemma device_free_phys [simp]: "device_free (s\<lparr>phys := m\<rparr>) = device_free s"
  by (simp add: device_free_def)

subsection \<open>\<open>example.c\<close> and \<open>performance.c\<close>\<close>



subsection \<open>\<open>map_pt.c\<close> and \<open>map_pt_manual.c\<close>\<close>

lemma fill_device:
  "map_pt_fill W target secret touch_t touch_s (s\<lparr>device_busy := b\<rparr>) =
     map_option (\<lambda>t. t\<lparr>device_busy := b\<rparr>) (map_pt_fill W target secret touch_t touch_s s)"
  "map_pt_manual_fill W pt target secret touch_p touch_t touch_s (s\<lparr>device_busy := b\<rparr>) =
     map_option (\<lambda>t. t\<lparr>device_busy := b\<rparr>) (map_pt_manual_fill W pt target secret touch_p touch_t touch_s s)"
  "map_pt_fill W target secret touch_t touch_s s = Some t \<Longrightarrow> t = s\<lparr>phys := phys t\<rparr>"
  "map_pt_manual_fill W pt target secret touch_p touch_t touch_s s = Some t \<Longrightarrow> t = s\<lparr>phys := phys t\<rparr>"
proof -
  have comm: "(s\<lparr>device_busy := b\<rparr>)\<lparr>phys := m\<rparr> = (s\<lparr>phys := m\<rparr>)\<lparr>device_busy := b\<rparr>" for s :: kstate and m by simp
  show "map_pt_fill W target secret touch_t touch_s (s\<lparr>device_busy := b\<rparr>) =
     map_option (\<lambda>t. t\<lparr>device_busy := b\<rparr>) (map_pt_fill W target secret touch_t touch_s s)"
    by (simp add: map_pt_fill_def comm memset_device(1) map_option_bind bind_map_option comp_def)
  show "map_pt_manual_fill W pt target secret touch_p touch_t touch_s (s\<lparr>device_busy := b\<rparr>) =
     map_option (\<lambda>t. t\<lparr>device_busy := b\<rparr>) (map_pt_manual_fill W pt target secret touch_p touch_t touch_s s)"
    by (simp add: map_pt_manual_fill_def comm memset_device(1) map_option_bind bind_map_option comp_def)
  show "map_pt_fill W target secret touch_t touch_s s = Some t \<Longrightarrow> t = s\<lparr>phys := phys t\<rparr>"
    "map_pt_manual_fill W pt target secret touch_p touch_t touch_s s = Some t \<Longrightarrow> t = s\<lparr>phys := phys t\<rparr>"
    by (auto simp: map_pt_fill_def map_pt_manual_fill_def bind_eq_Some_conv user_memset_def)
qed

text \<open>A program that fills its pages first: what is known of the filling and the rest on the open device carries over.\<close>

lemma fill_then_run:
  assumes "os_arch W = X86_64" "0 \<le> os_dev_fd W" "device_free s"
    and "\<And>b. fill (s\<lparr>device_busy := b\<rparr>) = map_option (\<lambda>t. t\<lparr>device_busy := b\<rparr>) (fill s)"
    and "\<And>t. fill s = Some t \<Longrightarrow> t = s\<lparr>phys := phys t\<rparr>"
    and "do { t \<leftarrow> fill (s\<lparr>device_busy := True\<rparr>); rest (booted W s) t } = Some (out, s')"
  shows "do { t \<leftarrow> fill s; with_ptedit W rest t } = Some (0, Some out, s')"
proof -
  obtain t where t: "fill s = Some t" "rest (booted W s) (t\<lparr>device_busy := True\<rparr>) = Some (out, s')"
    using assms(6) by (auto simp: assms(4) bind_eq_Some_conv)
  have "device_free t" "booted W t = booted W s"
    using assms(3) by (subst assms(5) [OF t(1)], simp)+
  then show ?thesis using t by (simp add: with_ptedit_eq [OF assms(1,2)])
qed

text \<open>
  C10. \<open>map_pt.c\<close> from the start of its process: it fills its two pages; without the device it then returns 1. Otherwise the word
  it finds through the mapping of its page table is the entry of \<open>target\<close>, the changed entry shows the content of
  \<open>secret\<close>, and in the end memory is exactly what it was after the filling, and the device is free.\<close>

theorem map_pt_program_succeeds:
  assumes "os_arch W = X86_64" "0 \<le> os_dev_fd W"
    and "device_free s \<Longrightarrow> map_pt_ready W (booted W s) target secret ft fs touch_t touch_s (s\<lparr>device_busy := True\<rparr>)"
  shows "if device_free s
    then \<exists>s'. map_pt_program W target secret touch_t touch_s s = Some (0, Some [True, True], s')
      \<and> phys s' = write_bytes (touch_s (write_bytes (touch_t (phys s)) ft (replicate 4096 66))) fs (replicate 4096 83)
      \<and> \<not> device_busy s'
    else map_pt_program W target secret touch_t touch_s s =
      map_option (\<lambda>t. (1, None, t)) (map_pt_fill W target secret touch_t touch_s s)"
proof (cases "device_free s")
  case True
  from map_pt_succeeds [OF assms(3) [OF True]] obtain s' where
    m: "do { t \<leftarrow> map_pt_fill W target secret touch_t touch_s (s\<lparr>device_busy := True\<rparr>); map_pt_edit W (booted W s) target secret t }
        = Some ([True, True], s')"
      "phys s' = write_bytes (touch_s (write_bytes (touch_t (phys s)) ft (replicate 4096 66))) fs (replicate 4096 83)"
    by auto
  have "map_pt_program W target secret touch_t touch_s s = Some (0, Some [True, True], s')"
    unfolding map_pt_program_def
    by (rule fill_then_run [where fill = "map_pt_fill W target secret touch_t touch_s" and
          rest = "\<lambda>L. map_pt_edit W L target secret", OF assms(1,2) True fill_device(1,3) m(1)])
  moreover have "\<not> device_busy s'"
    using m(1) bodies_free_device(2) [of "booted W s" W] assms(2) by (auto simp: bind_eq_Some_conv)
  ultimately show ?thesis using True m(2) by simp
next
  case False
  have "device_free t = device_free s" if "map_pt_fill W target secret touch_t touch_s s = Some t" for t
    by (subst fill_device(3) [OF that]) simp
  then show ?thesis
    using False by (cases "map_pt_fill W target secret touch_t touch_s s")
      (simp_all add: map_pt_program_def with_ptedit_eq [OF assms(1,2)])
qed

text \<open>
  C11. \<open>map_pt_manual.c\<close> from the start of its process: the same, with nothing but page-table entries; both comparisons hold, and in
  the end both entries and all of memory are what they were after the filling, and the device is free.\<close>

theorem map_pt_manual_program_succeeds:
  assumes "os_arch W = X86_64" "0 \<le> os_dev_fd W"
    and "M0 = touch_p (phys s)" "M1 = touch_t (write_bytes M0 fp (replicate 4096 65))"
      "M2 = touch_s (write_bytes M1 ft (replicate 4096 66))"
    and "device_free s \<Longrightarrow> manual_ready W (booted W s) pt target secret fp ft fs M0 M1 M2 (s\<lparr>device_busy := True\<rparr>)"
  shows "if device_free s
    then \<exists>s'. map_pt_manual_program W pt target secret touch_p touch_t touch_s s = Some (0, Some [True, True], s')
      \<and> phys s' = write_bytes M2 fs (replicate 4096 83) \<and> \<not> device_busy s'
    else map_pt_manual_program W pt target secret touch_p touch_t touch_s s =
      map_option (\<lambda>t. (1, None, t)) (map_pt_manual_fill W pt target secret touch_p touch_t touch_s s)"
proof (cases "device_free s")
  case True
  have "M0 = touch_p (phys (s\<lparr>device_busy := True\<rparr>))" using assms(3) by simp
  from map_pt_manual_succeeds [where touch_p = touch_p and touch_t = touch_t and touch_s = touch_s, OF this assms(4,5) assms(6) [OF True]] obtain s' where
    m: "do { t \<leftarrow> map_pt_manual_fill W pt target secret touch_p touch_t touch_s (s\<lparr>device_busy := True\<rparr>);
          map_pt_manual_edit W (booted W s) pt target secret t } = Some ([True, True], s')"
      "phys s' = write_bytes M2 fs (replicate 4096 83)"
    by auto
  have "map_pt_manual_program W pt target secret touch_p touch_t touch_s s = Some (0, Some [True, True], s')"
    unfolding map_pt_manual_program_def
    by (rule fill_then_run [where fill = "map_pt_manual_fill W pt target secret touch_p touch_t touch_s" and
          rest = "\<lambda>L. map_pt_manual_edit W L pt target secret", OF assms(1,2) True fill_device(2,4) m(1)])
  moreover have "\<not> device_busy s'"
    using m(1) bodies_free_device(3) [of "booted W s" W] assms(2) by (auto simp: bind_eq_Some_conv)
  ultimately show ?thesis using True m(2) by simp
next
  case False
  have "device_free t = device_free s" if "map_pt_manual_fill W pt target secret touch_p touch_t touch_s s = Some t" for t
    by (subst fill_device(4) [OF that]) simp
  then show ?thesis
    using False by (cases "map_pt_manual_fill W pt target secret touch_p touch_t touch_s s")
      (simp_all add: map_pt_manual_program_def with_ptedit_eq [OF assms(1,2)])
qed

subsection \<open>\<open>nx.c\<close>\<close>

lemma nx_page_aligned: "take_bit 12 (nx_function_aligned f) = 0"
proof -
  have "(0xfff :: u64) = mask 12" by (simp add: mask_eq_exp_minus_1)
  then show ?thesis by (intro bit_word_eqI) (auto simp: nx_function_aligned_def bit_simps)
qed

text \<open>The tables of the two processes: both walks reach an entry for the page, the child's entry is present, in no other walk, and
  alone decides whether the child may execute the page.\<close>

definition nx_ready :: "os \<Rightarrow> lib \<Rightarrow> u64 \<Rightarrow> u32 \<Rightarrow> kstate \<Rightarrow> bool" where
  "nx_ready W L a pid s \<longleftrightarrow>
     (let m = phys s; rc = kernel_root W pid s; ro = kernel_root W 0 s
      in kernel_ready W L a pid s \<and> kernel_ready W L a 0 s \<and> reaches_pte m rc a \<and> reaches_pte m ro a
       \<and> pte_separate m rc a \<and> slot_apart (pte_slot m rc a) m ro a \<and> bit (load64 m (pte_slot m rc a)) 0
       \<and> (\<forall>p\<in>set (upper_slots m rc a). \<not> bit (load64 m p) 63))"

lemma executable_reaches:
  assumes "reaches_pte m r a" "bit (load64 m (pte_slot m r a)) 0" "\<forall>p\<in>set (upper_slots m r a). \<not> bit (load64 m p) 63"
  shows "executable X86_64 m r a \<longleftrightarrow> \<not> bit (load64 m (pte_slot m r a)) 63"
  using assms by (simp add: executable_def translate_reaches walk_slots_def NX_BIT_def)

text \<open>
  C18. \<open>nx.c\<close> from \<open>fork\<close> on. As the tables are at first, with the bit set in the child's entry, the child's call would end it.
  Without the device the parent returns 1 and changes nothing. Otherwise the parent reads the bits as they are, clears the
  child's and finds it cleared and its own unchanged; the child's call then succeeds; memory differs from before in
  that one bit of the child's entry, and the device is free.\<close>

theorem nx_program_succeeds:
  assumes "os_arch W = X86_64" "0 \<le> os_dev_fd W"
    and "nx_ready W (booted W s) (nx_function_aligned f) pid (s\<lparr>device_busy := True\<rparr>)"
  shows "let a = nx_function_aligned f; m = phys s; q = pte_slot m (kernel_root W pid s) a; child = load64 m q;
      own = load64 m (pte_slot m (kernel_root W 0 s) a)
    in (bit child 63 \<longrightarrow> nx_child_call W f pid s = None)
     \<and> (if device_free s
        then \<exists>s'. nx_main W f pid s = Some (0, Some [m (table_base child) \<noteq> 0, bit child 63, False, bit own 63, True], s')
          \<and> phys s' = store64 m q (child AND NOT (push_bit 63 1)) \<and> \<not> device_busy s'
        else nx_main W f pid s = Some (1, None, s))"
proof -
  define a where "a = nx_function_aligned f"
  define m where "m = phys s"
  define r where "r = kernel_root W pid s"
  define ro where "ro = kernel_root W 0 s"
  define child where "child = load64 m (pte_slot m r a)"
  let ?L = "booted W s" and ?s = "s\<lparr>device_busy := True\<rparr>"
  note rd = assms(3) [unfolded nx_ready_def Let_def, folded a_def, simplified, folded m_def r_def ro_def, folded child_def]
  have k: "kernel_ready W ?L a pid ?s" "kernel_ready W ?L a 0 ?s" and w: "reaches_pte m r a" "reaches_pte m ro a"
      "pte_separate m r a" "slot_apart (pte_slot m r a) m ro a" "bit child 0" "\<forall>p\<in>set (upper_slots m r a). \<not> bit (load64 m p) 63"
    using rd by simp_all
  have roots: "pte_root W ?L pid ?s = r" "pte_root W ?L 0 ?s = ro" by (simp_all add: pte_root_def r_def ro_def)
  have nx: "NX_BIT (os_arch W) = 63" by (simp add: NX_BIT_def assms(1))
  have call: "nx_child_call W f pid t = (if executable X86_64 (phys t) (kernel_root W pid t) a then Some 0 else None)" for t
    by (simp add: nx_child_call_def a_def assms(1))
  have before: "bit child 63 \<longrightarrow> nx_child_call W f pid s = None"
    using executable_reaches [OF w(1)] w(5,6) by (simp add: call child_def m_def r_def)
  have read: "nx_child_read W f pid s = Some (m (table_base child) \<noteq> 0)"
    using translate_reaches [OF w(1)] w(5) nx_page_aligned [of f]
    by (simp add: nx_child_read_def a_def child_def m_def r_def)
  let ?m = "store64 m (pte_slot m r a) (child AND NOT (push_bit 63 1))"
  have "pte_ready W ?L a pid ?s" "pte_ready W ?L a 0 ?s" using k by (simp_all add: pte_ready_def)
  with w(1-4) obtain s' where p: "nx_parent W ?L f pid ?s = Some (bit child 63, False, bit (load64 m (pte_slot m ro a)) 63, s')"
      "phys s' = ?m" "mm_pgd s' = mm_pgd s"
    using nx_child_executable [of W ?L f pid ?s, unfolded nx Let_def, folded a_def, unfolded roots]
    by (auto simp: m_def child_def)
  have "kernel_root W pid s' = r" using p(3) by (simp add: kernel_root_def r_def cong: option.case_cong)
  moreover have "executable X86_64 ?m r a"
    using executable_reaches [of ?m r a] write_pte [OF w(3), of "child AND NOT (push_bit 63 1)"] w(1,3,5,6)
    by (auto simp: bit_simps pte_separate_def load64_store64_apart)
  ultimately have after: "nx_child_call W f pid s' = Some 0" by (simp add: call p(2))
  have "\<not> device_busy s'" using bodies_free_device(4) [OF _ assms(2) p(1)] by simp
  then show ?thesis
    unfolding Let_def a_def [symmetric] m_def [symmetric] r_def [symmetric] ro_def [symmetric] child_def [symmetric]
    using before read p after by (simp add: nx_main_def with_ptedit_eq [OF assms(1,2)])
qed

subsection \<open>\<open>tlb_test.c\<close> and \<open>uncachable.c\<close>\<close>

text \<open>
  \<open>tlb_test.c\<close> from the start of its process: it returns 1 and changes nothing without the device; otherwise it flushes the page
  \<open>REPEAT\<close> times with the kernel's function and then \<open>REPEAT\<close> times with the custom one, which stays selected for the
  programs that follow. The first number is the time of the first rounds; the second is the time of all rounds.\<close>

lemma tlb_test_program_flushes:
  assumes "os_arch W = X86_64" "0 \<le> os_dev_fd W"
  shows "if device_free s
    then \<exists>s'. tlb_test_program W target clock s
        = Some (0, Some (sum_list (map (round_time clock) [0..<REPEAT]), sum_list (map (round_time clock) [0..<2 * REPEAT])), s')
      \<and> events s' = events s
          @ concat (replicate REPEAT (flush_events (os_kernel W) target (Some Invalidate_tlb_kernel)))
          @ concat (replicate REPEAT (flush_events (os_kernel W) target (Some Invalidate_tlb_custom)))
      \<and> invalidate_tlb_p s' = Some Invalidate_tlb_custom \<and> phys s' = phys s \<and> \<not> device_busy s'
    else tlb_test_program W target clock s = Some (1, None, s)"
proof (cases "device_free s")
  case True
  have "dev_open W (booted W s) (s\<lparr>device_busy := True\<rparr>)" by (simp add: dev_open_def)
  from tlb_test_flushes [OF this, of target clock] obtain s' where
    t: "tlb_test_main W (booted W s) target clock (s\<lparr>device_busy := True\<rparr>)
        = (sum_list (map (round_time clock) [0..<REPEAT]), sum_list (map (round_time clock) [0..<2 * REPEAT]), s')"
      "events s' = events s
          @ concat (replicate REPEAT (flush_events (os_kernel W) target (Some Invalidate_tlb_kernel)))
          @ concat (replicate REPEAT (flush_events (os_kernel W) target (Some Invalidate_tlb_custom)))"
      "invalidate_tlb_p s' = Some Invalidate_tlb_custom" "phys s' = phys s"
    by auto
  then show ?thesis
    using True bodies_free_device(6) [OF _ assms(2) t(1)]
    by (simp add: tlb_test_program_def with_ptedit_eq [OF assms])
qed (simp add: tlb_test_program_def with_ptedit_eq [OF assms])

text \<open>
  C31. \<open>uncachable.c\<close> from the start of its process, where the PAT has types of both kinds: it fills its page; without the device it
  then returns 1. Otherwise it runs to its end, with or without a 2 MiB page. In the end the entry of the 4 KiB page has
  the first write-back type and is otherwise what it was, nothing else in memory has changed, and the device is free.\<close>

theorem uncachable_program_restores:
  assumes "os_arch W = X86_64" "0 \<le> os_dev_fd W"
    and "user_memset W pt 65 4096 (s\<lparr>phys := touch (phys s)\<rparr>) = Some t" "t1 = t\<lparr>device_busy := True\<rparr>"
    and "uncachable_ready W (booted W s) pt huge_page t1"
    and "ptedit_find_first_mt W (booted W s) 0 t1 \<noteq> -1" "ptedit_find_first_mt W (booted W s) 6 t1 \<noteq> -1"
  shows "let q = pte_slot (phys t) (kernel_root W 0 t) pt; e = load64 (phys t) q;
      wb = word_of_int (ptedit_find_first_mt W (booted W s) 6 t1)
    in if device_free s
      then \<exists>s'. uncachable_program W pt huge_page touch clock s
          = Some (0, Some (page_output W (booted W s) e clock t1 @ huge_output W (booted W s) huge_page clock t1), s')
        \<and> phys s' = store64 (phys t) q (ptedit_apply_mt X86_64 e wb)
        \<and> (ptedit_extract_mt X86_64 e = wb \<longrightarrow> phys s' = phys t) \<and> \<not> device_busy s'
      else uncachable_program W pt huge_page touch clock s = Some (1, None, t)"
proof -
  have t: "t = s\<lparr>phys := phys t\<rparr>" using memset_device(2) [OF assms(3)] by simp
  have dev: "device_free t = device_free s" "booted W t = booted W s" by (subst t, simp)+
  obtain s' where u: "uncachable_main W (booted W s) pt huge_page clock t1
        = Some (page_output W (booted W s) (load64 (phys t1) (pte_slot (phys t1) (kernel_root W 0 t1) pt)) clock t1
            @ huge_output W (booted W s) huge_page clock t1, s')"
      "phys s' = store64 (phys t1) (pte_slot (phys t1) (kernel_root W 0 t1) pt)
        (ptedit_apply_mt X86_64 (load64 (phys t1) (pte_slot (phys t1) (kernel_root W 0 t1) pt))
          (word_of_int (ptedit_find_first_mt W (booted W s) 6 t1)))"
      "ptedit_extract_mt X86_64 (load64 (phys t1) (pte_slot (phys t1) (kernel_root W 0 t1) pt))
        = word_of_int (ptedit_find_first_mt W (booted W s) 6 t1) \<Longrightarrow> phys s' = phys t1"
    using uncachable_restores [OF assms(5-7), of clock] unfolding Let_def by blast
  have same: "phys t1 = phys t" "kernel_root W 0 t1 = kernel_root W 0 t" by (simp_all add: assms(4))
  have "\<not> device_busy s'" using bodies_free_device(5) [OF _ assms(2) u(1)] by simp
  then show ?thesis
    unfolding Let_def using u
    by (auto simp: uncachable_program_def assms(3) with_ptedit_eq [OF assms(1,2)] dev same simp flip: assms(4))
qed

subsection \<open>\<open>memmap.c\<close> and \<open>virt2phys.c\<close>\<close>

lemma digit_char_digit:
  assumes "d < 10"
  shows "is_digit (digit_char d)" "\<not> is_space (digit_char d)" "digit_char d \<noteq> CHR ''-''" "digit_char d \<noteq> CHR ''+''"
proof -
  have c: "of_char (digit_char d) = 48 + d" using of_char_digit_char [of d] assms by simp
  show "is_digit (digit_char d)" "\<not> is_space (digit_char d)" using c assms by (simp_all add: is_digit_def is_space_def)
  show "digit_char d \<noteq> CHR ''-''" "digit_char d \<noteq> CHR ''+''"
    using c by (auto dest: arg_cong [where f = "of_char :: _ \<Rightarrow> nat"])
qed

lemma digits_10: "c \<in> set (digits k 10 n) \<Longrightarrow> \<exists>d<10. c = digit_char d"
  by (induction k arbitrary: n) (auto split: if_splits intro: exI [where x = "n mod 10" for n])

text \<open>Reading a number back.\<close>

lemma atoi_digits:
  assumes "n < 10 ^ Suc k"
  shows "atoi (digits k 10 n) = int n"
proof -
  obtain c t where ct: "digits k 10 n = c # t" by (cases "digits k 10 n") simp_all
  have all: "\<forall>x\<in>set (c # t). is_digit x" using digits_10 [of _ k n] digit_char_digit(1) unfolding ct by blast
  obtain d where "d < 10" "c = digit_char d" using digits_10 [of c k n] ct by auto
  then have "\<not> is_space c" "c \<noteq> CHR ''-''" "c \<noteq> CHR ''+''" using digit_char_digit by auto
  moreover have "takeWhile is_digit (c # t) = c # t" using all by (simp only: takeWhile_eq_all_conv)
  moreover have "digits_val 10 (c # t) = n" using digits_val_digits [of 10 n k] assms ct by simp
  ultimately show ?thesis by (simp only: atoi_def ct Let_def dropWhile.simps if_False list.case)
qed

lemma memmap_pid_digits:
  assumes "n < 2 ^ 31"
  shows "size_to_int (memmap_pid [prog, digits 9 10 n]) = of_nat n" "memmap_pid [prog] = 0"
  using assms atoi_digits [of n 9] by (simp_all add: memmap_pid_def size_to_int_def unsigned_of_nat take_bit_nat_eq_self)

text \<open>
  C22. \<open>memmap\<close> with the decimal number of a process, from the start: without the device it returns 1 and changes nothing. Otherwise
  it returns 0, leaves memory alone and the device free, and its listing is complete and correct for that process:
  without 1 GiB pages, the 4 KiB pages it prints are exactly the mapped page addresses of the lower half whose walk
  reaches the page table, the 2 MiB pages exactly the mapped large pages, and the memory usage is the sum of their
  sizes.\<close>

theorem memmap_main_lists:
  assumes "os_arch W = X86_64" "0 \<le> os_dev_fd W" "pid < 2 ^ 31"
    and "tables_readable W (booted W s) (s\<lparr>device_busy := True\<rparr>)" "get_mm (os_kernel W) (int_to_size (of_nat pid)) \<noteq> None"
    and "take_bit 12 (kernel_root W (of_nat pid) s) = 0" "unat (kernel_root W (of_nat pid) s) < 2 ^ 52"
    and "no_gib_pages (phys s) (kernel_root W (of_nat pid) s)"
  shows "let argv = [prog, digits 9 10 pid]; m = phys s; root = kernel_root W (of_nat pid) s
    in if device_free s
      then \<exists>txt st s'. memmap_main W argv stack s = Some (0, Some (txt, st), s') \<and> phys s' = m \<and> \<not> device_busy s'
        \<and> (\<forall>va. Page va \<in> set (mm_out st) \<longleftrightarrow>
             unat va < 2 ^ 47 \<and> take_bit 12 va = 0 \<and> reaches_pte m root va \<and> translate m root va \<noteq> None)
        \<and> (\<forall>va. Large va \<in> set (mm_out st) \<longleftrightarrow>
             unat va < 2 ^ 47 \<and> take_bit 21 va = 0 \<and> \<not> reaches_pte m root va \<and> translate m root va \<noteq> None)
        \<and> mm_usage st = items_size (mm_out st)
      else memmap_main W argv stack s = Some (1, None, s)"
proof (cases "device_free s")
  case True
  let ?L = "booted W s" and ?s = "s\<lparr>device_busy := True\<rparr>" and ?p = "of_nat pid :: u32"
  have o: "dev_open W ?L ?s" by (simp add: dev_open_def)
  obtain st t where d: "memmap_dump W ?L ?p stack ?s = (st, t)" by fastforce
  have t: "phys t = phys s"
    using d assms(5) by (auto simp: memmap_dump_def get_paging_root_eq o Let_def)
  have main: "\<exists>txt. memmap_main W [prog, digits 9 10 pid] stack s = Some (0, Some (txt, st), ptedit_cleanup W ?L t)"
    using True d by (simp add: memmap_main_def with_ptedit_eq [OF assms(1,2)] memmap_pid_digits(1) [OF assms(3)] Let_def)
  have free: "\<not> device_busy (ptedit_cleanup W ?L t)" "phys (ptedit_cleanup W ?L t) = phys s"
    using cleanup_frees [of ?L W] assms(2) t by (simp_all add: ptedit_cleanup_def device_release_def)
  have li: "(\<forall>va. Page va \<in> set (mm_out st) \<longleftrightarrow> unat va < 2 ^ 47 \<and> take_bit 12 va = 0
        \<and> reaches_pte (phys s) (kernel_root W ?p s) va \<and> translate (phys s) (kernel_root W ?p s) va \<noteq> None)
      \<and> (\<forall>va. Large va \<in> set (mm_out st) \<longleftrightarrow> unat va < 2 ^ 47 \<and> take_bit 21 va = 0
        \<and> \<not> reaches_pte (phys s) (kernel_root W ?p s) va \<and> translate (phys s) (kernel_root W ?p s) va \<noteq> None)
      \<and> mm_usage st = items_size (mm_out st)"
    using memmap_lists_mappings [OF assms(4) o assms(5), of stack] assms(6-8) d by (simp add: Let_def)
  show ?thesis unfolding Let_def using True main free li by auto
qed (simp add: memmap_main_def with_ptedit_eq [OF assms(1,2)])

text \<open>
  \<open>virt2phys\<close>, from the start: without the device it returns 1; otherwise it prints a number, leaves memory alone and the
  device free. For a mapped address outside 1 GiB pages the number is the physical address if the page is a 4 KiB one;
  for a 2 MiB page it is not, unless the frame number is 0.\<close>

lemma virt2phys_main_correct:
  assumes "os_arch W = X86_64" "0 \<le> os_dev_fd W" "kernel_ready W (booted W s) a 0 (s\<lparr>device_busy := True\<rparr>)"
    and "\<not> bit (load64 (phys s) (pud_slot (phys s) (kernel_root W 0 s) a)) 7"
    and "translate (phys s) (kernel_root W 0 s) a = Some pa"
  shows "if device_free s
    then \<exists>n s'. virt2phys_main W a s = Some (0, Some n, s') \<and> phys s' = phys s \<and> \<not> device_busy s'
      \<and> (n = pa \<longleftrightarrow> reaches_pte (phys s) (kernel_root W 0 s) a
           \<or> ptedit_get_pfn X86_64 (load64 (phys s) (pmd_slot (phys s) (kernel_root W 0 s) a)) = 0)
    else virt2phys_main W a s = Some (1, None, s)"
proof (cases "device_free s")
  case True
  from virt2phys_kernel [OF assms(3,1)] assms(4,5) obtain n es where
    v: "virt2phys W (booted W s) a (s\<lparr>device_busy := True\<rparr>) = Some (n, log_events es (s\<lparr>device_busy := True\<rparr>))"
      "n = pa \<longleftrightarrow> reaches_pte (phys s) (kernel_root W 0 s) a
           \<or> ptedit_get_pfn X86_64 (load64 (phys s) (pmd_slot (phys s) (kernel_root W 0 s) a)) = 0"
    by auto
  have "\<not> device_busy (ptedit_cleanup W (booted W s) t)" "phys (ptedit_cleanup W (booted W s) t) = phys t" for t
    using cleanup_frees [of "booted W s" W] assms(2) by (simp_all add: ptedit_cleanup_def device_release_def)
  then show ?thesis
    using True v by (simp add: virt2phys_main_def with_ptedit_eq [OF assms(1,2)])
qed (simp add: virt2phys_main_def with_ptedit_eq [OF assms(1,2)])

subsection \<open>Runs on the concrete system\<close>

text \<open>The state of the other theories before the device is opened, with \<open>/proc/umem\<close> there.\<close>

definition demo_start :: kstate where
  "demo_start = demo_kstate\<lparr>umem_entry := True\<rparr>"

abbreviation demo_booted :: lib where
  "demo_booted \<equiv> booted demo_os demo_start"

lemma demo_start_simps [simp]:
  "device_free demo_start" "phys demo_start = demo_mem" "mm_pgd (demo_start) = mm_pgd demo_open"
  "device_free (s\<lparr>mm_pgd := p\<rparr>) = device_free s" "booted W (s\<lparr>mm_pgd := p\<rparr>) = booted W s"
  by (simp_all add: demo_start_def device_free_def demo_kstate_def demo_open_def booted_def open_umem_file_def)

lemma demo_os_simps: "os_arch demo_os = X86_64" "0 \<le> os_dev_fd demo_os"
  by (simp_all add: demo_os_def)

text \<open>What the predicates on the library ask of it holds for the library after \<open>ptedit_init\<close> as it does for the one of the
  other theories.\<close>

lemma demo_booted_eqs:
  "phys t' = phys t \<Longrightarrow> mm_pgd t' = mm_pgd t \<Longrightarrow> device_busy t' = device_busy t \<Longrightarrow>
     kernel_ready demo_os demo_booted a pid t' = kernel_ready demo_os demo_lib_kernel a pid t"
  "device_busy t' = device_busy t \<Longrightarrow> phys_page_ok demo_os demo_booted pfn t' = phys_page_ok demo_os demo_lib_kernel pfn t"
  "mmap_umem demo_os demo_booted len off = mmap_umem demo_os demo_lib_kernel len off"
  "pmap_ok demo_os demo_booted p n = pmap_ok demo_os demo_lib_kernel p n"
proof -
  have f: "ptedit_fd demo_lib_kernel = os_dev_fd demo_os" "ptedit_umem demo_booted = ptedit_umem demo_lib_kernel"
      "ptedit_pagesize demo_booted = ptedit_pagesize demo_lib_kernel"
      "ptedit_resolve_p demo_lib_kernel = Some Impl_kernel" "ptedit_update_p demo_lib_kernel = Some Impl_kernel"
    by (simp_all add: demo_lib_kernel_def demo_lib_def open_umem_file_def demo_start_def) (simp_all add: demo_os_def)
  show "phys t' = phys t \<Longrightarrow> mm_pgd t' = mm_pgd t \<Longrightarrow> device_busy t' = device_busy t \<Longrightarrow>
     kernel_ready demo_os demo_booted a pid t' = kernel_ready demo_os demo_lib_kernel a pid t"
    by (simp add: kernel_ready_def dev_open_def kernel_root_def f cong: option.case_cong)
  show "device_busy t' = device_busy t \<Longrightarrow> phys_page_ok demo_os demo_booted pfn t' = phys_page_ok demo_os demo_lib_kernel pfn t"
    by (simp only: phys_page_ok_def dev_open_def umem_ok_def f booted_fields(1))
  show "mmap_umem demo_os demo_booted len off = mmap_umem demo_os demo_lib_kernel len off"
    "pmap_ok demo_os demo_booted p n = pmap_ok demo_os demo_lib_kernel p n"
    by (simp_all only: mmap_umem_def pmap_ok_def f)
qed

lemma demo_opened [simp]:
  "device_busy demo_open" "kernel_root demo_os 0 demo_start = demo_root"
  using demo_kernel_root by (simp_all add: demo_open_def demo_start_def kernel_root_def cong: option.case_cong)



theorem map_pt_program_succeeds_witness:
  "\<exists>s'. map_pt_program demo_os 0x8080604000 0x8080606000 demo_touch touch_third demo_start = Some (0, Some [True, True], s')
    \<and> phys s' = write_bytes (touch_third (write_bytes (demo_touch demo_mem) 0x5000 (replicate 4096 66))) 0x7000 (replicate 4096 83)
    \<and> \<not> device_busy s'"
proof -
  let ?M = "touch_third (write_bytes region_mem 0x5000 (replicate 4096 66))"
  have M: "shows_pages ?M"
    by (simp add: shows_pages_def touch_third_def load64_store64_same load64_store64_apart apart_def
        load64_write_bytes_apart region_loads)
  have M1: "maps_page region_mem demo_root 0x8080604000 0x5000" "frame_apart 0x5000 region_mem demo_root 0x8080604000"
    using region_walk(2,4) [of "0x8080604000"]
    by (simp_all add: maps_page_def region_pte_slots region_loads) (simp add: table_base_def field_def)
  have nar: "narrow 0x4067" by (simp add: narrow_def field_def)
  have ini: "demo_touch demo_mem = region_mem" by (simp add: region_mem_def)
  note w1 = shows_walk [OF M, of "0x8080604000"] and w2 = shows_walk [OF M, of "0x8080606000"]
  have "map_pt_ready demo_os demo_booted 0x8080604000 0x8080606000 0x5000 0x7000 demo_touch touch_third (demo_start\<lparr>device_busy := True\<rparr>)"
    unfolding map_pt_ready_def Let_def
    using M1 w1 w2 nar demo_pmap_ok
    by (simp add: ini demo_os_simps demo_booted_eqs(1) [where t = "demo_open\<lparr>phys := m\<rparr>" for m] demo_booted_eqs(4))
  from map_pt_program_succeeds [OF demo_os_simps, of demo_start, OF this] show ?thesis by simp
qed

theorem map_pt_manual_program_succeeds_witness:
  "\<exists>s'. map_pt_manual_program demo_os 0x8080606000 0x8080604000 0x8080605000 id id id (demo_start\<lparr>phys := touch_third region_mem\<rparr>)
      = Some (0, Some [True, True], s')
    \<and> phys s' = write_bytes (write_bytes (write_bytes (touch_third region_mem) 0x7000 (replicate 4096 65))
        0x5000 (replicate 4096 66)) 0x6000 (replicate 4096 83)"
proof -
  let ?M0 = "touch_third region_mem" and ?s = "demo_start\<lparr>phys := touch_third region_mem\<rparr>"
  let ?M1 = "write_bytes ?M0 0x7000 (replicate 4096 65)"
  let ?M2 = "write_bytes ?M1 0x5000 (replicate 4096 66)"
  let ?m = "write_bytes ?M2 0x6000 (replicate 4096 83)"
  have M: "?M0 = id (phys ?s)" "?M1 = id (write_bytes ?M0 0x7000 (replicate 4096 65))"
      "?M2 = id (write_bytes ?M1 0x5000 (replicate 4096 66))"
    by simp_all
  have M1: "shows_pages ?M1" by (rule shows_write [OF shows_touch]) simp
  then have M2: "shows_pages ?M2" by (rule shows_write) simp
  then have m: "shows_pages ?m" by (rule shows_write) simp
  note w0 = shows_walk [OF shows_touch] and w1 = shows_walk [OF M1] and w2 = shows_walk [OF M2] and w = shows_walk [OF m]
  have k: "kernel_ready demo_os (booted demo_os ?s) a 0 (?s\<lparr>device_busy := True, phys := n\<rparr>)
      = kernel_ready demo_os demo_lib_kernel a 0 (demo_open\<lparr>phys := n\<rparr>)" for a n
    unfolding booted_fields(7) by (rule demo_booted_eqs(1)) simp_all
  have r: "kernel_root demo_os 0 (?s\<lparr>device_busy := True\<rparr>) = demo_root" by simp
  have "manual_ready demo_os (booted demo_os ?s) 0x8080606000 0x8080604000 0x8080605000 0x7000 0x5000 0x6000 ?M0 ?M1 ?M2
      (?s\<lparr>device_busy := True\<rparr>)"
    unfolding manual_ready_def Let_def r k
    using w0(2) [of "0x8080606000"] w0(4) [of "0x8080606000" "0x7000"] w1(2) [of "0x8080604000"] w1(4) [of "0x8080604000" "0x5000"]
      w2(2) [of "0x8080605000"] w2(4) [of "0x8080605000" "0x6000"] w(1,3,4) w(2) [of "0x8080606000"] w(2) [of "0x8080604000"]
      w(2) [of "0x8080605000"] w(5) [of "0x8080606000" "0x8080604000"] w(5) [of "0x8080604000" "0x8080606000"]
    by (simp add: demo_os_simps)
  from map_pt_manual_program_succeeds [where touch_p = id and touch_t = id and touch_s = id, OF demo_os_simps M this]
  show ?thesis by auto
qed

definition nx_start :: kstate where
  "nx_start = demo_start\<lparr>phys := nx_mem, mm_pgd := mm_pgd nx_open\<rparr>"

theorem nx_program_succeeds_witness:
  "nx_child_call demo_os 0x8080603123 4 nx_start = None
   \<and> (\<exists>s'. nx_main demo_os 0x8080603123 4 nx_start = Some (0, Some [nx_mem 0x5000 \<noteq> 0, True, False, True, True], s')
        \<and> phys s' = store64 nx_mem 0xc020 0x5067)"
proof -
  let ?s = "nx_start\<lparr>device_busy := True\<rparr>"
  have a: "nx_function_aligned 0x8080603123 = 0x8080604000" by (simp add: nx_function_aligned_def)
  have st: "phys nx_start = nx_mem" "device_free nx_start" "booted demo_os nx_start = demo_booted"
    by (simp_all add: nx_start_def)
  have roots: "kernel_root demo_os 0 nx_start = demo_root" "kernel_root demo_os 4 nx_start = 0x9000"
    by (simp_all add: kernel_root_def demo_os_def int_to_size_def nx_start_def nx_open_def get_mm_def)
      (simp_all add: linux_x86_def)
  have reg: "regular_walk (os_kernel demo_os) nx_mem demo_root 0x8080604000"
      "regular_walk (os_kernel demo_os) nx_mem 0x9000 0x8080604000"
    unfolding regular_walk_def Let_def nx_slots nx_loads
    by (simp_all add: demo_os_def linux_x86_def direct_def table_base_def field_def demo_root_def)
  have mm: "get_mm (os_kernel demo_os) (int_to_size p) \<noteq> None" if "p \<in> {0, 4}" for p
    using that by (auto simp: get_mm_def demo_os_def int_to_size_def linux_x86_def)
  have k: "kernel_ready demo_os demo_booted 0x8080604000 p ?s" if "p \<in> {0, 4}" for p
    using demo_kernel_ready mm [OF that] reg roots that st by (auto simp: kernel_ready_def dev_open_def)
  have w: "reaches_pte nx_mem 0x9000 0x8080604000" "reaches_pte nx_mem demo_root 0x8080604000"
      "pte_separate nx_mem 0x9000 0x8080604000" "slot_apart 0xc020 nx_mem demo_root 0x8080604000"
      "\<forall>p\<in>set (upper_slots nx_mem 0x9000 0x8080604000). \<not> bit (load64 nx_mem p) 63"
    unfolding reaches_pte_def pte_separate_def slot_apart_def walk_slots_def upper_slots_def nx_slots nx_loads
    by (simp_all add: apart_def nx_loads)
  have "nx_ready demo_os (booted demo_os nx_start) (nx_function_aligned 0x8080603123) 4 ?s"
    using k w by (simp add: nx_ready_def a st roots nx_slots nx_loads Let_def)
  from nx_program_succeeds [OF demo_os_simps this]
  have "(bit (0x8000000000005067::u64) 63 \<longrightarrow> nx_child_call demo_os 0x8080603123 4 nx_start = None)
     \<and> (\<exists>s'. nx_main demo_os 0x8080603123 4 nx_start
          = Some (0, Some [nx_mem (table_base 0x8000000000005067) \<noteq> 0, bit (0x8000000000005067::u64) 63, False,
              bit (0x8000000000005067::u64) 63, True], s')
        \<and> phys s' = store64 nx_mem 0xc020 (0x8000000000005067 AND NOT (push_bit 63 1)) \<and> \<not> device_busy s')"
    unfolding Let_def a st roots nx_slots nx_loads if_P [OF st(2)] .
  moreover have "(0x8000000000005067 :: u64) AND NOT (push_bit 63 1) = 0x5067" "bit (0x8000000000005067 :: u64) 63"
      "table_base 0x8000000000005067 = 0x5000"
    by (simp_all add: table_base_def field_def)
  ultimately show ?thesis by auto
qed

text \<open>An address space with a 2 MiB page beside the 4 KiB page.\<close>

definition shows_huge :: "mem \<Rightarrow> bool" where
  "shows_huge m \<longleftrightarrow> load64 m 0x1008 = 0x2067 \<and> load64 m 0x2010 = 0x3067 \<and> load64 m 0x3018 = 0x4067
     \<and> load64 m 0x4020 = 0x5067 \<and> load64 m 0x3020 = 0x2000e7"

definition touch_huge :: "mem \<Rightarrow> mem" where "touch_huge m = store64 m 0x3020 0x2000e7"

lemma shows_huge_fill: "shows_huge (touch_huge demo_mem)" "shows_huge (write_bytes (touch_huge demo_mem) 0x5000 (replicate 4096 65))"
  by (simp_all add: shows_huge_def touch_huge_def load64_store64_same load64_store64_apart load64_write_bytes_apart apart_def demo_loads)

lemma huge_slots:
  assumes "shows_huge m"
  shows "pgd_slot demo_root 0x8080604000 = 0x1008" "pud_slot m demo_root 0x8080604000 = 0x2010"
    "pmd_slot m demo_root 0x8080604000 = 0x3018" "pte_slot m demo_root 0x8080604000 = 0x4020"
    "pgd_slot demo_root 0x8080800000 = 0x1008" "pud_slot m demo_root 0x8080800000 = 0x2010"
    "pmd_slot m demo_root 0x8080800000 = 0x3020"
  using assms
  by (simp_all add: shows_huge_def pgd_slot_def pud_slot_def pmd_slot_def pte_slot_def slot_def demo_root_def field_def table_base_def)

lemma huge_walk:
  assumes "shows_huge m"
  shows "regular_walk (os_kernel demo_os) m demo_root 0x8080604000" "regular_walk (os_kernel demo_os) m demo_root 0x8080800000"
    "maps_page m demo_root 0x8080604000 0x5000" "frame_apart 0x5000 m demo_root 0x8080604000"
    "pte_separate m demo_root 0x8080604000" "maps_huge m demo_root 0x8080800000" "pmd_separate m demo_root 0x8080800000"
    "\<forall>p\<in>set (upper_slots m demo_root 0x8080800000). apart (pte_slot m demo_root 0x8080604000) 8 p 8"
proof -
  note sl = huge_slots [OF assms] and ld = assms [unfolded shows_huge_def]
  show "regular_walk (os_kernel demo_os) m demo_root 0x8080604000" "regular_walk (os_kernel demo_os) m demo_root 0x8080800000"
    unfolding regular_walk_def Let_def sl
    using ld by (simp_all add: demo_os_def linux_x86_def direct_def table_base_def field_def demo_root_def)
  show "maps_page m demo_root 0x8080604000 0x5000"
    using ld by (simp add: maps_page_def reaches_pte_def sl) (simp add: table_base_def field_def)
  show "frame_apart 0x5000 m demo_root 0x8080604000" "pte_separate m demo_root 0x8080604000"
      "maps_huge m demo_root 0x8080800000" "pmd_separate m demo_root 0x8080800000"
      "\<forall>p\<in>set (upper_slots m demo_root 0x8080800000). apart (pte_slot m demo_root 0x8080604000) 8 p 8"
    unfolding frame_apart_def walk_slots_def pte_separate_def maps_huge_def reaches_pmd_def pmd_separate_def upper_slots_def sl
    using ld by (simp_all add: apart_def)
qed

lemma demo_first_mts:
  assumes "pat_msr s = pat_msr demo_open" "device_busy s"
  shows "ptedit_find_first_mt demo_os demo_booted 0 s = 3" "ptedit_find_first_mt demo_os demo_booted 6 s = 0"
proof -
  have mts: "ptedit_get_mts demo_os demo_booted s = 0x0407050600070106"
    using assms by (simp add: ptedit_get_mts_def lib_ioctl_def demo_open_def demo_kstate_def get_pat_eq Let_def)
  have "builtin_ffs (find_mt_in X86_64 0x0407050600070106 0) - 1 = 3" "builtin_ffs (find_mt_in X86_64 0x0407050600070106 6) - 1 = 0"
    by code_simp+
  then show "ptedit_find_first_mt demo_os demo_booted 0 s = 3" "ptedit_find_first_mt demo_os demo_booted 6 s = 0"
    by (simp_all add: ptedit_find_first_mt_def ptedit_find_mt_def mts demo_os_simps)
qed

theorem uncachable_program_restores_witness:
  "\<exists>out s'. uncachable_program demo_os 0x8080604000 0x8080800000 touch_huge (\<lambda>_ _. (0, 1)) demo_start = Some (0, Some out, s')
    \<and> length out = 11 \<and> phys s' = write_bytes (touch_huge demo_mem) 0x5000 (replicate 4096 65) \<and> \<not> device_busy s'"
proof -
  let ?m = "write_bytes (touch_huge demo_mem) 0x5000 (replicate 4096 65)" and ?c = "\<lambda>_ _. (0, 1) :: u64 \<times> u64"
  define t where "t = demo_start\<lparr>phys := ?m\<rparr>"
  let ?t1 = "t\<lparr>device_busy := True\<rparr>"
  note w0 = huge_walk [OF shows_huge_fill(1)] and w = huge_walk [OF shows_huge_fill(2)]
  have fill: "user_memset demo_os 0x8080604000 65 4096 (demo_start\<lparr>phys := touch_huge (phys demo_start)\<rparr>) = Some t"
    using fill_page [of "touch_huge demo_mem" demo_os demo_start "0x8080604000" "0x5000" 65] w0(3,4) by (simp add: t_def)
  have r: "kernel_root demo_os 0 t = demo_root" "phys t = ?m" "pat_msr t = pat_msr demo_open"
    by (simp_all add: t_def demo_start_def demo_open_def) (simp add: demo_start_def [symmetric])
  have "kernel_ready demo_os demo_booted a 0 ?t1" if "regular_walk (os_kernel demo_os) ?m demo_root a" for a
    using that demo_kernel_ready by (simp add: kernel_ready_def dev_open_def r)
  then have ready: "uncachable_ready demo_os demo_booted 0x8080604000 0x8080800000 ?t1"
    using w by (simp add: uncachable_ready_def demo_os_simps r maps_page_def Let_def)
  have mt: "ptedit_extract_mt X86_64 0x5067 = 0" by (simp add: ptedit_extract_mt_def bit_flag_def)
  have "pat_msr ?t1 = pat_msr demo_open" "device_busy ?t1" using r(3) by simp_all
  note fm = demo_first_mts [OF this]
  have e: "load64 ?m (pte_slot ?m demo_root 0x8080604000) = 0x5067"
    using huge_slots(4) [OF shows_huge_fill(2)] shows_huge_fill(2) by (simp add: shows_huge_def)
  have len: "length (page_output W L x c s @ huge_output W L 0x8080800000 c s) = 11" for W L x c s
    by (simp add: page_output_def huge_output_def MAP_FAILED_def)
  have fm': "ptedit_find_first_mt demo_os demo_booted 0 ?t1 \<noteq> -1" "ptedit_find_first_mt demo_os demo_booted 6 ?t1 \<noteq> -1"
    using fm by simp_all
  from uncachable_program_restores [where touch = touch_huge and clock = ?c, OF demo_os_simps fill refl ready fm'] obtain s' where
    "uncachable_program demo_os 0x8080604000 0x8080800000 touch_huge ?c demo_start
      = Some (0, Some (page_output demo_os demo_booted 0x5067 ?c ?t1 @ huge_output demo_os demo_booted 0x8080800000 ?c ?t1), s')"
    "phys s' = ?m" "\<not> device_busy s'"
    using mt fm by (auto simp: Let_def r e)
  then show ?thesis using len by blast
qed

theorem memmap_main_lists_witness:
  "\<exists>txt st s'. memmap_main demo_os_all [''memmap'', ''0''] [] demo_start = Some (0, Some (txt, st), s')
     \<and> Page 0x8080604000 \<in> set (mm_out st)"
proof -
  let ?W = demo_os_all
  have W: "os_arch ?W = X86_64" "0 \<le> os_dev_fd ?W" "(0::nat) < 2 ^ 31" by (simp_all add: demo_os_all_def demo_os_def)
  have 1: "tables_readable ?W (booted ?W demo_start) (demo_start\<lparr>device_busy := True\<rparr>)"
    by (simp add: tables_readable_def read_table_def ptedit_read_physical_page_def umem_ok_def open_umem_file_def demo_start_def)
      (simp add: demo_os_all_def demo_os_def int_to_size_def)
  have 3: "get_mm (os_kernel ?W) (int_to_size (of_nat 0)) \<noteq> None"
    using demo_kernel_ready by (simp add: kernel_ready_def demo_os_all_def)
  have root: "kernel_root ?W (of_nat 0) demo_start = demo_root"
    using demo_opened(2) by (simp add: kernel_root_def demo_os_all_def cong: option.case_cong)
  have "\<not> bit (load64 demo_mem p) 7" if "take_bit 3 p = 0" for p
    by (simp add: demo_load_aligned [OF that])
  then have 4: "no_gib_pages demo_mem demo_root" by (simp add: no_gib_pages_def slots_aligned)
  have same: "drop_bit 12 (0x8080604000::u64) = drop_bit 12 demo_addr" by (simp add: demo_addr_def)
  have 5: "reaches_pte demo_mem demo_root 0x8080604000"
    using demo_reaches slots_same_page [OF same] by (simp add: reaches_pte_def)
  then have 6: "translate demo_mem demo_root 0x8080604000 \<noteq> None"
    using translate_reaches [OF 5] slots_same_page [OF same] by (simp add: demo_slots demo_loads)
  have 0: "digits 9 10 0 = ''0''" by code_simp
  have 7: "take_bit 12 demo_root = 0" "unat demo_root < 2 ^ 52" by (simp_all add: demo_root_def)
  show ?thesis
    using memmap_main_lists [OF W 1 3, unfolded root demo_start_simps(2), OF 7 4, of "''memmap''" "[]"] 5 6
    by (auto simp: Let_def 0)
qed

end
