(* ===== verification/Arm_Walk.thy ===== *)
theory Arm_Walk
  imports Pt_Library
begin

text \<open>
  The user-space walk and update of \<open>PTEditor/ptedit.c\<close> on AArch64. \<open>Page_Walk\<close> has the code for both
  architectures; here it is measured against the translation tables of the architecture: three levels of 512 entries
  for pages of 4 KiB (39-bit addresses), four levels of 2048 entries for pages of 16 KiB (48-bit addresses), which are
  the two layouts \<open>ptedit_init\<close> knows.

  The two low bits of a descriptor say what it is: 3 is a table, or at the last level a page; 1 is a block, which
  maps a large page; the others are invalid.
\<close>

subsection \<open>Specification\<close>

text \<open>A granule: the bits of the offset, of an index and of an address, the level of the root (0 is the page table), and the levels
  at which a block is allowed.\<close>

record granule =
  g_off :: nat
  g_bits :: nat
  g_va :: nat
  g_top :: nat
  g_blocks :: "nat list"

definition arm_4k :: granule where
  "arm_4k = \<lparr>g_off = 12, g_bits = 9, g_va = 39, g_top = 2, g_blocks = [1, 2]\<rparr>"

definition arm_16k :: granule where
  "arm_16k = \<lparr>g_off = 14, g_bits = 11, g_va = 48, g_top = 3, g_blocks = [1]\<rparr>"

definition arm_shift :: "granule \<Rightarrow> nat \<Rightarrow> nat" where
  "arm_shift G l = g_off G + g_bits G * l"

text \<open>The index of an address at a level has no bits above the size of an address.\<close>

definition arm_slot :: "granule \<Rightarrow> u64 \<Rightarrow> nat \<Rightarrow> u64 \<Rightarrow> u64" where
  "arm_slot G base l a = base + 8 * field (arm_shift G l) (min (g_bits G) (g_va G - arm_shift G l)) a"

text \<open>The address in a descriptor: bits up to 47.\<close>

definition arm_base :: "granule \<Rightarrow> u64 \<Rightarrow> u64" where
  "arm_base G e = push_bit (g_off G) (field (g_off G) (48 - g_off G) e)"

fun arm_slots :: "granule \<Rightarrow> mem \<Rightarrow> nat \<Rightarrow> u64 \<Rightarrow> u64 \<Rightarrow> u64 list" where
  "arm_slots G m 0 base a = [arm_slot G base 0 a]"
| "arm_slots G m (Suc l) base a =
     (let p = arm_slot G base (Suc l) a; e = load64 m p
      in p # (if take_bit 2 e = 3 then arm_slots G m l (arm_base G e) a else []))"

fun arm_lookup :: "granule \<Rightarrow> mem \<Rightarrow> nat \<Rightarrow> u64 \<Rightarrow> u64 \<Rightarrow> u64 option" where
  "arm_lookup G m 0 base a =
     (let e = load64 m (arm_slot G base 0 a)
      in if take_bit 2 e = 3 then Some (arm_base G e OR take_bit (g_off G) a) else None)"
| "arm_lookup G m (Suc l) base a =
     (let e = load64 m (arm_slot G base (Suc l) a); k = arm_shift G (Suc l)
      in if take_bit 2 e = 3 then arm_lookup G m l (arm_base G e) a
         else if take_bit 2 e = 1 \<and> Suc l \<in> set (g_blocks G) then Some (push_bit k (field k (48 - k) e) OR take_bit k a)
         else None)"

definition arm_translate :: "granule \<Rightarrow> mem \<Rightarrow> u64 \<Rightarrow> u64 \<Rightarrow> u64 option" where
  "arm_translate G m root a = (if unat a < 2 ^ g_va G then arm_lookup G m (g_top G) root a else None)"

text \<open>The walk ends in the page table; the walk ends at a block.\<close>

definition arm_reaches :: "granule \<Rightarrow> mem \<Rightarrow> u64 \<Rightarrow> u64 \<Rightarrow> bool" where
  "arm_reaches G m root a \<longleftrightarrow> length (arm_slots G m (g_top G) root a) = Suc (g_top G)"

definition arm_pte_slot :: "granule \<Rightarrow> mem \<Rightarrow> u64 \<Rightarrow> u64 \<Rightarrow> u64" where
  "arm_pte_slot G m root a = last (arm_slots G m (g_top G) root a)"

definition arm_block :: "granule \<Rightarrow> mem \<Rightarrow> u64 \<Rightarrow> u64 \<Rightarrow> bool" where
  "arm_block G m root a \<longleftrightarrow> \<not> arm_reaches G m root a \<and> take_bit 2 (load64 m (arm_pte_slot G m root a)) = 1"

lemma arm_slots_nonempty [simp]: "arm_slots G m l base a \<noteq> []"
  by (cases l) (simp_all add: Let_def)

lemma arm_slots_length: "length (arm_slots G m l base a) \<le> Suc l"
  by (induction l arbitrary: base) (simp_all add: Let_def)

text \<open>Where the walk reaches the page table, the entry there decides; where it ends before and not at a block, there is no
  translation.\<close>

lemma arm_lookup_reaches:
  "length (arm_slots G m l base a) = Suc l \<Longrightarrow>
   arm_lookup G m l base a =
     (let e = load64 m (last (arm_slots G m l base a))
      in if take_bit 2 e = 3 then Some (arm_base G e OR take_bit (g_off G) a) else None)"
  by (induction l arbitrary: base) (auto simp: Let_def split: if_splits)

lemma arm_lookup_stops:
  "length (arm_slots G m l base a) \<noteq> Suc l \<Longrightarrow> take_bit 2 (load64 m (last (arm_slots G m l base a))) \<noteq> 1
   \<Longrightarrow> arm_lookup G m l base a = None"
  by (induction l arbitrary: base) (auto simp: Let_def split: if_splits)

text \<open>A store away from the slots of a walk leaves it as it is; a store into the slot of the page table leaves the slots as they
  are.\<close>

lemma arm_walk_frame:
  "\<forall>q\<in>set (arm_slots G m l base a). apart p 8 q 8 \<Longrightarrow>
   arm_slots G (store64 m p v) l base a = arm_slots G m l base a
   \<and> arm_lookup G (store64 m p v) l base a = arm_lookup G m l base a"
  by (induction l arbitrary: base) (auto simp: Let_def mem_simps split: if_splits)

lemma arm_slots_write:
  "\<forall>q\<in>set (butlast (arm_slots G m l base a)). apart p 8 q 8 \<Longrightarrow> length (arm_slots G m l base a) = Suc l \<Longrightarrow>
   arm_slots G (store64 m p v) l base a = arm_slots G m l base a"
  by (induction l arbitrary: base) (auto simp: Let_def mem_simps split: if_splits)

subsection \<open>The library\<close>

text \<open>The library as \<open>ptedit_init\<close> leaves it on AArch64, for the page size it finds.\<close>

definition lib_arm :: "granule \<Rightarrow> lib \<Rightarrow> bool" where
  "lib_arm G L \<longleftrightarrow> ptedit_pfn_multiply L = 4096 \<and> ptedit_entry_size L = 8
     \<and> (G = arm_4k \<and> ptedit_paging_definition L = init_paging_definition AARCH64 4096
        \<or> G = arm_16k \<and> ptedit_paging_definition L = init_paging_definition AARCH64 16384)"

text \<open>Bits 12 and 13 of a descriptor are zero on 16 KiB pages: the library reads the address from bit 12 on.\<close>

definition arm_res0 :: "granule \<Rightarrow> u64 \<Rightarrow> bool" where
  "arm_res0 G e \<longleftrightarrow> field 12 (g_off G - 12) e = 0"

fun arm_walk_ok :: "granule \<Rightarrow> (u64 \<Rightarrow> bool) \<Rightarrow> mem \<Rightarrow> nat \<Rightarrow> u64 \<Rightarrow> u64 \<Rightarrow> bool" where
  "arm_walk_ok G ok m 0 base a \<longleftrightarrow> ok (arm_slot G base 0 a)"
| "arm_walk_ok G ok m (Suc l) base a \<longleftrightarrow>
     (let p = arm_slot G base (Suc l) a; e = load64 m p
      in ok p \<and> (take_bit 2 e = 3 \<longrightarrow> arm_res0 G e \<and> arm_walk_ok G ok m l (arm_base G e) a))"

text \<open>What the library returns, given the entries the walk reads.\<close>

fun arm_entry :: "granule \<Rightarrow> u64 list \<Rightarrow> ptedit_entry_t \<Rightarrow> ptedit_entry_t" where
  "arm_entry G [e2, e1] r =
     (if g_top G = 2 then r\<lparr>e_pgd := e2, e_p4d := e2, e_pud := e2, e_pmd := e1, e_valid := 9\<rparr>
      else r\<lparr>e_pgd := e2, e_p4d := e2, e_pud := e1, e_valid := 5\<rparr>)"
| "arm_entry G [e2, e1, e0] r =
     (if g_top G = 2 then r\<lparr>e_pgd := e2, e_p4d := e2, e_pud := e2, e_pmd := e1, e_pte := e0, e_valid := 25\<rparr>
      else r\<lparr>e_pgd := e2, e_p4d := e2, e_pud := e1, e_pmd := e0, e_valid := 13\<rparr>)"
| "arm_entry G [e3, e2, e1, e0] r =
     r\<lparr>e_pgd := e3, e_p4d := e3, e_pud := e2, e_pmd := e1, e_pte := e0, e_valid := 29\<rparr>"
| "arm_entry G es r = r"

lemma arm_present_iff: "table_present AARCH64 e = PTEDIT_PAGE_PRESENT AARCH64 \<longleftrightarrow> take_bit 2 e = 3"
  by (simp add: table_defs cast_arm_pgd_def field_def)

lemma arm_page_iff: "page_present AARCH64 e = PTEDIT_PAGE_PRESENT AARCH64 \<longleftrightarrow> take_bit 2 e = 3"
  by (simp add: table_defs cast_arm_pte_def field_def)

lemma field_narrow:
  assumes "unat a < 2 ^ (s + k)" "k \<le> n"
  shows "field s n a = field s k (a :: u64)"
proof (rule bit_word_eqI)
  fix j
  have "take_bit (s + k) a = a"
    using assms(1) by (simp add: word_unat_eq_iff unsigned_take_bit_eq take_bit_nat_eq_self)
  then have "j < k" if "bit a (s + j)"
    using that by (metis bit_take_bit_iff nat_add_left_cancel_less)
  then show "bit (field s n a) j = bit (field s k a) j"
    using assms(2) by (auto simp: bit_field)
qed

lemma as_int_index: "n \<le> 30 \<Longrightarrow> as_int (field off n a) = field off n a"
  unfolding as_int_def
proof (rule int_to_size_to_int_small)
  assume "n \<le> 30"
  then have "(2::nat) ^ n \<le> 2 ^ 30" by (intro power_increasing) auto
  then show "unat (field off n a) < 2 ^ 31" using field_less [of n off a] \<open>n \<le> 30\<close> by simp
qed

lemma arm_slots_code:
  assumes "lib_arm G L" "unat a < 2 ^ g_va G"
  defines "d \<equiv> ptedit_paging_definition L"
  shows "entry_addr L b (as_int (pgd_index d a)) = arm_slot G b (g_top G) a"
    and "has_pud d \<Longrightarrow> entry_addr L b (as_int (pud_index d a)) = arm_slot G b 2 a"
    and "entry_addr L b (as_int (pmd_index d a)) = arm_slot G b 1 a"
    and "entry_addr L b (as_int (pt_index d a)) = arm_slot G b 0 a"
    and "entry_addr L b (pgd_index d a) = arm_slot G b (g_top G) a"
    and "has_pud d \<Longrightarrow> entry_addr L b (pud_index d a) = arm_slot G b 2 a"
    and "entry_addr L b (pmd_index d a) = arm_slot G b 1 a"
    and "entry_addr L b (pt_index d a) = arm_slot G b 0 a"
  using assms field_narrow [of a 47 1 11]
  by (auto simp: lib_arm_def init_paging_definition_def entry_addr_def arm_slot_def arm_shift_def as_int_index
      arm_4k_def arm_16k_def pgd_index_def pud_index_def pmd_index_def pt_index_def level_index_field mult.commute)

lemma arm_pfn_base:
  assumes "lib_arm G L" "arm_res0 G e"
  shows "table_pfn AARCH64 e * 4096 = arm_base G e"
proof -
  have "push_bit 12 (field 12 36 e) = arm_base G e"
  proof (rule bit_word_eqI)
    fix j
    have "\<not> bit e j" if "12 \<le> j" "j < g_off G"
      using arg_cong [OF assms(2) [unfolded arm_res0_def], of "\<lambda>w. bit w (j - 12)"] that by (simp add: bit_field)
    then show "bit (push_bit 12 (field 12 36 e)) j = bit (arm_base G e) j"
      using assms(1) by (cases "j < 14") (auto simp: arm_base_def bit_simps bit_field lib_arm_def arm_4k_def arm_16k_def not_less)
  qed
  then show ?thesis by (simp add: table_defs cast_arm_pgd_def push_bit_eq_mult)
qed

lemma lib_arm_cases:
  assumes "lib_arm G L"
  obtains (small) "G = arm_4k" "g_top G = Suc (Suc 0)" "\<not> has_pud (ptedit_paging_definition L)"
    | (large) "G = arm_16k" "g_top G = Suc (Suc (Suc 0))" "has_pud (ptedit_paging_definition L)"
  using assms by (auto simp: lib_arm_def init_paging_definition_def arm_4k_def arm_16k_def)

lemma lib_arm_facts:
  assumes "lib_arm G L"
  shows "\<not> has_p4d (ptedit_paging_definition L)" "has_pmd (ptedit_paging_definition L)"
    "has_pgd (ptedit_paging_definition L)" "ptedit_pfn_multiply L = 4096"
  using assms by (auto simp: lib_arm_def init_paging_definition_def)

lemma arm_masks:
  "(1::u64) OR PTEDIT_VALID_MASK_PMD = 9" "(9::u64) OR PTEDIT_VALID_MASK_PTE = 25"
  by (simp_all add: valid_masks)

context phys_access
begin

lemma arm_walk_tables:
  assumes L: "lib_arm G L" and a: "unat a < 2 ^ g_va G" and ok: "arm_walk_ok G ok m (g_top G) root a"
  shows "walk_tables AARCH64 L (deref m) a root (empty_entry a pid) =
    Some (arm_entry G (map (load64 m) (arm_slots G m (g_top G) root a)) (empty_entry a pid))"
  using L
proof (cases rule: lib_arm_cases)
  case small
  then show ?thesis
    using ok unfolding walk_tables_def Let_def arm_slots_code [OF L a] arm_present_iff lib_arm_facts(4) [OF L]
    by (auto simp: lib_arm_facts [OF L] deref_ok arm_pfn_base [OF L] Let_def empty_entry_def user_masks arm_masks)
next
  case large
  then show ?thesis
    using ok unfolding walk_tables_def Let_def arm_slots_code [OF L a] arm_present_iff lib_arm_facts(4) [OF L]
    by (auto simp: lib_arm_facts [OF L] deref_ok arm_pfn_base [OF L] Let_def empty_entry_def user_masks arm_masks
        arm_slots_code(2) [OF L a, unfolded numeral_2_eq_2])
qed

lemma arm_write_tables:
  assumes L: "lib_arm G L" and a: "unat a < 2 ^ g_va G" and ok: "arm_walk_ok G ok m (g_top G) root a"
    and reach: "arm_reaches G m root a" and v: "e_valid vm = PTEDIT_VALID_MASK_PTE"
  shows "write_tables AARCH64 L pset a root vm
      (arm_entry G (map (load64 m) (arm_slots G m (g_top G) root a)) (empty_entry a pid)) m =
    Some (store64 m (arm_pte_slot G m root a) (e_pte vm))"
  using L
proof (cases rule: lib_arm_cases)
  case small
  then show ?thesis
    using ok reach unfolding write_tables_def Let_def arm_slots_code [OF L a] lib_arm_facts(4) [OF L]
    by (auto simp: lib_arm_facts [OF L] pset_ok pset_level_def test_mask_bits v bit_valid_masks arm_pfn_base [OF L] Let_def
        arm_reaches_def arm_pte_slot_def split: if_splits)
next
  case large
  then show ?thesis
    using ok reach unfolding write_tables_def Let_def arm_slots_code [OF L a] lib_arm_facts(4) [OF L]
    by (auto simp: lib_arm_facts [OF L] pset_ok pset_level_def test_mask_bits v bit_valid_masks arm_pfn_base [OF L] Let_def
        arm_reaches_def arm_pte_slot_def split: if_splits)
qed

end

subsection \<open>Resolving and updating\<close>

text \<open>One of the user-space implementations is selected, and can walk for the address.\<close>

definition arm_ready :: "granule \<Rightarrow> os \<Rightarrow> lib \<Rightarrow> u64 \<Rightarrow> u32 \<Rightarrow> kstate \<Rightarrow> bool" where
  "arm_ready G W L a pid s \<longleftrightarrow> lib_arm G L \<and> os_arch W = AARCH64 \<and> unat a < 2 ^ g_va G
     \<and> ptedit_resolve_p L \<in> {Some Impl_user, Some Impl_user_map}
     \<and> ptedit_update_p L = ptedit_resolve_p L
     \<and> root_of W L pid s \<noteq> 0
     \<and> arm_walk_ok G (access_ok W L) (phys s) (g_top G) (root_of W L pid s) a"

text \<open>The entry \<open>ptedit_resolve\<close> returns.\<close>

definition arm_resolved :: "granule \<Rightarrow> mem \<Rightarrow> u64 \<Rightarrow> u64 \<Rightarrow> u64 \<Rightarrow> ptedit_entry_t" where
  "arm_resolved G m root a pid =
     arm_entry G (map (load64 m) (arm_slots G m (g_top G) root a)) (empty_entry a pid)"

lemma arm_impl:
  assumes "arm_ready G W L a pid s"
  obtains (umem) "ptedit_resolve_p L = Some Impl_user" "ptedit_update_p L = Some Impl_user"
      "access_ok W L = (\<lambda>a. umem_ok W L a 8)"
    | (map) "ptedit_resolve_p L = Some Impl_user_map" "ptedit_update_p L = Some Impl_user_map"
      "access_ok W L = vmem_ok L"
  using assms by (auto simp: arm_ready_def access_ok_def [abs_def])

lemma arm_resolve:
  assumes "arm_ready G W L a pid s"
  shows "ptedit_resolve W L a pid s =
    Some (arm_resolved G (phys s) (root_of W L pid s) a (int_to_size pid), log_events (root_events W L pid s) s)"
  using assms
proof (cases rule: arm_impl)
  case umem
  then show ?thesis
    using assms via_umem.arm_walk_tables [where W = W and L = L and G = G and a = a and m = "phys s"]
    by (simp add: arm_ready_def ptedit_resolve_def ptedit_resolve_user_def ptedit_resolve_user_ext_def walk_root_eq
        arm_resolved_def)
next
  case map
  then show ?thesis
    using assms via_map.arm_walk_tables [where L = L and G = G and a = a and m = "phys s"]
    by (simp add: arm_ready_def ptedit_resolve_def ptedit_resolve_user_map_def ptedit_resolve_user_ext_def walk_root_eq
        arm_resolved_def)
qed

lemma arm_update:
  assumes ready: "arm_ready G W L a pid s" and reach: "arm_reaches G (phys s) (root_of W L pid s) a"
    and v: "e_valid vm = PTEDIT_VALID_MASK_PTE"
  shows "\<exists>es. ptedit_update W L a pid vm s =
    Some (vm, log_events es (s\<lparr>phys := store64 (phys s) (arm_pte_slot G (phys s) (root_of W L pid s) a) (e_pte vm)\<rparr>))"
  using ready
proof (cases rule: arm_impl)
  case umem
  then have "write_tables AARCH64 L (ptedit_phys_write_pwrite W L) a (root_of W L pid s) vm
      (arm_resolved G (phys s) (root_of W L pid s) a (int_to_size pid)) (phys s) =
    Some (store64 (phys s) (arm_pte_slot G (phys s) (root_of W L pid s) a) (e_pte vm))"
    using ready via_umem.arm_write_tables [where W = W and L = L and G = G, OF _ _ _ reach v]
    by (simp add: arm_ready_def arm_resolved_def)
  then show ?thesis
    using ready umem arm_resolve [OF ready]
    by (auto simp: arm_ready_def ptedit_update_def ptedit_update_user_def ptedit_update_user_ext_def walk_root_eq
        invalidate_tlb_eq)
next
  case map
  then have "write_tables AARCH64 L (ptedit_phys_write_map L) a (root_of W L pid s) vm
      (arm_resolved G (phys s) (root_of W L pid s) a (int_to_size pid)) (phys s) =
    Some (store64 (phys s) (arm_pte_slot G (phys s) (root_of W L pid s) a) (e_pte vm))"
    using ready via_map.arm_write_tables [where L = L and G = G, OF _ _ _ reach v]
    by (simp add: arm_ready_def arm_resolved_def)
  then show ?thesis
    using ready map arm_resolve [OF ready]
    by (auto simp: arm_ready_def ptedit_update_def ptedit_update_user_map_def ptedit_update_user_ext_def walk_root_eq
        invalidate_tlb_eq)
qed

text \<open>What the result says of the page-table level: it is marked as read exactly where the walk reaches it.\<close>

lemma arm_entry_pte:
  assumes "lib_arm G L"
  shows "bit (e_valid (arm_resolved G m root a pid)) 4 \<longleftrightarrow> arm_reaches G m root a"
    and "arm_reaches G m root a \<Longrightarrow> e_pte (arm_resolved G m root a pid) = load64 m (arm_pte_slot G m root a)"
    and "e_vaddr (arm_resolved G m root a pid) = a"
proof -
  have valid: "e_valid (empty_entry a pid) = 0" "e_vaddr (empty_entry a pid) = a" by (simp_all add: empty_entry_def)
  have bits: "\<not> bit (9::u64) 4" "bit (25::u64) 4" "\<not> bit (5::u64) 4" "\<not> bit (13::u64) 4" "bit (29::u64) 4" by simp_all
  show "bit (e_valid (arm_resolved G m root a pid)) 4 \<longleftrightarrow> arm_reaches G m root a"
    using assms by (cases rule: lib_arm_cases) (auto simp: arm_resolved_def arm_reaches_def Let_def valid bits)
  show "arm_reaches G m root a \<Longrightarrow> e_pte (arm_resolved G m root a pid) = load64 m (arm_pte_slot G m root a)"
    using assms by (cases rule: lib_arm_cases)
      (auto simp: arm_resolved_def arm_reaches_def arm_pte_slot_def Let_def split: if_splits)
  show "e_vaddr (arm_resolved G m root a pid) = a"
    using assms by (cases rule: lib_arm_cases) (auto simp: arm_resolved_def Let_def valid)
qed

text \<open>The translation an entry stands for, by the functions of the library.\<close>

definition entry_target :: "granule \<Rightarrow> ptedit_entry_t \<Rightarrow> u64 option" where
  "entry_target G e =
     (if test_mask (e_valid e) PTEDIT_VALID_MASK_PTE \<and> page_present AARCH64 (e_pte e) = PTEDIT_PAGE_PRESENT AARCH64
      then Some (push_bit 12 (ptedit_get_pfn AARCH64 (e_pte e)) OR take_bit (g_off G) (e_vaddr e)) else None)"

lemma arm_page_base:
  assumes "lib_arm G L" "arm_res0 G e"
  shows "push_bit 12 (ptedit_get_pfn AARCH64 e) = arm_base G e"
proof -
  have "ptedit_get_pfn AARCH64 e = table_pfn AARCH64 e"
    by (rule bit_word_eqI) (auto simp: ptedit_get_pfn_def bit_simps bit_pfn_mask pfn_bits_def table_defs cast_arm_pgd_def bit_field)
  then show ?thesis using arm_pfn_base [OF assms] by (simp add: push_bit_eq_mult)
qed

lemma arm_walk_ok_write:
  "\<forall>q\<in>set (butlast (arm_slots G m l base a)). apart p 8 q 8 \<Longrightarrow> length (arm_slots G m l base a) = Suc l \<Longrightarrow>
   arm_walk_ok G ok (store64 m p v) l base a = arm_walk_ok G ok m l base a"
  by (induction l arbitrary: base) (auto simp: Let_def mem_simps split: if_splits)

text \<open>
  C20. On AArch64, for pages of 4 KiB and of 16 KiB: resolving an address in user space returns and changes nothing but the
  log; the page-table level is marked valid exactly where the walk of the architecture reaches the page table; and the
  translation the result stands for is the one of the architecture, unless the address lies in a block.\<close>

theorem arm_resolve_refines:
  assumes "arm_ready G W L a pid s"
  defines "m \<equiv> phys s" and "root \<equiv> root_of W L pid s"
  assumes "arm_res0 G (load64 m (arm_pte_slot G m root a))"
  shows "\<exists>e es. ptedit_resolve W L a pid s = Some (e, log_events es s)
    \<and> (bit (e_valid e) 4 \<longleftrightarrow> arm_reaches G m root a)
    \<and> (\<not> arm_block G m root a \<longrightarrow> entry_target G e = arm_translate G m root a)"
proof -
  define e where "e = arm_resolved G m root a (int_to_size pid)"
  have L: "lib_arm G L" and a: "unat a < 2 ^ g_va G" using assms(1) by (simp_all add: arm_ready_def)
  note pte = arm_entry_pte [OF L, of m root a "int_to_size pid", folded e_def]
  have "entry_target G e = arm_translate G m root a" if "\<not> arm_block G m root a"
  proof (cases "arm_reaches G m root a")
    case True
    then show ?thesis
      using pte a arm_page_base [OF L assms(4)] arm_lookup_reaches [of G m "g_top G" root a]
      by (simp add: entry_target_def test_mask_bits arm_page_iff arm_translate_def arm_reaches_def arm_pte_slot_def Let_def)
  next
    case False
    then show ?thesis
      using that pte arm_lookup_stops [of G m "g_top G" root a]
      by (simp add: entry_target_def test_mask_bits arm_translate_def arm_block_def arm_reaches_def arm_pte_slot_def)
  qed
  then show ?thesis using arm_resolve [OF assms(1), folded m_def root_def, folded e_def] pte(1) by blast
qed

text \<open>
  C21. On AArch64, updating the page-table level of an address in user space writes its entry, so that the architecture translates
  the address by it, the next resolve returns it, and every address whose walk does not read this entry is
  translated as before.\<close>

theorem arm_update_refines:
  assumes "arm_ready G W L a pid s"
  defines "m \<equiv> phys s" and "root \<equiv> root_of W L pid s"
  defines "p \<equiv> arm_pte_slot G m root a"
  assumes "arm_reaches G m root a" "\<forall>q\<in>set (butlast (arm_slots G m (g_top G) root a)). apart p 8 q 8"
    and "e_valid vm = PTEDIT_VALID_MASK_PTE"
  shows "\<exists>s' e s''. ptedit_update W L a pid vm s = Some (vm, s')
    \<and> arm_translate G (phys s') root a =
        (if take_bit 2 (e_pte vm) = 3 then Some (arm_base G (e_pte vm) OR take_bit (g_off G) a) else None)
    \<and> (\<forall>b. (\<forall>q\<in>set (arm_slots G m (g_top G) root b). apart p 8 q 8)
           \<longrightarrow> arm_translate G (phys s') root b = arm_translate G m root b)
    \<and> ptedit_resolve W L a pid s' = Some (e, s'') \<and> e_pte e = e_pte vm"
proof -
  define m' where "m' = store64 m p (e_pte vm)"
  have L: "lib_arm G L" and a: "unat a < 2 ^ g_va G" using assms(1) by (simp_all add: arm_ready_def)
  have slots: "arm_slots G m' (g_top G) root a = arm_slots G m (g_top G) root a"
    using assms(5,6) unfolding m'_def by (intro arm_slots_write) (simp_all add: arm_reaches_def)
  have reach: "arm_reaches G m' root a" "arm_pte_slot G m' root a = p"
    using assms(5) by (simp_all add: arm_reaches_def arm_pte_slot_def slots p_def)
  have val: "load64 m' p = e_pte vm" by (simp add: m'_def mem_simps)
  obtain es where up: "ptedit_update W L a pid vm s = Some (vm, log_events es (s\<lparr>phys := m'\<rparr>))"
    using arm_update [OF assms(1) assms(5,7) [unfolded m_def root_def]] by (auto simp: m'_def p_def m_def root_def)
  have "arm_ready G W L a pid (log_events es (s\<lparr>phys := m'\<rparr>))"
    using assms(1,5,6) arm_walk_ok_write [of G m "g_top G" root a p]
    by (simp add: arm_ready_def m_def root_def m'_def arm_reaches_def)
  from arm_resolve [OF this] have
    res: "ptedit_resolve W L a pid (log_events es (s\<lparr>phys := m'\<rparr>)) = Some (arm_resolved G m' root a (int_to_size pid),
      log_events (root_events W L pid (log_events es (s\<lparr>phys := m'\<rparr>))) (log_events es (s\<lparr>phys := m'\<rparr>)))"
    by (simp add: root_def)
  have "arm_translate G m' root a =
      (if take_bit 2 (e_pte vm) = 3 then Some (arm_base G (e_pte vm) OR take_bit (g_off G) a) else None)"
    using arm_lookup_reaches [of G m' "g_top G" root a] reach val a
    by (simp add: arm_translate_def arm_reaches_def arm_pte_slot_def)
  moreover have "arm_translate G m' root b = arm_translate G m root b"
    if "\<forall>q\<in>set (arm_slots G m (g_top G) root b). apart p 8 q 8" for b
    using arm_walk_frame [OF that, of "e_pte vm"] by (simp add: arm_translate_def m'_def)
  moreover have "e_pte (arm_resolved G m' root a (int_to_size pid)) = e_pte vm"
    using arm_entry_pte(2) [OF L reach(1)] reach(2) val by simp
  ultimately show ?thesis using up res by (intro exI conjI) (assumption | simp)+
qed

text \<open>Frame numbers count 4 KiB, physical pages count pages: on 16 KiB pages, reading the physical page of an entry by
  its frame number reads at four times the address.\<close>

lemma arm_16k_frame_units:
  assumes "lib_arm arm_16k L" "ptedit_pagesize L = 16384" "0 < ptedit_umem L" "arm_res0 arm_16k e"
    and "umem_ok W L (4 * arm_base arm_16k e) 16384"
  shows "ptedit_read_physical_page W L (ptedit_get_pfn AARCH64 e) buffer s =
    (read_bytes (phys s) (4 * arm_base arm_16k e) 16384, s)"
proof -
  have "ptedit_get_pfn AARCH64 e * 16384 = 4 * push_bit 12 (ptedit_get_pfn AARCH64 e)" by (simp add: push_bit_eq_mult)
  then have "ptedit_get_pfn AARCH64 e * 16384 = 4 * arm_base arm_16k e" using arm_page_base [OF assms(1,4)] by simp
  then show ?thesis using assms by (simp add: ptedit_read_physical_page_def int_to_size_def)
qed

text \<open>A block at the root level, 1 GiB on 4 KiB pages, is reported like an address without mapping.\<close>

lemma arm_block_not_reported:
  assumes "arm_ready arm_4k W L a pid s" "take_bit 2 (load64 (phys s) (arm_slot arm_4k (root_of W L pid s) 2 a)) = 1"
  shows "\<exists>es. ptedit_resolve W L a pid s = Some (empty_entry a (int_to_size pid), log_events es s)
    \<and> arm_translate arm_4k (phys s) (root_of W L pid s) a \<noteq> None"
proof -
  have top: "g_top arm_4k = Suc (Suc 0)" by (simp add: arm_4k_def)
  have "arm_resolved arm_4k (phys s) (root_of W L pid s) a (int_to_size pid) = empty_entry a (int_to_size pid)"
    using assms(2) by (simp add: arm_resolved_def top Let_def numeral_2_eq_2)
  moreover have "unat a < 2 ^ g_va arm_4k" "Suc (Suc 0) \<in> set (g_blocks arm_4k)"
    using assms(1) by (simp_all add: arm_ready_def arm_4k_def)
  ultimately show ?thesis
    using arm_resolve [OF assms(1)] assms(2) by (auto simp: arm_translate_def top Let_def numeral_2_eq_2)
qed

subsection \<open>A process with 16 KiB pages\<close>

definition arm_mem :: mem where
  "arm_mem = store64 (store64 (store64 (store64 (\<lambda>_. 0) 0x10000 0x14003) 0x14000 0x18003) 0x18000 0x1c003) 0x1c008 0x20703"

definition arm_os :: os where
  "arm_os = demo_os\<lparr>os_arch := AARCH64, os_getpagesize := 16384\<rparr>"

definition arm_lib :: lib where
  "arm_lib = demo_lib\<lparr>ptedit_pagesize := 16384, ptedit_paging_root := 0x10000,
     ptedit_paging_definition := init_paging_definition AARCH64 16384,
     ptedit_resolve_p := Some Impl_user, ptedit_update_p := Some Impl_user\<rparr>"

definition arm_kstate :: kstate where
  "arm_kstate = demo_open\<lparr>phys := arm_mem\<rparr>"

definition arm_new :: ptedit_entry_t where
  "arm_new = (empty_entry 0x4321 0)\<lparr>e_pte := 0x24703, e_valid := PTEDIT_VALID_MASK_PTE\<rparr>"

lemma arm_mem_loads:
  "load64 arm_mem 0x10000 = 0x14003" "load64 arm_mem 0x14000 = 0x18003" "load64 arm_mem 0x18000 = 0x1c003"
  "load64 arm_mem 0x1c008 = 0x20703"
  by (simp_all add: arm_mem_def load64_store64_same load64_store64_apart apart_aligned8)

lemma arm_demo_index:
  "g_top arm_16k = Suc (Suc (Suc 0))"
  "arm_slot arm_16k b (Suc (Suc (Suc 0))) 0x4321 = b" "arm_slot arm_16k b (Suc (Suc 0)) 0x4321 = b"
  "arm_slot arm_16k b (Suc 0) 0x4321 = b" "arm_slot arm_16k b 0 0x4321 = b + 8"
  "arm_base arm_16k 0x14003 = 0x14000" "arm_base arm_16k 0x18003 = 0x18000" "arm_base arm_16k 0x1c003 = 0x1c000"
  "arm_res0 arm_16k 0x14003" "arm_res0 arm_16k 0x18003" "arm_res0 arm_16k 0x1c003" "arm_res0 arm_16k 0x20703"
  by (simp_all add: arm_slot_def arm_shift_def arm_16k_def arm_base_def arm_res0_def field_def)

lemma arm_demo_slots: "arm_slots arm_16k arm_mem (g_top arm_16k) 0x10000 0x4321 = [0x10000, 0x14000, 0x18000, 0x1c008]"
  by (simp add: arm_demo_index Let_def arm_mem_loads)

lemma arm_demo_root [simp]: "root_of arm_os arm_lib 0 arm_kstate = 0x10000"
  by (simp add: root_of_def arm_lib_def)

lemma arm_demo_ready: "arm_ready arm_16k arm_os arm_lib 0x4321 0 arm_kstate"
proof -
  have ok: "access_ok arm_os arm_lib = (\<lambda>a. unat a + 8 \<le> 2 ^ 35)"
    by (rule ext) (simp add: access_ok_def arm_lib_def arm_os_def demo_lib_def demo_os_def umem_ok_def)
  have "arm_walk_ok arm_16k (access_ok arm_os arm_lib) arm_mem (g_top arm_16k) 0x10000 0x4321"
    by (simp add: arm_demo_index Let_def arm_mem_loads ok)
  then show ?thesis
    by (simp add: arm_ready_def arm_kstate_def lib_arm_def arm_lib_def arm_os_def demo_lib_def demo_os_def root_of_def
        arm_demo_index) (simp add: arm_16k_def)
qed

lemma arm_demo_walk:
  "arm_pte_slot arm_16k arm_mem 0x10000 0x4321 = 0x1c008" "arm_reaches arm_16k arm_mem 0x10000 0x4321"
  "\<not> arm_block arm_16k arm_mem 0x10000 0x4321" "phys arm_kstate = arm_mem"
  "arm_res0 arm_16k (load64 arm_mem 0x1c008)"
proof -
  show slot: "arm_pte_slot arm_16k arm_mem 0x10000 0x4321 = 0x1c008" by (simp add: arm_pte_slot_def arm_demo_slots)
  show reach: "arm_reaches arm_16k arm_mem 0x10000 0x4321"
    by (simp add: arm_reaches_def arm_demo_slots) (simp add: arm_16k_def)
  show "\<not> arm_block arm_16k arm_mem 0x10000 0x4321" using reach by (simp add: arm_block_def)
  show "phys arm_kstate = arm_mem" by (simp add: arm_kstate_def)
  show "arm_res0 arm_16k (load64 arm_mem 0x1c008)" by (simp add: arm_mem_loads arm_demo_index)
qed

lemma arm_demo_translate: "arm_translate arm_16k arm_mem 0x10000 0x4321 = Some 0x20321"
proof -
  have va: "unat (0x4321 :: u64) < 2 ^ g_va arm_16k" by (simp add: arm_16k_def)
  have "arm_base arm_16k 0x20703 OR take_bit (g_off arm_16k) 0x4321 = 0x20321"
    by (simp add: arm_base_def arm_16k_def field_def)
  then show ?thesis
    using arm_lookup_reaches [OF arm_demo_walk(2) [unfolded arm_reaches_def]] va arm_demo_walk(1)
    by (simp add: arm_translate_def arm_pte_slot_def arm_mem_loads)
qed

theorem arm_resolve_refines_witness:
  "\<exists>e es. ptedit_resolve arm_os arm_lib 0x4321 0 arm_kstate = Some (e, log_events es arm_kstate)
     \<and> bit (e_valid e) 4 \<and> entry_target arm_16k e = Some 0x20321"
  using arm_resolve_refines [OF arm_demo_ready] arm_demo_walk by (simp add: arm_demo_translate)

theorem arm_update_refines_witness:
  "\<exists>s' e s''. ptedit_update arm_os arm_lib 0x4321 0 arm_new arm_kstate = Some (arm_new, s')
     \<and> arm_translate arm_16k (phys s') 0x10000 0x4321 = Some 0x24321
     \<and> ptedit_resolve arm_os arm_lib 0x4321 0 s' = Some (e, s'') \<and> e_pte e = 0x24703"
proof -
  have "arm_base arm_16k 0x24703 OR take_bit (g_off arm_16k) 0x4321 = 0x24321"
    by (simp add: arm_base_def arm_16k_def field_def)
  then show ?thesis
    using arm_update_refines [OF arm_demo_ready, of arm_new] arm_demo_walk
    by (auto simp: arm_demo_slots arm_new_def apart_aligned8)
qed

end
